(* ===== verification/Prelude.thy ===== *)
theory Prelude
  imports Main "HOL-Library.AList" "HOL-Library.Multiset"
begin

text \<open>
  Prelude of the development: the outcome of a Go call, sequencing of state-changing
  calls, Go maps, and the lemma collections every other theory uses.

  A Go function of this repository returns normally, returns a non-nil error, or panics
  (a nil pointer is dereferenced).  The three are the constructors of \<open>res\<close>.  A method
  that changes its receiver takes the state and returns it beside the outcome;
  \<open>andThen\<close> sequences two such calls, leaving at the first error or panic, which is
  \<^verbatim>\<open>if err != nil { return err }\<close>.
\<close>

section \<open>Outcomes of Go calls\<close>

datatype ('e, 'a) res = Ok 'a | Fail 'e | Panic

fun is_panic :: "('e, 'a) res \<Rightarrow> bool" where
  "is_panic Panic = True"
| "is_panic _ = False"

fun is_ok :: "('e, 'a) res \<Rightarrow> bool" where
  "is_ok (Ok _) = True"
| "is_ok _ = False"

fun map_ok :: "('a \<Rightarrow> 'b) \<Rightarrow> ('e, 'a) res \<Rightarrow> ('e, 'b) res" where
  "map_ok f (Ok x) = Ok (f x)"
| "map_ok f (Fail e) = Fail e"
| "map_ok f Panic = Panic"

definition andThen ::
  "'s \<times> ('e, 'a) res \<Rightarrow> ('s \<Rightarrow> 'a \<Rightarrow> 's \<times> ('e, 'b) res) \<Rightarrow> 's \<times> ('e, 'b) res" where
  "andThen m k =
     (case m of (s, Ok x) \<Rightarrow> k s x | (s, Fail e) \<Rightarrow> (s, Fail e) | (s, Panic) \<Rightarrow> (s, Panic))"

named_theorems step_simps \<open>how a sequenced call continues\<close>
named_theorems outcome_iff \<open>when a sequenced call has a given outcome\<close>
named_theorems frame \<open>fields an operation leaves alone\<close>

lemma andThen_simps [simp, step_simps]:
  "andThen (s, Ok x) k = k s x"
  "andThen (s, Fail e) k = (s, Fail e)"
  "andThen (s, Panic) k = (s, Panic)"
  by (simp_all add: andThen_def)

lemma andThen_split:
  "P (andThen m k) \<longleftrightarrow>
     (\<forall>s x. m = (s, Ok x) \<longrightarrow> P (k s x)) \<and>
     (\<forall>s e. m = (s, Fail e) \<longrightarrow> P (s, Fail e)) \<and>
     (\<forall>s. m = (s, Panic) \<longrightarrow> P (s, Panic))"
  by (cases m; cases "snd m") auto

lemma andThen_split_asm:
  "P (andThen m k) \<longleftrightarrow>
     \<not> ((\<exists>s x. m = (s, Ok x) \<and> \<not> P (k s x)) \<or>
        (\<exists>s e. m = (s, Fail e) \<and> \<not> P (s, Fail e)) \<or>
        (\<exists>s. m = (s, Panic) \<and> \<not> P (s, Panic)))"
  by (cases m; cases "snd m") auto

lemmas andThen_splits = andThen_split andThen_split_asm

lemma andThen_Ok_iff [outcome_iff]:
  "andThen m k = (s', Ok y) \<longleftrightarrow> (\<exists>s x. m = (s, Ok x) \<and> k s x = (s', Ok y))"
  by (cases m; cases "snd m") auto

lemma andThen_Fail_iff [outcome_iff]:
  "andThen m k = (s', Fail e) \<longleftrightarrow>
     m = (s', Fail e) \<or> (\<exists>s x. m = (s, Ok x) \<and> k s x = (s', Fail e))"
  by (cases m; cases "snd m") auto

lemma andThen_Panic_iff [outcome_iff]:
  "andThen m k = (s', Panic) \<longleftrightarrow>
     m = (s', Panic) \<or> (\<exists>s x. m = (s, Ok x) \<and> k s x = (s', Panic))"
  by (cases m; cases "snd m") auto

lemma snd_andThen_Panic_iff:
  "snd (andThen m k) = Panic \<longleftrightarrow>
     snd m = Panic \<or> (\<exists>s x. m = (s, Ok x) \<and> snd (k s x) = Panic)"
  by (cases m; cases "snd m") auto

lemma map_ok_iff [outcome_iff]:
  "map_ok f m = Ok y \<longleftrightarrow> (\<exists>x. m = Ok x \<and> y = f x)"
  "map_ok f m = Fail e \<longleftrightarrow> m = Fail e"
  "map_ok f m = Panic \<longleftrightarrow> m = Panic"
  by (cases m; auto)+

text \<open>A relation that both parts keep is kept by the sequence.\<close>

lemma andThen_rel:
  assumes "R s (fst m)"
    and "\<And>t x. m = (t, Ok x) \<Longrightarrow> R t (fst (k t x))"
    and "\<And>a b c. R a b \<Longrightarrow> R b c \<Longrightarrow> R a c"
  shows "R s (fst (andThen m k))"
  using assms by (cases m; cases "snd m") auto

section \<open>Go maps\<close>

text \<open>
  A Go map is an association list with distinct keys.  The list order is the order in
  which one \<^verbatim>\<open>range\<close> loop visits the entries.  Go leaves that order open, so a theorem
  about a loop over a map is stated for every list; where the result does not depend on
  the order, a lemma says so (\<open>same_map\<close>).
\<close>

type_synonym 'v gomap = "(string \<times> 'v) list"

abbreviation mput :: "string \<Rightarrow> 'v \<Rightarrow> 'v gomap \<Rightarrow> 'v gomap" where
  "mput \<equiv> AList.update"

definition is_map :: "'v gomap \<Rightarrow> bool" where
  "is_map m \<longleftrightarrow> distinct (map fst m)"

definition same_map :: "'v gomap \<Rightarrow> 'v gomap \<Rightarrow> bool" where
  "same_map m m' \<longleftrightarrow> is_map m \<and> is_map m' \<and> set m = set m'"

lemma is_map_Nil [simp]: "is_map []"
  by (simp add: is_map_def)

lemma is_map_Cons [simp]: "is_map ((k, v) # m) \<longleftrightarrow> k \<notin> fst ` set m \<and> is_map m"
  by (simp add: is_map_def)

lemma is_map_mput [simp]: "is_map m \<Longrightarrow> is_map (mput k v m)"
  by (simp add: is_map_def distinct_update)

lemma map_of_mput [simp]: "map_of (mput k v m) = (map_of m)(k \<mapsto> v)"
  by (rule update_conv')

lemma same_map_map_of: "same_map m m' \<Longrightarrow> map_of m = map_of m'"
  unfolding same_map_def is_map_def by (simp add: map_of_inject_set)

lemma same_map_refl [simp]: "same_map m m \<longleftrightarrow> is_map m"
  by (auto simp: same_map_def)

text \<open>Writing all entries of one map into another (\<^verbatim>\<open>for k, v := range m { n[k] = v }\<close>).\<close>

definition mput_all :: "'v gomap \<Rightarrow> 'v gomap \<Rightarrow> 'v gomap" where
  "mput_all m n = fold (\<lambda>(k, v). mput k v) m n"

lemma mput_all_simps [simp]:
  "mput_all [] n = n"
  "mput_all ((k, v) # m) n = mput_all m (mput k v n)"
  by (simp_all add: mput_all_def)

lemma is_map_mput_all [simp]: "is_map n \<Longrightarrow> is_map (mput_all m n)"
  by (induction m arbitrary: n) auto

lemma map_of_mput_all:
  "is_map m \<Longrightarrow> map_of (mput_all m n) = map_of n ++ map_of m"
proof (induction m arbitrary: n)
  case Nil
  then show ?case by simp
next
  case (Cons kv m)
  obtain k v where [simp]: "kv = (k, v)" by force
  from Cons.prems have k: "map_of m k = None" and m: "is_map m"
    by (auto simp: map_of_eq_None_iff)
  have "map_of (mput_all m (mput k v n)) = (map_of n)(k \<mapsto> v) ++ map_of m"
    using Cons.IH [OF m, of "mput k v n"] by (simp only: map_of_mput)
  also have "\<dots> = map_of n ++ (map_of m)(k \<mapsto> v)"
    using k by (auto simp: map_add_def fun_eq_iff split: option.splits)
  finally show ?case by (auto simp: fun_eq_iff map_add_def split: option.splits)
qed

lemma mput_all_order:
  "same_map m m' \<Longrightarrow> map_of (mput_all m n) = map_of (mput_all m' n)"
  using same_map_map_of [of m m'] by (simp add: same_map_def map_of_mput_all)

section \<open>Folds over maps whose steps commute on different keys\<close>

lemma fold_map_order:
  assumes "same_map m m'"
    and comm: "\<And>x y. fst x \<noteq> fst y \<Longrightarrow> f x \<circ> f y = f y \<circ> f x"
  shows "fold f m = fold f m'"
proof (rule fold_multiset_equiv)
  show "mset m = mset m'"
    using assms(1) unfolding same_map_def is_map_def
    by (metis distinct_map set_eq_iff_mset_eq_distinct)
  have "inj_on fst (set m)"
    using assms(1) unfolding same_map_def is_map_def by (simp add: distinct_map)
  then show "f x \<circ> f y = f y \<circ> f x" if "x \<in> set m" "y \<in> set m" for x y
    using that comm by (metis inj_onD)
qed

section \<open>Prefixes of traces\<close>

definition extends :: "'a list \<Rightarrow> 'a list \<Rightarrow> bool" where
  "extends xs ys \<longleftrightarrow> (\<exists>zs. ys = xs @ zs)"

lemma extends_refl [simp, intro]: "extends xs xs"
  by (simp add: extends_def)

lemma extends_trans [trans]: "extends xs ys \<Longrightarrow> extends ys zs \<Longrightarrow> extends xs zs"
  by (auto simp: extends_def)

lemma extends_append [simp, intro]: "extends xs (xs @ ys)"
  by (auto simp: extends_def)

end
