(* ===== verification/Go_Text.thy ===== *)
theory Go_Text
  imports Prelude
begin

text \<open>
  The parts of Go's standard library on strings that the source uses: decimal numbers
  (\<^verbatim>\<open>%d\<close>), UTF-8 (\<^verbatim>\<open>unicode/utf8\<close>), \<^verbatim>\<open>strconv.Unquote\<close> and \<^verbatim>\<open>strconv.Quote\<close>,
  \<^verbatim>\<open>encoding/base64\<close> and \<^verbatim>\<open>fmt.Errorf\<close> called with a format and no argument.
  A Go string is a sequence of bytes: the type \<open>string\<close>, one \<open>char\<close> per byte.
\<close>

abbreviation byte :: "char \<Rightarrow> nat" where
  "byte \<equiv> of_char"

abbreviation chr :: "nat \<Rightarrow> char" where
  "chr \<equiv> char_of"

abbreviation newline :: string where
  "newline \<equiv> [CHR 0x0A]"

abbreviation dquote :: char where
  "dquote \<equiv> CHR 0x22"

abbreviation squote :: char where
  "squote \<equiv> CHR 0x27"

abbreviation backslash :: char where
  "backslash \<equiv> CHR 0x5C"

section \<open>Decimal numbers and booleans\<close>

fun nat_dec :: "nat \<Rightarrow> string" where
  "nat_dec n =
     (if n < 10 then [chr (48 + n)] else nat_dec (n div 10) @ [chr (48 + n mod 10)])"

declare nat_dec.simps [simp del]

definition int_dec :: "int \<Rightarrow> string" where
  "int_dec i = (if i < 0 then CHR ''-'' # nat_dec (nat (- i)) else nat_dec (nat i))"

definition bool_text :: "bool \<Rightarrow> string" where
  "bool_text b = (if b then ''true'' else ''false'')"

lemma nat_dec_not_Nil [simp]: "nat_dec n \<noteq> []"
  by (subst nat_dec.simps) simp

lemma nat_dec_digits: "c \<in> set (nat_dec n) \<Longrightarrow> 48 \<le> byte c \<and> byte c < (58 :: nat)"
proof (induction n rule: nat_dec.induct)
  case (1 n)
  then show ?case
    by (cases "n < 10") (auto simp: nat_dec.simps [of n])
qed

lemma nat_dec_no_percent: "CHR ''%'' \<notin> set (nat_dec n)"
  using nat_dec_digits [of "CHR ''%''" n] by auto

section \<open>UTF-8\<close>

definition rune_error :: nat where
  "rune_error = 0xFFFD"

definition is_cont :: "nat \<Rightarrow> bool" where
  "is_cont b \<longleftrightarrow> 0x80 \<le> b \<and> b \<le> 0xBF"

text \<open>The range of the second byte after a given first byte.\<close>

definition second_range :: "nat \<Rightarrow> nat \<times> nat" where
  "second_range b =
     (if b = 0xE0 then (0xA0, 0xBF) else if b = 0xED then (0x80, 0x9F)
      else if b = 0xF0 then (0x90, 0xBF) else if b = 0xF4 then (0x80, 0x8F)
      else (0x80, 0xBF))"

text \<open>\<^verbatim>\<open>utf8.DecodeRuneInString\<close>: the rune and how many bytes it takes.\<close>

definition decode_rune :: "string \<Rightarrow> nat \<times> nat" where
  "decode_rune s =
     (case map byte s of
        [] \<Rightarrow> (rune_error, 0)
      | b0 # t \<Rightarrow>
          if b0 < 0x80 then (b0, 1)
          else if b0 < 0xC2 \<or> 0xF4 < b0 then (rune_error, 1)
          else (case t of
              [] \<Rightarrow> (rune_error, 1)
            | b1 # t1 \<Rightarrow>
                if b1 < fst (second_range b0) \<or> snd (second_range b0) < b1
                then (rune_error, 1)
                else if b0 < 0xE0 then ((b0 mod 32) * 64 + b1 mod 64, 2)
                else (case t1 of
                    [] \<Rightarrow> (rune_error, 1)
                  | b2 # t2 \<Rightarrow>
                      if \<not> is_cont b2 then (rune_error, 1)
                      else if b0 < 0xF0
                      then ((b0 mod 16) * 4096 + (b1 mod 64) * 64 + b2 mod 64, 3)
                      else (case t2 of
                          [] \<Rightarrow> (rune_error, 1)
                        | b3 # _ \<Rightarrow>
                            if \<not> is_cont b3 then (rune_error, 1)
                            else ((b0 mod 8) * 262144 + (b1 mod 64) * 4096
                                  + (b2 mod 64) * 64 + b3 mod 64, 4)))))"

text \<open>\<^verbatim>\<open>utf8.ValidRune\<close> and \<^verbatim>\<open>utf8.AppendRune\<close>.\<close>

definition valid_rune :: "nat \<Rightarrow> bool" where
  "valid_rune r \<longleftrightarrow> r < 0xD800 \<or> (0xDFFF < r \<and> r \<le> 0x10FFFF)"

definition encode_rune :: "nat \<Rightarrow> string" where
  "encode_rune r0 =
     (let r = (if valid_rune r0 then r0 else rune_error) in
      if r < 0x80 then [chr r]
      else if r < 0x800 then [chr (0xC0 + r div 64), chr (0x80 + r mod 64)]
      else if r < 0x10000
      then [chr (0xE0 + r div 4096), chr (0x80 + r div 64 mod 64), chr (0x80 + r mod 64)]
      else [chr (0xF0 + r div 262144), chr (0x80 + r div 4096 mod 64),
            chr (0x80 + r div 64 mod 64), chr (0x80 + r mod 64)])"

lemma decode_rune_size: "s \<noteq> [] \<Longrightarrow> 0 < snd (decode_rune s)"
  by (cases s) (auto simp: decode_rune_def split: list.splits)

lemma decode_rune_pos: "(r, n) = decode_rune s \<Longrightarrow> s \<noteq> [] \<Longrightarrow> 0 < n"
  by (metis decode_rune_size snd_conv)

lemma decode_rune_ascii: "byte c < (0x80 :: nat) \<Longrightarrow> decode_rune (c # s) = (byte c, 1)"
  by (simp add: decode_rune_def)

function valid_utf8 :: "string \<Rightarrow> bool" where
  "valid_utf8 s =
     (if s = [] then True
      else (case decode_rune s of (r, n) \<Rightarrow>
              if r = rune_error \<and> n = 1 then False else valid_utf8 (drop n s)))"
  by pat_completeness auto
termination
  by (relation "measure length") (auto dest: decode_rune_pos)

declare valid_utf8.simps [simp del]

lemma valid_utf8_ascii: "(\<forall>c \<in> set s. byte c < (0x80 :: nat)) \<Longrightarrow> valid_utf8 s"
proof (induction s)
  case Nil
  then show ?case by (simp add: valid_utf8.simps)
next
  case (Cons c s)
  then have "decode_rune (c # s) = (byte c, 1)" and "(byte c :: nat) \<noteq> rune_error"
    by (auto simp: decode_rune_ascii rune_error_def)
  with Cons show ?case by (subst valid_utf8.simps) simp
qed

section \<open>strconv.Unquote\<close>

definition unhex :: "char \<Rightarrow> nat option" where
  "unhex c =
     (let b = byte c in
      if 48 \<le> b \<and> b \<le> 57 then Some (b - 48)
      else if 97 \<le> b \<and> b \<le> 102 then Some (b - 87)
      else if 65 \<le> b \<and> b \<le> 70 then Some (b - 55) else None)"

fun hex_value :: "nat \<Rightarrow> string \<Rightarrow> nat option" where
  "hex_value v [] = Some v"
| "hex_value v (c # cs) =
     (case unhex c of None \<Rightarrow> None | Some x \<Rightarrow> hex_value (v * 16 + x) cs)"

definition is_octal :: "char \<Rightarrow> bool" where
  "is_octal c \<longleftrightarrow> 48 \<le> byte c \<and> byte c \<le> (55 :: nat)"

definition simple_escape :: "char \<Rightarrow> nat option" where
  "simple_escape c =
     map_of [(CHR ''a'', 7), (CHR ''b'', 8), (CHR ''f'', 12), (CHR ''n'', 10),
             (CHR ''r'', 13), (CHR ''t'', 9), (CHR ''v'', 11), (backslash, 92)] c"

text \<open>
  \<^verbatim>\<open>strconv.UnquoteChar\<close>: the value, whether it is a multibyte rune, and the rest.
\<close>

definition unquote_escape :: "char \<Rightarrow> string \<Rightarrow> char \<Rightarrow> (nat \<times> bool \<times> string) option" where
  "unquote_escape c s quote =
     (case simple_escape c of
        Some v \<Rightarrow> Some (v, False, s)
      | None \<Rightarrow>
        if c \<in> {CHR ''x'', CHR ''u'', CHR ''U''} then
          (let n = (if c = CHR ''x'' then 2 else if c = CHR ''u'' then 4 else 8) in
           if length s < n then None
           else (case hex_value 0 (take n s) of
               None \<Rightarrow> None
             | Some v \<Rightarrow>
                 if c = CHR ''x'' then Some (v, False, drop n s)
                 else if valid_rune v then Some (v, True, drop n s) else None))
        else if is_octal c then
          (if length s < 2 \<or> \<not> list_all is_octal (take 2 s) then None
           else (let v = ((byte c - 48) * 8 + (byte (s ! 0) - 48)) * 8 + (byte (s ! 1) - 48) in
                 if 255 < v then None else Some (v, False, drop 2 s)))
        else if c \<in> {squote, dquote} then
          (if c = quote then Some (byte c, False, s) else None)
        else None)"

fun unquote_char :: "string \<Rightarrow> char \<Rightarrow> (nat \<times> bool \<times> string) option" where
  "unquote_char [] quote = None"
| "unquote_char (c # s) quote =
     (if c = quote then None
      else if 0x80 \<le> (byte c :: nat)
      then (case decode_rune (c # s) of (r, n) \<Rightarrow> Some (r, True, drop n (c # s)))
      else if c \<noteq> backslash then Some (byte c, False, s)
      else (case s of [] \<Rightarrow> None | e # t \<Rightarrow> unquote_escape e t quote))"

lemma unquote_escape_shorter:
  "unquote_escape c s q = Some (v, m, rest) \<Longrightarrow> length rest \<le> length s"
  by (auto simp: unquote_escape_def Let_def split: option.splits if_splits)

lemma unquote_char_shorter:
  assumes "unquote_char s q = Some (v, m, rest)"
  shows "length rest < length s"
proof (cases s)
  case Nil
  with assms show ?thesis by simp
next
  case (Cons c t)
  have "0 < snd (decode_rune (c # t))" by (rule decode_rune_size) simp
  with assms Cons show ?thesis
    by (auto split: if_splits prod.splits list.splits dest: unquote_escape_shorter)
qed

text \<open>The loop over a double-quoted literal with escapes, from after the opening quote.\<close>

function unquote_loop :: "char \<Rightarrow> string \<Rightarrow> (string \<times> string) option" where
  "unquote_loop q s =
     (case s of
        [] \<Rightarrow> None
      | c # t \<Rightarrow>
          if c = q then Some ([], t)
          else (case unquote_char s q of
              None \<Rightarrow> None
            | Some (r, multi, rest) \<Rightarrow>
                if c = CHR 0x0A then None
                else map_option
                  (\<lambda>(out, rem). ((if r < 0x80 \<or> \<not> multi then [chr r] else encode_rune r) @ out, rem))
                  (unquote_loop q rest)))"
  by pat_completeness auto
termination
  by (relation "measure (length \<circ> snd)") (auto dest!: unquote_char_shorter simp del: unquote_char.simps)

declare unquote_loop.simps [simp del]

text \<open>A single-quoted literal holds one character.\<close>

definition unquote_one :: "char \<Rightarrow> string \<Rightarrow> (string \<times> string) option" where
  "unquote_one q s =
     (case s of
        [] \<Rightarrow> None
      | c # t \<Rightarrow>
          if c = q then Some ([], t)
          else (case unquote_char s q of
              None \<Rightarrow> None
            | Some (r, multi, rest) \<Rightarrow>
                if c = CHR 0x0A then None
                else (case rest of
                    [] \<Rightarrow> None
                  | d # t' \<Rightarrow>
                      if d = q
                      then Some ((if r < 0x80 \<or> \<not> multi then [chr r] else encode_rune r), t')
                      else None)))"

definition Unquote :: "string \<Rightarrow> string option" where
  "Unquote s =
     (case s of
        [] \<Rightarrow> None
      | q # t \<Rightarrow>
          let body = takeWhile (\<lambda>c. c \<noteq> q) t; rest = drop (Suc (length body)) t in
          if q \<notin> set t then None
          else if q = CHR 0x60 then
            (if rest = [] then Some (filter (\<lambda>c. c \<noteq> CHR 0x0D) body) else None)
          else if q = dquote \<or> q = squote then
            (if backslash \<notin> set body \<and> CHR 0x0A \<notin> set body \<and>
                (if q = dquote then valid_utf8 body
                 else (case decode_rune body of (r, n) \<Rightarrow>
                         n = length body \<and> (r \<noteq> rune_error \<or> n \<noteq> 1)))
             then (if rest = [] then Some body else None)
             else (case (if q = dquote then unquote_loop q t else unquote_one q t) of
                 None \<Rightarrow> None
               | Some (out, rem) \<Rightarrow> if rem = [] then Some out else None))
          else None)"

text \<open>A quoted plain ASCII text without escapes is its content.\<close>

lemma takeWhile_until: "q \<notin> set s \<Longrightarrow> takeWhile (\<lambda>c. c \<noteq> q) (s @ q # t) = s"
  by (induction s) auto

lemma Unquote_plain:
  assumes "dquote \<notin> set s" "backslash \<notin> set s" "CHR 0x0A \<notin> set s" "valid_utf8 s"
  shows "Unquote (dquote # s @ [dquote]) = Some s"
  using assms by (simp add: Unquote_def takeWhile_until)

lemma Unquote_json_object: "Unquote (CHR ''{'' # s) = None"
  by (simp add: Unquote_def Let_def)

end
