(* ===== verification/Go_Fmt.thy ===== *)
theory Go_Fmt
  imports Go_Text
begin

text \<open>
  More of Go's standard library on text: \<^verbatim>\<open>strconv.Quote\<close> (exact on ASCII; a valid
  non-ASCII rune is copied, as for printable runes), \<^verbatim>\<open>encoding/base64\<close>, and what
  \<^verbatim>\<open>fmt.Errorf(format)\<close> does with a format and no argument: every verb of the format is
  replaced by a complaint.
\<close>

section \<open>strconv.Quote\<close>

definition hex_digit :: "nat \<Rightarrow> char" where
  "hex_digit n = (if n < 10 then chr (48 + n) else chr (87 + n))"

definition quote_char :: "char \<Rightarrow> string" where
  "quote_char c =
     (if c = dquote then [backslash, dquote]
      else if c = backslash then [backslash, backslash]
      else if 32 \<le> (byte c :: nat) \<and> byte c \<noteq> (127 :: nat) then [c]
      else if byte c = (7 :: nat) then backslash # ''a''
      else if byte c = (8 :: nat) then backslash # ''b''
      else if byte c = (12 :: nat) then backslash # ''f''
      else if byte c = (10 :: nat) then backslash # ''n''
      else if byte c = (13 :: nat) then backslash # ''r''
      else if byte c = (9 :: nat) then backslash # ''t''
      else if byte c = (11 :: nat) then backslash # ''v''
      else backslash # CHR ''x'' # [hex_digit (byte c div 16), hex_digit (byte c mod 16)])"

definition Quote :: "string \<Rightarrow> string" where
  "Quote s = dquote # concat (map quote_char s) @ [dquote]"

section \<open>base64\<close>

definition b64_char :: "nat \<Rightarrow> char" where
  "b64_char n =
     (if n < 26 then chr (65 + n) else if n < 52 then chr (71 + n)
      else if n < 62 then chr (n - 4) else if n = 62 then CHR ''+'' else CHR ''/'')"

definition b64_value :: "char \<Rightarrow> nat option" where
  "b64_value c =
     (let b = byte c in
      if 65 \<le> b \<and> b \<le> 90 then Some (b - 65) else if 97 \<le> b \<and> b \<le> 122 then Some (b - 71)
      else if 48 \<le> b \<and> b \<le> 57 then Some (b + 4)
      else if c = CHR ''+'' then Some 62 else if c = CHR ''/'' then Some 63 else None)"

text \<open>\<^verbatim>\<open>base64.StdEncoding.EncodeToString\<close>.\<close>

fun base64_encode :: "string \<Rightarrow> string" where
  "base64_encode [] = []"
| "base64_encode [a] =
     [b64_char (byte a div 4), b64_char (byte a mod 4 * 16), CHR ''='', CHR ''='']"
| "base64_encode [a, b] =
     [b64_char (byte a div 4), b64_char (byte a mod 4 * 16 + byte b div 16),
      b64_char (byte b mod 16 * 4), CHR ''='']"
| "base64_encode (a # b # c # s) =
     b64_char (byte a div 4) # b64_char (byte a mod 4 * 16 + byte b div 16)
     # b64_char (byte b mod 16 * 4 + byte c div 64) # b64_char (byte c mod 64)
     # base64_encode s"

text \<open>The reader's side of the format (RFC 4648, padded), to state what a header carries.\<close>

fun base64_decode :: "string \<Rightarrow> string option" where
  "base64_decode [] = Some []"
| "base64_decode (p # q # r # t # s) =
     (case (b64_value p, b64_value q) of
        (Some x, Some y) \<Rightarrow>
          if r = CHR ''='' \<and> t = CHR ''='' \<and> s = [] then Some [chr (x * 4 + y div 16)]
          else (case b64_value r of
              None \<Rightarrow> None
            | Some z \<Rightarrow>
                if t = CHR ''='' \<and> s = []
                then Some [chr (x * 4 + y div 16), chr (y mod 16 * 16 + z div 4)]
                else (case (b64_value t, base64_decode s) of
                    (Some w, Some u) \<Rightarrow>
                      Some (chr (x * 4 + y div 16) # chr (y mod 16 * 16 + z div 4)
                            # chr (z mod 4 * 64 + w) # u)
                  | _ \<Rightarrow> None))
      | _ \<Rightarrow> None)"
| "base64_decode _ = None"

lemma b64_value_char [simp]: "n < 64 \<Longrightarrow> b64_value (b64_char n) = Some n"
  by (auto simp: b64_value_def b64_char_def Let_def)

lemma b64_char_not_pad: "n < 64 \<Longrightarrow> b64_char n \<noteq> CHR ''=''"
proof
  assume "n < 64" "b64_char n = CHR ''=''"
  then have "b64_value (CHR ''='') = Some n" using b64_value_char [of n] by simp
  then show False by (simp add: b64_value_def)
qed

lemma byte_div:
  "byte c div 4 < (64 :: nat)" "byte c div 16 < (16 :: nat)" "byte c div 64 < (4 :: nat)"
  by (simp_all add: less_mult_imp_div_less)

lemma sextets [simp]:
  "byte c div 4 < (64 :: nat)"
  "byte a mod 4 * 16 + byte b div 16 < (64 :: nat)"
  "byte b mod 16 * 4 + byte c div 64 < (64 :: nat)"
  using byte_div [of c] byte_div [of b] mod_less_divisor [of 4 "byte a :: nat"]
    mod_less_divisor [of 16 "byte b :: nat"] by linarith+

lemma octets [simp]:
  "byte b div 16 mod 16 = (byte b div 16 :: nat)"
  "byte c div 64 mod 4 = (byte c div 64 :: nat)"
  "byte b div 16 div 16 = (0 :: nat)"
  "byte c div 64 div 4 = (0 :: nat)"
  using byte_div [of b] byte_div [of c] by simp_all

lemma sextet_ends [simp]: "byte a mod 4 * 16 < (64 :: nat)" "byte b mod 16 * 4 < (64 :: nat)"
  using mod_less_divisor [of 4 "byte a :: nat"] mod_less_divisor [of 16 "byte b :: nat"] by linarith+

lemma base64_decode_encode: "base64_decode (base64_encode s) = Some s"
  by (induction s rule: base64_encode.induct) (simp_all add: b64_char_not_pad)

section \<open>fmt.Errorf without arguments\<close>

definition is_digit :: "char \<Rightarrow> bool" where
  "is_digit c \<longleftrightarrow> 48 \<le> (byte c :: nat) \<and> byte c \<le> (57 :: nat)"

text \<open>\<^verbatim>\<open>parsenum\<close>: whether a number was read, and the rest; a number that grows past a
  million swallows the rest.\<close>

fun parsenum :: "nat \<Rightarrow> bool \<Rightarrow> string \<Rightarrow> bool \<times> string" where
  "parsenum num isnum [] = (isnum, [])"
| "parsenum num isnum (c # cs) =
     (if is_digit c
      then (if 1000000 < num then (False, []) else parsenum (num * 10 + (byte c - 48)) True cs)
      else (isnum, c # cs))"

text \<open>
  \<^verbatim>\<open>argNumber\<close> with no argument to index: whether an index was there at all (any index
  is then a bad one), whether it was well formed, and the rest.
\<close>

definition arg_number :: "string \<Rightarrow> bool \<times> bool \<times> string" where
  "arg_number s =
     (case s of
        [] \<Rightarrow> (False, False, s)
      | c # cs \<Rightarrow>
          if c \<noteq> CHR ''['' then (False, False, s)
          else if length s < 3 \<or> CHR '']'' \<notin> set cs then (True, False, cs)
          else let inner = takeWhile (\<lambda>d. d \<noteq> CHR '']'') cs in
               (True, parsenum 0 False inner = (True, []), drop (Suc (length inner)) cs))"

definition fmt_flags :: "char set" where
  "fmt_flags = {CHR ''#'', CHR ''0'', CHR ''+'', CHR ''-'', CHR '' ''}"

text \<open>
  The stages of one verb of the format, the text after a percent sign.  A stage takes and
  returns what was printed so far, whether the argument index is bad, whether an index was
  just read, and the rest of the format.
\<close>

type_synonym fmt_stage = "string \<times> bool \<times> bool \<times> string"

fun fmt_width :: "fmt_stage \<Rightarrow> fmt_stage" where
  "fmt_width (out, bad, idx, s) =
     (if s \<noteq> [] \<and> hd s = CHR ''*'' then (out @ ''%!(BADWIDTH)'', bad, False, tl s)
      else (case parsenum 0 False s of (p, r) \<Rightarrow> (out, bad \<or> (idx \<and> p), idx, r)))"

fun fmt_index :: "fmt_stage \<Rightarrow> fmt_stage" where
  "fmt_index (out, bad, idx, s) =
     (case arg_number s of (b, ix, r) \<Rightarrow> (out, bad \<or> b, ix, r))"

fun fmt_prec_value :: "fmt_stage \<Rightarrow> fmt_stage" where
  "fmt_prec_value (out, bad, idx, s) =
     (if s \<noteq> [] \<and> hd s = CHR ''*'' then (out @ ''%!(BADPREC)'', bad, False, tl s)
      else (out, bad, idx, snd (parsenum 0 False s)))"

fun fmt_prec :: "fmt_stage \<Rightarrow> fmt_stage" where
  "fmt_prec (out, bad, idx, s) =
     (if s \<noteq> [] \<and> hd s = CHR ''.'' then fmt_prec_value (fmt_index (out, bad \<or> idx, idx, tl s))
      else (out, bad, idx, s))"

fun fmt_index2 :: "fmt_stage \<Rightarrow> fmt_stage" where
  "fmt_index2 (out, bad, idx, s) =
     (if idx then (out, bad, idx, s) else fmt_index (out, bad, idx, s))"

fun fmt_complain :: "fmt_stage \<Rightarrow> string \<times> string" where
  "fmt_complain (out, bad, idx, []) = (out @ ''%!(NOVERB)'', [])"
| "fmt_complain (out, bad, idx, v # t) =
     (if v = CHR ''%'' then (out @ ''%'', t)
      else let why = (if bad then ''(BADINDEX)'' else ''(MISSING)'') in
           if byte v < (0x80 :: nat) then (out @ ''%!'' @ [v] @ why, t)
           else (case decode_rune (v # t) of
                   (r, n) \<Rightarrow> (out @ ''%!'' @ encode_rune r @ why, drop n (v # t))))"

definition fmt_verb :: "string \<Rightarrow> string \<times> string" where
  "fmt_verb cs =
     fmt_complain (fmt_index2 (fmt_prec (fmt_width
       (fmt_index ([], False, False, dropWhile (\<lambda>c. c \<in> fmt_flags) cs)))))"

definition stage_rest :: "fmt_stage \<Rightarrow> string" where
  "stage_rest st = snd (snd (snd st))"

lemma parsenum_shorter: "length (snd (parsenum n b s)) \<le> length s"
  by (induction n b s rule: parsenum.induct) auto

lemma arg_number_shorter: "arg_number s = (a, b, r) \<Longrightarrow> length r \<le> length s"
  by (auto simp: arg_number_def Let_def split: list.splits if_splits)

lemma fmt_width_shorter: "length (stage_rest (fmt_width st)) \<le> length (stage_rest st)"
  using parsenum_shorter [of 0 False "stage_rest st"]
  by (cases st) (auto simp: stage_rest_def split: prod.splits)

lemma fmt_index_shorter: "length (stage_rest (fmt_index st)) \<le> length (stage_rest st)"
  by (cases st) (auto simp: stage_rest_def split: prod.splits dest: arg_number_shorter)

lemma fmt_prec_value_shorter: "length (stage_rest (fmt_prec_value st)) \<le> length (stage_rest st)"
  using parsenum_shorter [of 0 False "stage_rest st"]
  by (cases st) (auto simp: stage_rest_def)

lemma fmt_prec_shorter: "length (stage_rest (fmt_prec st)) \<le> length (stage_rest st)"
proof (cases st)
  case (fields out bad idx s)
  let ?i = "fmt_index (out, bad \<or> idx, idx, tl s)"
  have "length (stage_rest (fmt_prec_value ?i)) \<le> length (stage_rest (out, bad \<or> idx, idx, tl s))"
    using fmt_prec_value_shorter fmt_index_shorter by (rule order_trans)
  then show ?thesis using fields by (auto simp: stage_rest_def simp del: fmt_prec_value.simps fmt_index.simps)
qed

lemma fmt_index2_shorter: "length (stage_rest (fmt_index2 st)) \<le> length (stage_rest st)"
  by (cases st) (metis fmt_index2.simps fmt_index_shorter order_refl)

lemma fmt_complain_shorter: "length (snd (fmt_complain st)) \<le> length (stage_rest st)"
proof (cases st)
  case (fields out bad idx s)
  then show ?thesis
    using decode_rune_size [of s] by (cases s) (auto simp: stage_rest_def Let_def split: prod.splits)
qed

lemma fmt_verb_shorter: "length (snd (fmt_verb cs)) \<le> length cs"
proof -
  have "length (snd (fmt_verb cs))
      \<le> length (stage_rest ([], False, False, dropWhile (\<lambda>c. c \<in> fmt_flags) cs))"
    unfolding fmt_verb_def
    by (meson fmt_complain_shorter fmt_index2_shorter fmt_prec_shorter fmt_width_shorter
        fmt_index_shorter order_trans)
  also have "\<dots> \<le> length cs" by (simp add: stage_rest_def length_dropWhile_le)
  finally show ?thesis .
qed

function fmt_noargs :: "string \<Rightarrow> string" where
  "fmt_noargs s =
     (case s of
        [] \<Rightarrow> []
      | c # cs \<Rightarrow>
          if c = CHR ''%'' then fst (fmt_verb cs) @ fmt_noargs (snd (fmt_verb cs))
          else c # fmt_noargs cs)"
  by pat_completeness auto
termination
  by (relation "measure length") (auto simp: fmt_verb_shorter le_imp_less_Suc)

declare fmt_noargs.simps [simp del]

lemma fmt_noargs_simps [simp]:
  "fmt_noargs [] = []"
  "c \<noteq> CHR ''%'' \<Longrightarrow> fmt_noargs (c # cs) = c # fmt_noargs cs"
  "fmt_noargs (CHR ''%'' # cs) = fst (fmt_verb cs) @ fmt_noargs (snd (fmt_verb cs))"
  by (subst fmt_noargs.simps, simp)+

lemma fmt_noargs_plain: "CHR ''%'' \<notin> set s \<Longrightarrow> fmt_noargs s = s"
  by (induction s) auto

end
