(* ===== verification/Go_Value.thy ===== *)
theory Go_Value
  imports Go_Fmt "HOL-Library.List_Lexorder" "HOL-Library.Char_ord"
begin

text \<open>
  Values of Go's type \<^verbatim>\<open>any\<close> as the YAML and JSON decoders make them (strings, numbers,
  booleans, nil, lists, maps with string keys), how \<^verbatim>\<open>fmt.Sprintf("%v", x)\<close> prints them,
  how \<^verbatim>\<open>json.Marshal\<close> encodes them, and the form encoding \<^verbatim>\<open>url.Values.Encode\<close>.
  A finite float is kept as its shortest decimal digits and decimal point position
  (\<open>0.d\<^sub>1d\<^sub>2\<dots> \<times> 10^dp\<close>, zero has no digits), the form in which \<^verbatim>\<open>strconv\<close> prints it.
\<close>

datatype float64 = Finite bool "nat list" int | Inf bool | NaN

datatype any =
    ANil
  | ABool bool
  | AInt int
  | AFloat float64
  | AStr string
  | AList "any list"
  | AMap "(string \<times> any) list"

section \<open>Floats\<close>

definition digit_char :: "nat \<Rightarrow> char" where
  "digit_char d = chr (48 + d)"

definition frac_digits :: "nat list \<Rightarrow> int \<Rightarrow> string" where
  "frac_digits ds dp =
     (if dp \<le> 0 then replicate (nat (- dp)) (CHR ''0'') @ map digit_char ds
      else map digit_char (drop (nat dp) ds))"

definition fixed_text :: "bool \<Rightarrow> nat list \<Rightarrow> int \<Rightarrow> string" where
  "fixed_text neg ds dp =
     (if neg then ''-'' else []) @
     (if 0 < dp
      then map digit_char (take (nat dp) ds) @ replicate (nat dp - length ds) (CHR ''0'')
      else ''0'') @
     (if ds \<noteq> [] \<and> dp < int (length ds) then CHR ''.'' # frac_digits ds dp else [])"

definition exp_text :: "nat \<Rightarrow> bool \<Rightarrow> nat list \<Rightarrow> int \<Rightarrow> string" where
  "exp_text min_exp neg ds dp =
     (let e = (if ds = [] then 0 else dp - 1); a = nat_dec (nat \<bar>e\<bar>) in
      (if neg then ''-'' else []) @
      (case ds of [] \<Rightarrow> ''0'' | d # t \<Rightarrow>
         digit_char d # (if t = [] then [] else CHR ''.'' # map digit_char t)) @
      CHR ''e'' # (if e < 0 then CHR ''-'' else CHR ''+'')
      # replicate (min_exp - length a) (CHR ''0'') @ a)"

text \<open>\<^verbatim>\<open>%v\<close> is \<^verbatim>\<open>%g\<close> with the shortest precision, which prints an exponent below -4 or
  of 6 and more in scientific form.\<close>

fun sprint_float :: "float64 \<Rightarrow> string" where
  "sprint_float NaN = ''NaN''"
| "sprint_float (Inf neg) = (if neg then ''-Inf'' else ''+Inf'')"
| "sprint_float (Finite neg ds dp) =
     (let e = (if ds = [] then -1 else dp - 1) in
      if e < -4 \<or> 6 \<le> e then exp_text 2 neg ds dp else fixed_text neg ds dp)"

text \<open>\<^verbatim>\<open>encoding/json\<close> switches at 1e-6 and 1e21 and writes \<^verbatim>\<open>e-7\<close> for \<^verbatim>\<open>e-07\<close>.\<close>

fun json_float :: "float64 \<Rightarrow> string option" where
  "json_float NaN = None"
| "json_float (Inf neg) = None"
| "json_float (Finite neg ds dp) =
     Some (if ds \<noteq> [] \<and> (dp < -5 \<or> 22 \<le> dp)
           then exp_text (if dp < 1 then 1 else 2) neg ds dp else fixed_text neg ds dp)"

section \<open>fmt.Sprintf("%v", x)\<close>

definition join :: "string \<Rightarrow> string list \<Rightarrow> string" where
  "join sep xs = concat (case xs of [] \<Rightarrow> [] | y # ys \<Rightarrow> y # map (\<lambda>z. sep @ z) ys)"

text \<open>A map prints with its keys in byte order.\<close>

fun sprint :: "any \<Rightarrow> string" where
  "sprint ANil = ''<nil>''"
| "sprint (ABool b) = bool_text b"
| "sprint (AInt i) = int_dec i"
| "sprint (AFloat x) = sprint_float x"
| "sprint (AStr s) = s"
| "sprint (AList xs) = ''['' @ join '' '' (map sprint xs) @ '']''"
| "sprint (AMap m) =
     ''map['' @ join '' '' (map (\<lambda>(k, t). k @ '':'' @ t)
       (sort_key fst (map (\<lambda>(k, v). (k, sprint v)) m))) @ '']''"

text \<open>A byte slice prints as its numbers.\<close>

definition sprint_bytes :: "string \<Rightarrow> string" where
  "sprint_bytes s = ''['' @ join '' '' (map (\<lambda>c. nat_dec (byte c)) s) @ '']''"

section \<open>json.Marshal\<close>

definition json_ascii :: "char \<Rightarrow> string" where
  "json_ascii c =
     (if c = dquote \<or> c = backslash then [backslash, c]
      else if c = CHR ''<'' \<or> c = CHR ''>'' \<or> c = CHR ''&'' \<or> byte c < (32 :: nat) then
        (if c = CHR 0x08 then backslash # ''b'' else if c = CHR 0x0C then backslash # ''f''
         else if c = CHR 0x0A then backslash # ''n'' else if c = CHR 0x0D then backslash # ''r''
         else if c = CHR 0x09 then backslash # ''t''
         else backslash # ''u00'' @ [hex_digit (byte c div 16), hex_digit (byte c mod 16)])
      else [c])"

function json_chars :: "string \<Rightarrow> string" where
  "json_chars s =
     (case s of
        [] \<Rightarrow> []
      | c # cs \<Rightarrow>
          if byte c < (0x80 :: nat) then json_ascii c @ json_chars cs
          else (case decode_rune s of (r, n) \<Rightarrow>
              (if r = rune_error \<and> n = 1 then backslash # ''ufffd''
               else if r = 0x2028 then backslash # ''u2028''
               else if r = 0x2029 then backslash # ''u2029''
               else take n s) @ json_chars (drop n s)))"
  by pat_completeness auto
termination
  by (relation "measure length") (auto dest: decode_rune_pos)

declare json_chars.simps [simp del]

definition json_string :: "string \<Rightarrow> string" where
  "json_string s = dquote # json_chars s @ [dquote]"

fun all_some :: "'a option list \<Rightarrow> 'a list option" where
  "all_some [] = Some []"
| "all_some (None # xs) = None"
| "all_some (Some x # xs) = map_option (Cons x) (all_some xs)"

text \<open>The encoding, None where \<^verbatim>\<open>Marshal\<close> returns an error (a NaN or an infinity).\<close>

fun json_marshal :: "any \<Rightarrow> string option" where
  "json_marshal ANil = Some ''null''"
| "json_marshal (ABool b) = Some (bool_text b)"
| "json_marshal (AInt i) = Some (int_dec i)"
| "json_marshal (AFloat x) = json_float x"
| "json_marshal (AStr s) = Some (json_string s)"
| "json_marshal (AList xs) =
     map_option (\<lambda>ts. ''['' @ join '','' ts @ '']'') (all_some (map json_marshal xs))"
| "json_marshal (AMap m) =
     map_option (\<lambda>ts. ''{'' @ join '','' (map snd (sort_key fst (zip (map fst m) ts))) @ ''}'')
       (all_some (map (\<lambda>(k, v). map_option (\<lambda>t. json_string k @ '':'' @ t) (json_marshal v)) m))"

section \<open>url.Values.Encode\<close>

definition is_alnum :: "char \<Rightarrow> bool" where
  "is_alnum c \<longleftrightarrow>
     (let b = byte c :: nat in
      (97 \<le> b \<and> b \<le> 122) \<or> (65 \<le> b \<and> b \<le> 90) \<or> (48 \<le> b \<and> b \<le> 57))"

definition upper_hex :: "nat \<Rightarrow> char" where
  "upper_hex n = (if n < 10 then chr (48 + n) else chr (55 + n))"

definition query_escape :: "string \<Rightarrow> string" where
  "query_escape s = concat (map (\<lambda>c.
     if is_alnum c \<or> c \<in> set ''-_.~'' then [c]
     else if c = CHR '' '' then ''+''
     else [CHR ''%'', upper_hex (byte c div 16), upper_hex (byte c mod 16)]) s)"

definition form_encode :: "string gomap \<Rightarrow> string" where
  "form_encode m =
     join ''&'' (map (\<lambda>(k, v). query_escape k @ ''='' @ query_escape v) (sort_key fst m))"

section \<open>Facts\<close>

lemma set_join: "set (join sep xs) \<subseteq> set sep \<union> \<Union> (set ` set xs)"
  by (cases xs) (auto simp: join_def)

lemma join_Nil [simp]: "join sep [] = []"
  by (simp add: join_def)

lemma join_single [simp]: "join sep [x] = x"
  by (simp add: join_def)

lemma join_Cons: "join sep (x # y # ys) = x @ sep @ join sep (y # ys)"
  by (simp add: join_def)

lemma sort_key_order:
  fixes f :: "'a \<Rightarrow> 'b :: linorder"
  assumes d: "distinct (map f xs)" "distinct (map f ys)" and s: "set xs = set ys"
  shows "sort_key f xs = sort_key f ys"
proof -
  from d have "distinct xs" "distinct ys" "inj_on f (set xs)" by (auto simp: distinct_map)
  with s have "mset xs = mset (sort_key f ys)"
    by (metis mset_sort set_eq_iff_mset_eq_distinct)
  then show ?thesis
    using \<open>inj_on f (set xs)\<close> by (rule sort_key_inj_key_eq) simp
qed

text \<open>The form body does not depend on the order in which the map is visited.\<close>

lemma form_encode_order: "same_map m m' \<Longrightarrow> form_encode m = form_encode m'"
  unfolding form_encode_def same_map_def is_map_def by (metis sort_key_order)

end
