(* ===== verification/Go_Http.thy ===== *)
theory Go_Http
  imports Go_Value
begin

text \<open>
  The parts of \<^verbatim>\<open>net/http\<close> and \<^verbatim>\<open>net/url\<close> the source uses: header maps with
  canonical keys, \<^verbatim>\<open>url.Parse\<close>, \<^verbatim>\<open>http.NewRequestWithContext\<close>,
  \<^verbatim>\<open>Request.SetBasicAuth\<close>, and the response a client hands back.
\<close>

section \<open>Headers\<close>

type_synonym header = "string list gomap"

definition is_token_char :: "char \<Rightarrow> bool" where
  "is_token_char c \<longleftrightarrow> is_alnum c \<or> c \<in> set ''!#$%&*+-.^_|~'' \<or> c = squote \<or> c = CHR 0x60"

definition to_upper :: "char \<Rightarrow> char" where
  "to_upper c = (if 97 \<le> byte c \<and> byte c \<le> (122 :: nat) then chr (byte c - 32 :: nat) else c)"

definition to_lower :: "char \<Rightarrow> char" where
  "to_lower c = (if 65 \<le> byte c \<and> byte c \<le> (90 :: nat) then chr (byte c + 32 :: nat) else c)"

fun canon :: "bool \<Rightarrow> string \<Rightarrow> string" where
  "canon up [] = []"
| "canon up (c # cs) = (if up then to_upper c else to_lower c) # canon (c = CHR ''-'') cs"

text \<open>\<^verbatim>\<open>textproto.CanonicalMIMEHeaderKey\<close>.\<close>

definition canonical_key :: "string \<Rightarrow> string" where
  "canonical_key k = (if list_all is_token_char k then canon True k else k)"

definition hvalues :: "string \<Rightarrow> header \<Rightarrow> string list" where
  "hvalues k h = (case map_of h (canonical_key k) of None \<Rightarrow> [] | Some vs \<Rightarrow> vs)"

definition hadd :: "string \<Rightarrow> string \<Rightarrow> header \<Rightarrow> header" where
  "hadd k v h = mput (canonical_key k) (hvalues k h @ [v]) h"

definition hset :: "string \<Rightarrow> string \<Rightarrow> header \<Rightarrow> header" where
  "hset k v h = mput (canonical_key k) [v] h"

text \<open>\<^verbatim>\<open>Header.Get\<close>: the first value, the empty string if there is none.\<close>

definition hget :: "string \<Rightarrow> header \<Rightarrow> string" where
  "hget k h = (case hvalues k h of [] \<Rightarrow> [] | v # _ \<Rightarrow> v)"

lemma is_map_hadd [simp]: "is_map h \<Longrightarrow> is_map (hadd k v h)"
  by (simp add: hadd_def)

lemma is_map_hset [simp]: "is_map h \<Longrightarrow> is_map (hset k v h)"
  by (simp add: hset_def)

lemma hvalues_hset: "hvalues k (hset k' v h) =
    (if canonical_key k = canonical_key k' then [v] else hvalues k h)"
  by (simp add: hvalues_def hset_def)

lemma hvalues_hadd: "hvalues k (hadd k' v h) =
    (if canonical_key k = canonical_key k' then hvalues k h @ [v] else hvalues k h)"
  by (simp add: hvalues_def hadd_def)

lemma hget_hset [simp]: "hget k (hset k v h) = v"
  by (simp add: hget_def hvalues_hset)

text \<open>Adding to a key that has a value does not change what \<^verbatim>\<open>Get\<close> returns.\<close>

lemma hget_hadd_present: "hvalues k h \<noteq> [] \<Longrightarrow> hget k (hadd k' v h) = hget k h"
  by (auto simp: hget_def hvalues_hadd split: list.splits)

section \<open>url.Parse\<close>

record url =
  uScheme :: string
  uOpaque :: string
  uUser :: "(string \<times> string option) option"
  uHost :: string
  uPath :: string
  uRawPath :: string
  uForceQuery :: bool
  uRawQuery :: string
  uFragment :: string

definition empty_url :: url where
  "empty_url = \<lparr>uScheme = [], uOpaque = [], uUser = None, uHost = [], uPath = [],
     uRawPath = [], uForceQuery = False, uRawQuery = [], uFragment = []\<rparr>"

text \<open>\<^verbatim>\<open>strings.Cut\<close> on one character, and the cut at its last occurrence.\<close>

definition cut :: "char \<Rightarrow> string \<Rightarrow> string \<times> string" where
  "cut c s = (takeWhile (\<lambda>d. d \<noteq> c) s, drop 1 (dropWhile (\<lambda>d. d \<noteq> c) s))"

definition cut_last :: "char \<Rightarrow> string \<Rightarrow> string \<times> string" where
  "cut_last c s = (case cut c (rev s) of (b, a) \<Rightarrow> (rev a, rev b))"

datatype url_part = InPath | InHost | InZone | InUser | InFragment

definition should_escape :: "url_part \<Rightarrow> char \<Rightarrow> bool" where
  "should_escape mode c =
     (if is_alnum c then False
      else if mode \<in> {InHost, InZone} \<and> (c \<in> set ''!$&()*+,;=:[]<>'' \<or> c = squote \<or> c = dquote)
      then False
      else if c \<in> set ''-_.~'' then False
      else if c \<in> set ''$&+,/:;=?@'' \<and> mode = InPath then c = CHR ''?''
      else if c \<in> set ''$&+,/:;=?@'' \<and> mode = InUser then c \<in> set ''@/?:''
      else if c \<in> set ''$&+,/:;=?@'' \<and> mode = InFragment then False
      else if mode = InFragment \<and> c \<in> set ''!()*'' then False
      else True)"

definition escape_error :: "string \<Rightarrow> string" where
  "escape_error s = ''invalid URL escape '' @ Quote (take 3 s)"

fun unescape :: "url_part \<Rightarrow> string \<Rightarrow> string + string" where
  "unescape mode [] = Inr []"
| "unescape mode (c # s) =
     (if c = CHR ''%'' then
        (case s of
           a # b # t \<Rightarrow>
             (case (unhex a, unhex b) of
                (Some x, Some y) \<Rightarrow>
                  if mode = InHost \<and> x < 8 \<and> (a, b) \<noteq> (CHR ''2'', CHR ''5'')
                  then Inl (escape_error [c, a, b])
                  else if mode = InZone \<and> (a, b) \<noteq> (CHR ''2'', CHR ''5'')
                       \<and> chr (x * 16 + y) \<noteq> CHR '' '' \<and> should_escape InHost (chr (x * 16 + y))
                  then Inl (escape_error [c, a, b])
                  else (case unescape mode t of
                      Inl e \<Rightarrow> Inl e | Inr u \<Rightarrow> Inr (chr (x * 16 + y) # u))
              | _ \<Rightarrow> Inl (escape_error (c # s)))
         | _ \<Rightarrow> Inl (escape_error (c # s)))
      else if mode \<in> {InHost, InZone} \<and> byte c < (0x80 :: nat) \<and> should_escape mode c
      then Inl (''invalid character '' @ Quote [c] @ '' in host name'')
      else (case unescape mode s of Inl e \<Rightarrow> Inl e | Inr u \<Rightarrow> Inr (c # u)))"

definition url_escape :: "url_part \<Rightarrow> string \<Rightarrow> string" where
  "url_escape mode s = concat (map (\<lambda>c.
     if should_escape mode c
     then [CHR ''%'', upper_hex (byte c div 16), upper_hex (byte c mod 16)] else [c]) s)"

text \<open>\<^verbatim>\<open>getScheme\<close>: the scheme and the rest.\<close>

definition is_letter :: "char \<Rightarrow> bool" where
  "is_letter c \<longleftrightarrow> is_alnum c \<and> \<not> is_digit c"

definition get_scheme :: "string \<Rightarrow> string + string \<times> string" where
  "get_scheme raw =
     (let s = takeWhile (\<lambda>c. is_alnum c \<or> c \<in> set ''+-.'') raw;
          rest = drop (length s) raw in
      if s \<noteq> [] \<and> \<not> is_letter (hd s) then Inr ([], raw)
      else if rest = [] \<or> hd rest \<noteq> CHR '':'' then Inr ([], raw)
      else if s = [] then Inl ''missing protocol scheme''
      else Inr (s, tl rest))"

definition valid_optional_port :: "string \<Rightarrow> bool" where
  "valid_optional_port p \<longleftrightarrow> p = [] \<or> (hd p = CHR '':'' \<and> list_all is_digit (tl p))"

definition bad_port :: "string \<Rightarrow> string" where
  "bad_port p = ''invalid port '' @ Quote p @ '' after host''"

text \<open>What stands before the first \<^verbatim>\<open>%25\<close>, where there is one.\<close>

fun before_zone :: "string \<Rightarrow> string option" where
  "before_zone [] = None"
| "before_zone (c # s) =
     (if take 3 (c # s) = ''%25'' then Some [] else map_option (Cons c) (before_zone s))"

definition then_url :: "string + 'a \<Rightarrow> ('a \<Rightarrow> string + 'b) \<Rightarrow> string + 'b" where
  "then_url m k = (case m of Inl e \<Rightarrow> Inl e | Inr x \<Rightarrow> k x)"

definition parse_host :: "string \<Rightarrow> string + string" where
  "parse_host host =
     (if host \<noteq> [] \<and> hd host = CHR ''['' then
        (if CHR '']'' \<notin> set host
         then Inl (''missing '' @ [squote, CHR '']'', squote] @ '' in host'')
         else
           let (inside, port) = cut_last (CHR '']'') host in
           if \<not> valid_optional_port port then Inl (bad_port port)
           else (case before_zone inside of
               None \<Rightarrow> unescape InHost host
             | Some h1 \<Rightarrow>
                 then_url (unescape InHost h1) (\<lambda>host1.
                 then_url (unescape InZone (drop (length h1) inside)) (\<lambda>host2.
                 then_url (unescape InHost (CHR '']'' # port)) (\<lambda>host3.
                 Inr (host1 @ host2 @ host3))))))
      else if CHR '':'' \<in> set host \<and> \<not> valid_optional_port (CHR '':'' # snd (cut_last (CHR '':'') host))
      then Inl (bad_port (CHR '':'' # snd (cut_last (CHR '':'') host)))
      else unescape InHost host)"

definition valid_userinfo :: "string \<Rightarrow> bool" where
  "valid_userinfo s = list_all (\<lambda>c. is_alnum c \<or> c \<in> set ''-._:~!$&()*+,;=%@'' \<or> c = squote) s"

definition parse_authority ::
  "string \<Rightarrow> string + (string \<times> string option) option \<times> string" where
  "parse_authority auth =
     (if CHR ''@'' \<notin> set auth then then_url (parse_host auth) (\<lambda>h. Inr (None, h))
      else
        let (info, hostpart) = cut_last (CHR ''@'') auth in
        then_url (parse_host hostpart) (\<lambda>h.
          if \<not> valid_userinfo info then Inl ''net/url: invalid userinfo''
          else if CHR '':'' \<notin> set info
          then then_url (unescape InUser info) (\<lambda>u. Inr (Some (u, None), h))
          else
            let (u0, p0) = cut (CHR '':'') info in
            then_url (unescape InUser u0) (\<lambda>u.
            then_url (unescape InUser p0) (\<lambda>p. Inr (Some (u, Some p), h)))))"

definition has_ctl :: "string \<Rightarrow> bool" where
  "has_ctl s = list_ex (\<lambda>c. byte c < (32 :: nat) \<or> byte c = (127 :: nat)) s"

text \<open>\<^verbatim>\<open>setPath\<close>: the decoded path, and the raw one where the default encoding differs.\<close>

definition set_path :: "string \<Rightarrow> url \<Rightarrow> string + url" where
  "set_path p u =
     then_url (unescape InPath p) (\<lambda>path.
       Inr (u\<lparr>uPath := path,
              uRawPath := (if url_escape InPath path = p then [] else p)\<rparr>))"

text \<open>\<^verbatim>\<open>parse\<close> after the scheme was cut off: query, authority and path.\<close>

definition parse_rest :: "string \<Rightarrow> string \<Rightarrow> string + url" where
  "parse_rest scheme rest0 =
     (let force = rest0 \<noteq> [] \<and> last rest0 = CHR ''?'' \<and> count_list rest0 (CHR ''?'') = 1;
          (rest, query) = (if force then (butlast rest0, []) else cut (CHR ''?'') rest0);
          u = empty_url\<lparr>uScheme := map to_lower scheme, uForceQuery := force, uRawQuery := query\<rparr> in
      if take 1 rest \<noteq> ''/'' \<and> scheme \<noteq> [] then Inr (u\<lparr>uOpaque := rest\<rparr>)
      else if take 1 rest \<noteq> ''/'' \<and> CHR '':'' \<in> set (fst (cut (CHR ''/'') rest))
      then Inl ''first path segment in URL cannot contain colon''
      else if (scheme \<noteq> [] \<or> take 3 rest \<noteq> ''///'') \<and> take 2 rest = ''//'' then
        let auth = takeWhile (\<lambda>c. c \<noteq> CHR ''/'') (drop 2 rest) in
        then_url (parse_authority auth) (\<lambda>(user, host).
          set_path (drop (2 + length auth) rest) (u\<lparr>uUser := user, uHost := host\<rparr>))
      else set_path rest u)"

definition parse_nofrag :: "string \<Rightarrow> string + url" where
  "parse_nofrag raw =
     (if has_ctl raw then Inl ''net/url: invalid control character in URL''
      else if raw = ''*'' then Inr (empty_url\<lparr>uPath := ''*''\<rparr>)
      else then_url (get_scheme raw) (\<lambda>(scheme, rest). parse_rest scheme rest))"

text \<open>
  \<^verbatim>\<open>url.Parse\<close>.  The error is the text of the \<^verbatim>\<open>*url.Error\<close>.
\<close>

definition url_error :: "string \<Rightarrow> string \<Rightarrow> string" where
  "url_error u e = ''parse '' @ Quote u @ '': '' @ e"

definition parse_url :: "string \<Rightarrow> string + url" where
  "parse_url raw =
     (case cut (CHR ''#'') raw of
        (u, frag) \<Rightarrow>
          (case parse_nofrag u of
             Inl e \<Rightarrow> Inl (url_error u e)
           | Inr x \<Rightarrow>
               if frag = [] then Inr x
               else (case unescape InFragment frag of
                   Inl e \<Rightarrow> Inl (url_error raw e) | Inr f \<Rightarrow> Inr (x\<lparr>uFragment := f\<rparr>))))"

section \<open>Requests and responses\<close>

record request =
  rqMethod :: string
  rqUrl :: url
  rqHeader :: header
  rqBody :: "string option"

definition remove_empty_port :: "string \<Rightarrow> string" where
  "remove_empty_port h =
     (if h \<noteq> [] \<and> last h = CHR '':'' then butlast h else h)"

text \<open>
  \<^verbatim>\<open>http.NewRequestWithContext\<close> with a valid method and a non-nil context: it fails where
  the URL does not parse, and then the request is nil.
\<close>

definition new_request :: "string \<Rightarrow> string \<Rightarrow> string option \<Rightarrow> string + request" where
  "new_request method endpoint body =
     then_url (parse_url endpoint) (\<lambda>u.
       Inr \<lparr>rqMethod = method, rqUrl = u\<lparr>uHost := remove_empty_port (uHost u)\<rparr>,
            rqHeader = [], rqBody = body\<rparr>)"

definition set_basic_auth :: "string \<Rightarrow> string \<Rightarrow> header \<Rightarrow> header" where
  "set_basic_auth user pass h =
     hset ''Authorization'' (''Basic '' @ base64_encode (user @ '':'' @ pass)) h"

text \<open>
  A response: its status and body.  A body is read to the end or fails to be read; the
  interface does not exclude a nil body.
\<close>

datatype body = Readable string | Unreadable string

record response =
  rsStatus :: int
  rsBody :: "body option"

lemma then_url_simps [simp]: "then_url (Inl e) k = Inl e" "then_url (Inr x) k = k x"
  by (simp_all add: then_url_def)

lemma new_request_Inr:
  "new_request m e b = Inr rq \<Longrightarrow>
     rqMethod rq = m \<and> rqBody rq = b \<and> rqHeader rq = [] \<and>
     (\<exists>u. parse_url e = Inr u)"
  by (auto simp: new_request_def then_url_def split: sum.splits)

lemma new_request_Inl: "new_request m e b = Inl t \<longleftrightarrow> parse_url e = Inl t"
  by (auto simp: new_request_def then_url_def split: sum.splits)

lemma parse_url_ctl:
  assumes "has_ctl (fst (cut (CHR ''#'') raw))"
  shows "\<exists>e. parse_url raw = Inl e"
  using assms by (auto simp: parse_url_def parse_nofrag_def split: prod.splits)

end
