(* ===== verification/Diagnostic.thy ===== *)
theory Diagnostic
  imports Go_Http
begin

text \<open>
  \<^verbatim>\<open>seeder/diagnostic.go\<close>: the error type of every network call.  \<open>ProceedFallback\<close> and
  \<open>IsFatal\<close> steer the strategies.  \<open>go_error\<close> is the error interface as the strategies see
  it: a \<^verbatim>\<open>*Diagnostic\<close> (found by \<^verbatim>\<open>errors.As\<close>) or any other error, kept as its text.
\<close>

record Diagnostic =
  dStatus :: int
  dName :: string
  dMessage :: string
  dHostPathMethod :: string
  dProceedFallback :: bool
  dIsFatal :: bool

definition Diagnostic_Error :: "Diagnostic \<Rightarrow> string" where
  "Diagnostic_Error d =
     ''status: '' @ int_dec (dStatus d) @ newline @
     ''name: '' @ dName d @ newline @
     ''message: '' @ dMessage d @ newline @
     ''hostPathMethod: '' @ dHostPathMethod d @ newline @
     ''isRetryAble: '' @ bool_text (dProceedFallback d)"

definition WithMessage :: "string \<Rightarrow> Diagnostic \<Rightarrow> Diagnostic" where
  "WithMessage m d = d\<lparr>dMessage := m\<rparr>"

definition WithStatus :: "int \<Rightarrow> Diagnostic \<Rightarrow> Diagnostic" where
  "WithStatus s d = d\<lparr>dStatus := s\<rparr>"

definition WithProceedFallback :: "bool \<Rightarrow> Diagnostic \<Rightarrow> Diagnostic" where
  "WithProceedFallback v d = d\<lparr>dProceedFallback := v\<rparr>"

definition WithIsFatal :: "bool \<Rightarrow> Diagnostic \<Rightarrow> Diagnostic" where
  "WithIsFatal v d = d\<lparr>dIsFatal := v\<rparr>"

lemmas diag_with = WithMessage_def WithStatus_def WithProceedFallback_def WithIsFatal_def

datatype go_error = Diag Diagnostic | Plain string

fun err_text :: "go_error \<Rightarrow> string" where
  "err_text (Diag d) = Diagnostic_Error d"
| "err_text (Plain t) = t"

text \<open>
  What a status code says to a fallback strategy: only a status from 300 to 499 leaves an
  error that may be followed by another verb.
\<close>

definition may_fall_back :: "go_error \<Rightarrow> bool" where
  "may_fall_back e = (case e of Diag d \<Rightarrow> dProceedFallback d | Plain _ \<Rightarrow> False)"

type_synonym 'a outcome = "(go_error, 'a) res"

end
