(* ===== verification/Action.thy ===== *)
theory Action
  imports Diagnostic
begin

text \<open>
  \<^verbatim>\<open>seeder/rest.go\<close>, the struct \<^verbatim>\<open>Action\<close> and its builders.  A pointer or a map that may
  be nil is an option.  \<open>header\<close> and \<open>Variables\<close> are reference types in Go: a request
  shares the action's header map, and \<^verbatim>\<open>TemplateWithVars\<close> writes into the action's
  variables, so the operations of the theory Rest return the action they changed.
\<close>

record Action =
  aName :: string
  templatedPayload :: string
  foundId :: string
  aHeader :: "header option"
  Name :: string
  Strategy :: string
  Order :: "int option"
  Endpoint :: string
  GetEndpointSuffix :: "string option"
  PostEndpointSuffix :: "string option"
  PatchEndpointSuffix :: "string option"
  PutEndpointSuffix :: "string option"
  DeleteEndpointSuffix :: "string option"
  FindByJsonPathExpr :: string
  PostIsPut :: bool
  PayloadTemplate :: string
  PatchPayloadTemplate :: string
  RuntimeVars :: "string gomap option"
  AuthMapRef :: string
  HttpHeaders :: "string gomap option"
  Variables :: "any gomap option"

text \<open>The zero value of the struct, and the top-level configuration around it.\<close>

definition zero_action :: Action where
  "zero_action = \<lparr>aName = [], templatedPayload = [], foundId = [], aHeader = None,
     Name = [], Strategy = [], Order = None, Endpoint = [], GetEndpointSuffix = None,
     PostEndpointSuffix = None, PatchEndpointSuffix = None, PutEndpointSuffix = None,
     DeleteEndpointSuffix = None, FindByJsonPathExpr = [], PostIsPut = False,
     PayloadTemplate = [], PatchPayloadTemplate = [], RuntimeVars = None, AuthMapRef = [],
     HttpHeaders = None, Variables = None\<rparr>"

definition default_header :: header where
  "default_header =
     hadd ''Content-Type'' ''application/json'' (hadd ''Accept'' ''application/json'' [])"

definition WithHeader :: "Action \<Rightarrow> Action" where
  "WithHeader a =
     a\<lparr>aHeader := Some (case HttpHeaders a of
         None \<Rightarrow> default_header
       | Some supplied \<Rightarrow> fold (\<lambda>(k, v). hadd k v) supplied default_header)\<rparr>"

definition WithName :: "string \<Rightarrow> Action \<Rightarrow> Action" where
  "WithName n a = a\<lparr>aName := n\<rparr>"

section \<open>What the header of an action holds\<close>

lemma hadd_keeps: "v \<in> set (hvalues k h) \<Longrightarrow> v \<in> set (hvalues k (hadd k' w h))"
  by (auto simp: hvalues_hadd)

lemma fold_hadd_keeps:
  "v \<in> set (hvalues k h) \<Longrightarrow> v \<in> set (hvalues k (fold (\<lambda>(k, v). hadd k v) m h))"
  by (induction m arbitrary: h) (auto simp: hadd_keeps)

lemma fold_hadd_present:
  "(k, v) \<in> set m \<Longrightarrow> v \<in> set (hvalues k (fold (\<lambda>(k, v). hadd k v) m h))"
proof (induction m arbitrary: h)
  case Nil
  then show ?case by simp
next
  case (Cons e m)
  have "v \<in> set (hvalues k (hadd k v h))" by (simp add: hvalues_hadd)
  with Cons show ?case by (cases e) (auto intro: fold_hadd_keeps)
qed

lemma fold_hadd_hget:
  "hvalues k h \<noteq> [] \<Longrightarrow> hget k (fold (\<lambda>(k, v). hadd k v) m h) = hget k h"
proof (induction m arbitrary: h)
  case Nil
  then show ?case by simp
next
  case (Cons e m)
  then show ?case
    by (cases e) (auto simp: hvalues_hadd hget_hadd_present)
qed

lemma is_map_fold_hadd: "is_map h \<Longrightarrow> is_map (fold (\<lambda>(k, v). hadd k v) m h)"
  by (induction m arbitrary: h) auto

lemma default_header_eq:
  "default_header =
     [(''Accept'', [''application/json'']), (''Content-Type'', [''application/json''])]"
  by code_simp

lemma canonical_defaults [simp]:
  "canonical_key ''Accept'' = ''Accept''" "canonical_key ''Content-Type'' = ''Content-Type''"
  "canonical_key ''Authorization'' = ''Authorization''"
  by code_simp+

lemma default_header_values [simp]:
  "hvalues ''Accept'' default_header = [''application/json'']"
  "hvalues ''Content-Type'' default_header = [''application/json'']"
  by (simp_all add: hvalues_def default_header_eq)

text \<open>The header does not depend on the order in which the supplied headers are visited,
  where their keys stay different in canonical form.\<close>

lemma hadd_commute:
  assumes "canonical_key k \<noteq> canonical_key k'"
  shows "map_of (hadd k v (hadd k' v' h)) = map_of (hadd k' v' (hadd k v h))"
  using assms by (auto simp: hadd_def hvalues_def fun_eq_iff split: option.splits)

definition header_of :: "Action \<Rightarrow> header" where
  "header_of a = (case aHeader a of None \<Rightarrow> [] | Some h \<Rightarrow> h)"

text \<open>
  WithHeader keeps every header the action supplies, keeps the default Accept and
  Content-Type values in front of the supplied ones (what Get returns stays
  application/json), and builds a map with one entry per key.  The comment on WithHeader
  speaks of overwriting the defaults; the supplied value is added behind them.
\<close>

theorem WithHeader_spec:
  "is_map (header_of (WithHeader a)) \<and>
   hget ''Accept'' (header_of (WithHeader a)) = ''application/json'' \<and>
   hget ''Content-Type'' (header_of (WithHeader a)) = ''application/json'' \<and>
   (\<forall>k v. (\<exists>m. HttpHeaders a = Some m \<and> (k, v) \<in> set m) \<longrightarrow>
          v \<in> set (hvalues k (header_of (WithHeader a))))"
proof -
  have base: "is_map default_header" by (simp add: default_header_eq)
  show ?thesis
  proof (cases "HttpHeaders a")
    case None
    then show ?thesis
      using base by (simp add: WithHeader_def header_of_def hget_def)
  next
    case (Some m)
    then have h: "header_of (WithHeader a) = fold (\<lambda>(k, v). hadd k v) m default_header"
      by (simp add: WithHeader_def header_of_def)
    have "hget k (header_of (WithHeader a)) = hget k default_header"
      if "hvalues k default_header \<noteq> []" for k
      using that unfolding h by (rule fold_hadd_hget)
    then show ?thesis
      using Some base by (auto simp: h is_map_fold_hadd fold_hadd_present hget_def)
  qed
qed

definition custom_accept :: Action where
  "custom_accept = zero_action\<lparr>HttpHeaders := Some [(''accept'', ''text/xml'')]\<rparr>"

theorem WithHeader_spec_witness:
  "hget ''Accept'' (header_of (WithHeader custom_accept)) = ''application/json'' \<and>
   ''text/xml'' \<in> set (hvalues ''accept'' (header_of (WithHeader custom_accept)))"
proof -
  have "\<exists>m. HttpHeaders custom_accept = Some m \<and> (''accept'', ''text/xml'') \<in> set m"
    by (simp add: custom_accept_def)
  with WithHeader_spec [of custom_accept] show ?thesis by blast
qed

end
