(* ===== verification/FindPath.thy ===== *)
theory FindPath
  imports Diagnostic
begin

text \<open>
  \<^verbatim>\<open>findPathByExpression\<close> of \<^verbatim>\<open>seeder/rest.go\<close>: look a value up in a response body.
  The JSON path engine (\<^verbatim>\<open>github.com/spyzhov/ajson\<close>) is the parameter \<open>jp\<close>: from a
  document and an expression, an error text or the nodes found.  A node has a type and
  the text it prints as (the source text of the value).
\<close>

datatype jtype = JNull | JNumeric | JString | JBool | JArray | JObject

fun jtype_number :: "jtype \<Rightarrow> nat" where
  "jtype_number JNull = 0"
| "jtype_number JNumeric = 1"
| "jtype_number JString = 2"
| "jtype_number JBool = 3"
| "jtype_number JArray = 4"
| "jtype_number JObject = 5"

record jnode =
  jType :: jtype
  jText :: string

type_synonym jsonpath = "string \<Rightarrow> string \<Rightarrow> string + jnode list"

text \<open>The body, unquoted where it is a quoted string.\<close>

definition unescaped_body :: "string \<Rightarrow> string" where
  "unescaped_body resp = (case Unquote resp of None \<Rightarrow> resp | Some s \<Rightarrow> s)"

text \<open>
  The value and the error.  The loop over the nodes returns in its first round, so only
  the first node counts.  A string node that cannot be unquoted comes back with an error.
\<close>

definition findPathByExpression ::
  "jsonpath \<Rightarrow> string \<Rightarrow> string \<Rightarrow> string \<times> go_error option" where
  "findPathByExpression jp resp pathExpression =
     (if pathExpression = [] then ([], None)
      else case jp (unescaped_body resp) pathExpression of
        Inl e \<Rightarrow> ([], Some (Plain e))
      | Inr [] \<Rightarrow> ([], None)
      | Inr (v # _) \<Rightarrow>
          (case jType v of
             JString \<Rightarrow>
               (case Unquote (jText v) of
                  None \<Rightarrow> (jText v, Some (Plain ''invalid syntax''))
                | Some str \<Rightarrow> (str, None))
           | JNumeric \<Rightarrow> (jText v, None)
           | t \<Rightarrow> ([], Some (Plain (''cannot use type: '' @ nat_dec (jtype_number t) @
                 '' in further processing - can only be a numeric or string value'')))))"

lemma findPath_no_expression [simp]: "findPathByExpression jp resp [] = ([], None)"
  by (simp add: findPathByExpression_def)

lemma findPath_error_is_plain:
  "findPathByExpression jp resp e = (v, Some err) \<Longrightarrow> \<exists>t. err = Plain t"
  by (auto simp: findPathByExpression_def split: if_splits sum.splits list.splits
      jtype.splits option.splits)

text \<open>
  A value is found exactly where the expression is given, the path engine accepts it
  on the unquoted body, and the first node is a number, whose text it is, or a string that
  unquotes to it; a boolean, null, array or object is an error, and any later node is
  ignored.
\<close>

theorem findPath_spec:
  "findPathByExpression jp resp e = (v, None) \<and> v \<noteq> [] \<longleftrightarrow>
     e \<noteq> [] \<and> v \<noteq> [] \<and>
     (\<exists>n ns. jp (unescaped_body resp) e = Inr (n # ns) \<and>
        (jType n = JNumeric \<and> v = jText n \<or> jType n = JString \<and> Unquote (jText n) = Some v))"
  by (auto simp: findPathByExpression_def split: if_splits sum.splits list.splits
      jtype.splits option.splits)

end
