(* ===== verification/Auth.thy ===== *)
theory Auth
  imports FindPath
begin

text \<open>
  \<^verbatim>\<open>seeder/auth.go\<close>: the authentication of each action.  \<open>NewAuth\<close> turns the configured
  map into one the requests can use; \<open>Token\<close> runs the custom token flow.  A \<^verbatim>\<open>Client\<close> is a
  function of an outside world \<open>'w\<close> (the servers) and a request; every call of it
  is logged in \<open>nCalls\<close>.
\<close>

section \<open>Configuration\<close>

definition NoAuth :: string where "NoAuth = ''NoAuth''"
definition Basic :: string where "Basic = ''BasicAuth''"
definition OAuth :: string where "OAuth = ''OAuthClientCredentials''"
definition OAuthPassword :: string where "OAuthPassword = ''OAuthPassCredentials''"
definition CustomToToken :: string where "CustomToToken = ''CustomToToken''"
definition StaticToken :: string where "StaticToken = ''StaticToken''"

lemmas auth_types = NoAuth_def Basic_def OAuth_def OAuthPassword_def CustomToToken_def StaticToken_def

record ConfigOAuth =
  ServerUrl :: string
  Scopes :: "string list"
  EndpointParams :: "string list gomap"
  OAuthSendParamsInHeader :: bool
  ResourceOwnerUser :: "string option"
  ResourceOwnerPassword :: "string option"

record CustomToken =
  AuthUrl :: string
  CustomAuthMap :: "any gomap option"
  SendInHeader :: bool
  ResponseKey :: string
  HeaderKey :: string
  TokenPrefix :: string

record AuthConfig =
  acName :: string
  AuthStrategy :: string
  Username :: string
  Password :: string
  acOAuth :: "ConfigOAuth option"
  acCustomToken :: "CustomToken option"

type_synonym AuthMap = "AuthConfig gomap"

section \<open>What a request uses\<close>

text \<open>The structs of \<^verbatim>\<open>golang.org/x/oauth2\<close> that the code fills in.\<close>

datatype auth_style = AuthStyleInParams | AuthStyleInHeader

record client_credentials =
  ccClientID :: string
  ccClientSecret :: string
  ccTokenURL :: string
  ccScopes :: "string list"
  ccEndpointParams :: "string list gomap"
  ccAuthStyle :: auth_style

record oauth2_config =
  ocClientID :: string
  ocClientSecret :: string
  ocScopes :: "string list"
  ocAuthURL :: string
  ocTokenURL :: string

record passwordGrantConfig =
  oauthPassCredsConfig :: oauth2_config
  resourceOwnerUser :: string
  resourceOwnerPass :: string

record basicAuth =
  baUsername :: string
  baPassword :: string

record CustomFlowAuth =
  cfAuthUrl :: string
  cfAuthMap :: "any gomap option"
  cfSendInHeader :: bool
  cfResponseKey :: string
  cfHeaderKey :: string
  cfTokenPrefix :: string
  cfCurrentToken :: string

record staticToken =
  stHeaderKey :: string
  stToken :: string

record auth =
  authStrategy :: string
  oAuthConfig :: "client_credentials option"
  passwordGrant :: "passwordGrantConfig option"
  basicCred :: "basicAuth option"
  customToToken :: "CustomFlowAuth option"
  staticCred :: "staticToken option"

definition zero_auth :: auth where
  "zero_auth = \<lparr>authStrategy = [], oAuthConfig = None, passwordGrant = None,
     basicCred = None, customToToken = None, staticCred = None\<rparr>"

section \<open>The custom token flow's settings\<close>

definition NewCustomFlowAuth :: CustomFlowAuth where
  "NewCustomFlowAuth = \<lparr>cfAuthUrl = [], cfAuthMap = None, cfSendInHeader = False,
     cfResponseKey = ''$.access_token'', cfHeaderKey = ''Authorization'',
     cfTokenPrefix = ''Bearer'', cfCurrentToken = []\<rparr>"

definition WithAuthUrl :: "string \<Rightarrow> CustomFlowAuth \<Rightarrow> CustomFlowAuth" where
  "WithAuthUrl v c = c\<lparr>cfAuthUrl := v\<rparr>"

definition WithAuthMap :: "any gomap option \<Rightarrow> CustomFlowAuth \<Rightarrow> CustomFlowAuth" where
  "WithAuthMap v c = c\<lparr>cfAuthMap := v\<rparr>"

definition WithHeaderKey :: "string \<Rightarrow> CustomFlowAuth \<Rightarrow> CustomFlowAuth" where
  "WithHeaderKey v c = (if v \<noteq> [] then c\<lparr>cfHeaderKey := v\<rparr> else c)"

definition WithTokenPrefix :: "string \<Rightarrow> CustomFlowAuth \<Rightarrow> CustomFlowAuth" where
  "WithTokenPrefix v c = (if v \<noteq> [] then c\<lparr>cfTokenPrefix := v\<rparr> else c)"

definition WithSendInHeader :: "bool \<Rightarrow> CustomFlowAuth \<Rightarrow> CustomFlowAuth" where
  "WithSendInHeader v c = (if v then c\<lparr>cfSendInHeader := v\<rparr> else c)"

definition WithResponseKey :: "string \<Rightarrow> CustomFlowAuth \<Rightarrow> CustomFlowAuth" where
  "WithResponseKey v c = (if v \<noteq> [] then c\<lparr>cfResponseKey := v\<rparr> else c)"

lemmas custom_with = NewCustomFlowAuth_def WithAuthUrl_def WithAuthMap_def WithHeaderKey_def
  WithTokenPrefix_def WithSendInHeader_def WithResponseKey_def

section \<open>NewAuth\<close>

definition NewClientCredentialsGrant :: "AuthConfig \<Rightarrow> client_credentials outcome" where
  "NewClientCredentialsGrant v =
     (case acOAuth v of
        None \<Rightarrow> Panic
      | Some oa \<Rightarrow> Ok \<lparr>ccClientID = Username v, ccClientSecret = Password v,
          ccTokenURL = ServerUrl oa, ccScopes = Scopes oa, ccEndpointParams = EndpointParams oa,
          ccAuthStyle = (if OAuthSendParamsInHeader oa then AuthStyleInHeader
                         else AuthStyleInParams)\<rparr>)"

definition NewPasswordCredentialsGrant :: "AuthConfig \<Rightarrow> passwordGrantConfig outcome" where
  "NewPasswordCredentialsGrant v =
     (case acOAuth v of
        None \<Rightarrow> Panic
      | Some oa \<Rightarrow> Ok \<lparr>oauthPassCredsConfig =
            \<lparr>ocClientID = Username v, ocClientSecret = Password v, ocScopes = Scopes oa,
             ocAuthURL = ServerUrl oa, ocTokenURL = ServerUrl oa\<rparr>,
          resourceOwnerUser = (case ResourceOwnerUser oa of None \<Rightarrow> [] | Some u \<Rightarrow> u),
          resourceOwnerPass = (case ResourceOwnerPassword oa of None \<Rightarrow> [] | Some p \<Rightarrow> p)\<rparr>)"

text \<open>One round of the loop of \<^verbatim>\<open>NewAuth\<close>.  A missing sub-configuration is a nil pointer.\<close>

definition auth_of_config :: "AuthConfig \<Rightarrow> auth outcome" where
  "auth_of_config v =
     (let a = zero_auth\<lparr>authStrategy := AuthStrategy v\<rparr> in
      if AuthStrategy v = OAuth then
        map_ok (\<lambda>c. a\<lparr>oAuthConfig := Some c\<rparr>) (NewClientCredentialsGrant v)
      else if AuthStrategy v = OAuthPassword then
        map_ok (\<lambda>c. a\<lparr>passwordGrant := Some c\<rparr>) (NewPasswordCredentialsGrant v)
      else if AuthStrategy v = Basic then
        Ok (a\<lparr>basicCred := Some \<lparr>baUsername = Username v, baPassword = Password v\<rparr>\<rparr>)
      else if AuthStrategy v = CustomToToken then
        (case acCustomToken v of
           None \<Rightarrow> Panic
         | Some ct \<Rightarrow> Ok (a\<lparr>customToToken := Some
             (WithSendInHeader (SendInHeader ct) (WithTokenPrefix (TokenPrefix ct)
             (WithResponseKey (ResponseKey ct) (WithHeaderKey (HeaderKey ct)
             (WithAuthUrl (AuthUrl ct) (WithAuthMap (CustomAuthMap ct) NewCustomFlowAuth))))))\<rparr>))
      else if AuthStrategy v = StaticToken then
        Ok (a\<lparr>staticCred := Some \<lparr>stHeaderKey = Username v, stToken = Password v\<rparr>\<rparr>)
      else Ok (zero_auth\<lparr>authStrategy := NoAuth\<rparr>))"

fun NewAuth_loop :: "AuthMap \<Rightarrow> auth gomap \<Rightarrow> auth gomap outcome" where
  "NewAuth_loop [] ac = Ok ac"
| "NewAuth_loop ((k, v) # am) ac =
     (case auth_of_config v of
        Ok a \<Rightarrow> NewAuth_loop am (mput k a ac)
      | Fail e \<Rightarrow> Fail e
      | Panic \<Rightarrow> Panic)"

definition NewAuth :: "AuthMap \<Rightarrow> auth gomap outcome" where
  "NewAuth am = NewAuth_loop am []"

section \<open>Network calls\<close>

type_synonym 'w client = "'w \<Rightarrow> request \<Rightarrow> 'w \<times> (string + response)"

text \<open>
  The log of the calls of \<^verbatim>\<open>client.Do\<close> is there for the properties: each entry has the
  request, the answer, and whether the call was made for an action or to fetch a token.
\<close>

datatype purpose = ForAction | ForToken

record call =
  cPurpose :: purpose
  cRequest :: request
  cAnswer :: "string + response"

record 'w net =
  nWorld :: 'w
  nCalls :: "call list"

text \<open>\<^verbatim>\<open>client.Do(req)\<close>; a nil client is a nil pointer.\<close>

definition client_do ::
  "purpose \<Rightarrow> 'w client option \<Rightarrow> request \<Rightarrow> 'w net \<Rightarrow> 'w net \<times> response outcome" where
  "client_do p cl rq n =
     (case cl of
        None \<Rightarrow> (n, Panic)
      | Some f \<Rightarrow>
          (case f (nWorld n) rq of (w, out) \<Rightarrow>
             (\<lparr>nWorld = w,
               nCalls = nCalls n @ [\<lparr>cPurpose = p, cRequest = rq, cAnswer = out\<rparr>]\<rparr>,
              (case out of Inl e \<Rightarrow> Fail (Plain e) | Inr resp \<Rightarrow> Ok resp))))"

text \<open>\<^verbatim>\<open>defer resp.Body.Close()\<close> needs a body.\<close>

definition body_of :: "response \<Rightarrow> body outcome" where
  "body_of resp = (case rsBody resp of None \<Rightarrow> Panic | Some b \<Rightarrow> Ok b)"

fun read_all :: "body \<Rightarrow> string outcome" where
  "read_all (Readable s) = Ok s"
| "read_all (Unreadable e) = Fail (Plain e)"

lemma client_do_iff [outcome_iff]:
  "client_do p cl rq n = (n', Ok resp) \<longleftrightarrow>
     (\<exists>f. cl = Some f \<and> f (nWorld n) rq = (nWorld n', Inr resp) \<and>
        nCalls n' = nCalls n @ [\<lparr>cPurpose = p, cRequest = rq, cAnswer = Inr resp\<rparr>])"
  "client_do p cl rq n = (n', Fail e) \<longleftrightarrow>
     (\<exists>f t. cl = Some f \<and> f (nWorld n) rq = (nWorld n', Inl t) \<and> e = Plain t \<and>
        nCalls n' = nCalls n @ [\<lparr>cPurpose = p, cRequest = rq, cAnswer = Inl t\<rparr>])"
  "client_do p cl rq n = (n', Panic) \<longleftrightarrow> cl = None \<and> n' = n"
  by (cases n'; force simp: client_do_def split: option.splits prod.splits sum.splits)+

lemma body_of_iff [outcome_iff]:
  "body_of resp = Ok b \<longleftrightarrow> rsBody resp = Some b"
  "body_of resp = Panic \<longleftrightarrow> rsBody resp = None"
  "body_of resp \<noteq> Fail e"
  by (auto simp: body_of_def split: option.splits)

lemma read_all_iff [outcome_iff]:
  "read_all b = Ok s \<longleftrightarrow> b = Readable s"
  "read_all b = Fail e \<longleftrightarrow> (\<exists>t. b = Unreadable t \<and> e = Plain t)"
  "read_all b \<noteq> Panic"
  by (cases b; auto)+

section \<open>The custom token flow\<close>

text \<open>The body posted to the token endpoint: JSON, or a form where \<open>sendInHeader\<close> is set.\<close>

definition exchange_body :: "CustomFlowAuth \<Rightarrow> string option" where
  "exchange_body am =
     map_option (\<lambda>b.
       if cfSendInHeader am
       then form_encode (map (\<lambda>(k, v). (k, sprint v)) (case cfAuthMap am of None \<Rightarrow> [] | Some m \<Rightarrow> m))
       else b)
     (json_marshal (case cfAuthMap am of None \<Rightarrow> ANil | Some m \<Rightarrow> AMap m))"

definition exchange_header :: "CustomFlowAuth \<Rightarrow> header" where
  "exchange_header am =
     (let h = hadd ''Content-Type'' ''application/json'' (hadd ''Accept'' ''*/*'' []) in
      if cfSendInHeader am then hadd ''Content-Type'' ''application/x-www-form-urlencoded'' h
      else h)"

text \<open>
  The header is filled in before the error of \<^verbatim>\<open>NewRequestWithContext\<close> is looked at, so an
  authUrl that does not parse is a nil pointer.
\<close>

definition customTokenExchange ::
  "CustomFlowAuth \<Rightarrow> 'w client option \<Rightarrow> 'w net \<Rightarrow> 'w net \<times> string outcome" where
  "customTokenExchange am cl n =
     (case exchange_body am of
        None \<Rightarrow> (n, Fail (Plain ''json: unsupported value''))
      | Some body \<Rightarrow>
          (case new_request ''POST'' (cfAuthUrl am) (Some body) of
             Inl e \<Rightarrow> (n, Panic)
           | Inr rq \<Rightarrow>
               andThen (client_do ForToken cl (rq\<lparr>rqHeader := exchange_header am\<rparr>) n) (\<lambda>n resp.
               andThen (n, body_of resp) (\<lambda>n b.
                 if 201 < rsStatus resp
                 then (n, Fail (Plain
                        (''network call indicated a non success status code: '' @
                         int_dec (rsStatus resp))))
                 else (n, read_all b)))))"

record CustomTokenResponse =
  trHeaderKey :: string
  trTokenPrefix :: string
  trTokenValue :: string

definition zero_token_response :: CustomTokenResponse where
  "zero_token_response = \<lparr>trHeaderKey = [], trTokenPrefix = [], trTokenValue = []\<rparr>"

definition no_token_error :: "string \<Rightarrow> string \<Rightarrow> string" where
  "no_token_error st key =
     ''unable to retrieve and parse custom token from: '' @ sprint_bytes st @
     '', by pathx: '' @ key"

text \<open>\<^verbatim>\<open>Token\<close>: the receiver with its cached token, and the parts of the header to set.\<close>

definition Token ::
  "jsonpath \<Rightarrow> 'w client option \<Rightarrow> 'w net \<times> CustomFlowAuth
   \<Rightarrow> ('w net \<times> CustomFlowAuth) \<times> CustomTokenResponse outcome" where
  "Token jp cl s =
     (case s of (n, c) \<Rightarrow>
       (case customTokenExchange c cl n of (n', out) \<Rightarrow>
         andThen ((n', c), out) (\<lambda>(n, c) st.
           (case findPathByExpression jp st (cfResponseKey c) of
              (_, Some e) \<Rightarrow> ((n, c), Fail e)
            | (token, None) \<Rightarrow>
                if token = [] then ((n, c), Fail (Plain (no_token_error st (cfResponseKey c))))
                else ((n, c\<lparr>cfCurrentToken := token\<rparr>),
                      Ok \<lparr>trHeaderKey = cfHeaderKey c, trTokenPrefix = cfTokenPrefix c,
                          trTokenValue = token\<rparr>)))))"

section \<open>Properties\<close>

text \<open>A usable entry carries the credential its strategy needs.\<close>

definition wf_auth :: "auth \<Rightarrow> bool" where
  "wf_auth a \<longleftrightarrow>
     authStrategy a \<in> {NoAuth, Basic, OAuth, OAuthPassword, CustomToToken, StaticToken} \<and>
     (oAuthConfig a \<noteq> None \<longleftrightarrow> authStrategy a = OAuth) \<and>
     (passwordGrant a \<noteq> None \<longleftrightarrow> authStrategy a = OAuthPassword) \<and>
     (basicCred a \<noteq> None \<longleftrightarrow> authStrategy a = Basic) \<and>
     (customToToken a \<noteq> None \<longleftrightarrow> authStrategy a = CustomToToken) \<and>
     (staticCred a \<noteq> None \<longleftrightarrow> authStrategy a = StaticToken)"

text \<open>What a configuration must have for NewAuth not to follow a nil pointer.\<close>

definition complete_config :: "AuthConfig \<Rightarrow> bool" where
  "complete_config v \<longleftrightarrow>
     (AuthStrategy v \<in> {OAuth, OAuthPassword} \<longrightarrow> acOAuth v \<noteq> None) \<and>
     (AuthStrategy v = CustomToToken \<longrightarrow> acCustomToken v \<noteq> None)"

lemma auth_types_distinct [simp]:
  "distinct [NoAuth, Basic, OAuth, OAuthPassword, CustomToToken, StaticToken]"
  by (simp add: auth_types)

lemma auth_of_config_cases:
  "(\<exists>a. auth_of_config v = Ok a) \<longleftrightarrow> complete_config v"
  "auth_of_config v = Panic \<longleftrightarrow> \<not> complete_config v"
  "auth_of_config v \<noteq> Fail e"
  using auth_types_distinct
  by (auto simp: auth_of_config_def complete_config_def Let_def NewClientCredentialsGrant_def
      NewPasswordCredentialsGrant_def split: option.splits)

lemma auth_of_config_wf: "auth_of_config v = Ok a \<Longrightarrow> wf_auth a"
  using auth_types_distinct
  by (auto simp: auth_of_config_def wf_auth_def zero_auth_def Let_def NewClientCredentialsGrant_def
      NewPasswordCredentialsGrant_def split: option.splits if_splits)

lemma NewAuth_loop_Ok:
  assumes "NewAuth_loop am ac = Ok ac'" "is_map am" "is_map ac"
  shows "is_map ac' \<and> (\<forall>k. map_of ac' k =
    (case map_of am k of None \<Rightarrow> map_of ac k
     | Some v \<Rightarrow> (case auth_of_config v of Ok a \<Rightarrow> Some a | _ \<Rightarrow> None)))"
  using assms
proof (induction am ac rule: NewAuth_loop.induct)
  case (1 ac)
  then show ?case by simp
next
  case (2 k v am ac)
  then obtain a where a: "auth_of_config v = Ok a"
    by (auto split: res.splits)
  with 2 have ih: "is_map ac' \<and> (\<forall>k'. map_of ac' k' =
    (case map_of am k' of None \<Rightarrow> map_of (mput k a ac) k'
     | Some v \<Rightarrow> (case auth_of_config v of Ok a \<Rightarrow> Some a | _ \<Rightarrow> None)))"
    by simp
  have "map_of am k = None" using "2.prems" by (simp add: map_of_eq_None_iff)
  with ih a show ?case by (auto split: option.split)
qed

lemma NewAuth_loop_total:
  "case NewAuth_loop am ac of
     Ok _ \<Rightarrow> \<forall>v \<in> snd ` set am. complete_config v
   | Panic \<Rightarrow> \<exists>v \<in> snd ` set am. \<not> complete_config v
   | Fail _ \<Rightarrow> False"
proof (induction am ac rule: NewAuth_loop.induct)
  case (1 ac)
  then show ?case by simp
next
  case (2 k v am ac)
  show ?case
  proof (cases "auth_of_config v")
    case (Ok a)
    with auth_of_config_cases(1) [of v] have "complete_config v" by blast
    with 2 Ok show ?thesis by (auto split: res.splits)
  next
    case Panic
    with auth_of_config_cases(2) [of v] show ?thesis by simp
  qed (simp add: auth_of_config_cases)
qed

lemma NewAuth_Panic_iff: "NewAuth am = Panic \<longleftrightarrow> (\<exists>v \<in> snd ` set am. \<not> complete_config v)"
  using NewAuth_loop_total [of am "[]"] by (auto simp: NewAuth_def split: res.splits)

lemma NewAuth_Ok_iff: "(\<exists>ac. NewAuth am = Ok ac) \<longleftrightarrow> (\<forall>v \<in> snd ` set am. complete_config v)"
  using NewAuth_loop_total [of am "[]"] by (auto simp: NewAuth_def split: res.splits)

lemma NewAuth_loop_wf:
  "NewAuth_loop am ac = Ok ac' \<Longrightarrow> \<forall>a \<in> snd ` set ac. wf_auth a \<Longrightarrow> \<forall>a \<in> snd ` set ac'. wf_auth a"
proof (induction am ac rule: NewAuth_loop.induct)
  case (1 ac)
  then show ?case by simp
next
  case (2 k v am ac)
  then obtain a where a: "auth_of_config v = Ok a" "wf_auth a"
    by (auto split: res.splits dest: auth_of_config_wf)
  have "set (mput k a ac) \<subseteq> insert (k, a) (set ac)"
    by (induction ac) auto
  with "2.prems"(2) a(2) have "\<forall>b \<in> snd ` set (mput k a ac). wf_auth b" by fastforce
  with "2.IH" [OF a(1)] "2.prems"(1) a(1) show ?case by simp
qed

text \<open>
  C40: NewAuth builds one entry per configured name: each is the translation of that name's
  configuration alone, names the strategy it is for, and holds the one credential that
  strategy uses.
\<close>

theorem NewAuth_spec:
  assumes "is_map am" "NewAuth am = Ok ac"
  shows "is_map ac \<and> (\<forall>a \<in> snd ` set ac. wf_auth a) \<and>
    (\<forall>k. map_of ac k =
       (case map_of am k of None \<Rightarrow> None
        | Some v \<Rightarrow> (case auth_of_config v of Ok a \<Rightarrow> Some a | _ \<Rightarrow> None)))"
  using assms NewAuth_loop_Ok [of am "[]" ac] NewAuth_loop_wf [of am "[]" ac]
  by (auto simp: NewAuth_def split: option.split)

definition example_config :: AuthConfig where
  "example_config = \<lparr>acName = ''c'', AuthStrategy = ''CustomToToken'', Username = ''u'',
     Password = ''p'', acOAuth = None,
     acCustomToken = Some \<lparr>AuthUrl = ''http://auth/t'', CustomAuthMap = Some [(''id'', AInt 7)],
       SendInHeader = False, ResponseKey = [], HeaderKey = ''X-Token'', TokenPrefix = []\<rparr>\<rparr>"

definition example_basic :: AuthConfig where
  "example_basic = \<lparr>acName = ''b'', AuthStrategy = ''BasicAuth'', Username = ''u'',
     Password = ''p'', acOAuth = None, acCustomToken = None\<rparr>"

definition example_auth :: "auth gomap" where
  "example_auth = (case NewAuth [(''c'', example_config), (''b'', example_basic)] of Ok ac \<Rightarrow> ac | _ \<Rightarrow> [])"

lemma example_auth_ok: "NewAuth [(''c'', example_config), (''b'', example_basic)] = Ok example_auth"
  unfolding example_auth_def by code_simp

theorem NewAuth_spec_witness:
  "is_map example_auth \<and> map_option authStrategy (map_of example_auth ''b'') = Some Basic"
proof -
  have "is_map [(''c'', example_config), (''b'', example_basic)]" by simp
  from NewAuth_spec [OF this example_auth_ok] show ?thesis
    by (simp add: auth_of_config_def example_basic_def auth_types)
qed

text \<open>
  NewAuth never returns an error; it follows a nil pointer exactly where some entry of
  an OAuth type has no oauth block, or a custom one has no custom block, in whatever order
  the entries are visited.
\<close>

theorem NewAuth_panics:
  "NewAuth am = Panic \<longleftrightarrow>
     (\<exists>v \<in> snd ` set am. AuthStrategy v \<in> {OAuth, OAuthPassword} \<and> acOAuth v = None \<or>
        AuthStrategy v = CustomToToken \<and> acCustomToken v = None)"
  by (auto simp: NewAuth_Panic_iff complete_config_def)

text \<open>
  A custom token is only ever taken from one POST to the configured address with the
  encoded credentials as its body, answered with a status of at most 201; the token is the
  non-empty value found in the answer, and the header key and prefix are the configured
  ones.
\<close>

theorem Token_success:
  assumes "Token jp cl (n, c) = ((n', c'), Ok t)"
  shows "trHeaderKey t = cfHeaderKey c \<and> trTokenPrefix t = cfTokenPrefix c \<and>
    trTokenValue t \<noteq> [] \<and> c' = c\<lparr>cfCurrentToken := trTokenValue t\<rparr> \<and>
    (\<exists>f rq resp st. cl = Some f \<and>
       nCalls n' = nCalls n @ [\<lparr>cPurpose = ForToken, cRequest = rq, cAnswer = Inr resp\<rparr>] \<and>
       rqMethod rq = ''POST'' \<and>
       rqBody rq = exchange_body c \<and> rqHeader rq = exchange_header c \<and>
       f (nWorld n) rq = (nWorld n', Inr resp) \<and> rsStatus resp \<le> 201 \<and>
       rsBody resp = Some (Readable st) \<and>
       findPathByExpression jp st (cfResponseKey c) = (trTokenValue t, None))"
proof -
  obtain m out where mo: "customTokenExchange c cl n = (m, out)" by force
  with assms obtain st where st: "out = Ok st" by (cases out) (auto simp: Token_def)
  obtain v e where ve: "findPathByExpression jp st (cfResponseKey c) = (v, e)" by force
  from assms have e: "e = None" "v \<noteq> []" and mn: "m = n'"
    and t: "trTokenValue t = v" "trHeaderKey t = cfHeaderKey c" "trTokenPrefix t = cfTokenPrefix c"
      "c' = c\<lparr>cfCurrentToken := v\<rparr>"
    by (auto simp: Token_def mo st ve split: option.splits if_splits)
  from mo st mn have x: "customTokenExchange c cl n = (n', Ok st)" by simp
  from x obtain body rq0 m resp where rq0: "exchange_body c = Some body"
      "new_request ''POST'' (cfAuthUrl c) (Some body) = Inr rq0"
    and d: "client_do ForToken cl (rq0\<lparr>rqHeader := exchange_header c\<rparr>) n = (m, Ok resp)"
    and r: "rsBody resp = Some (Readable st)" "rsStatus resp \<le> 201" "m = n'"
    by (auto simp: customTokenExchange_def andThen_Ok_iff body_of_iff read_all_iff
        split: option.splits sum.splits if_splits)
  with d new_request_Inr [OF rq0(2)] ve e t show ?thesis
    by (auto simp: client_do_iff intro!: exI [of _ "rq0\<lparr>rqHeader := exchange_header c\<rparr>"])
qed

text \<open>A token endpoint that answers with the text 42, to apply the theorem to.\<close>

definition token_client :: "unit client" where
  "token_client w rq = (w, Inr \<lparr>rsStatus = 200, rsBody = Some (Readable ''42'')\<rparr>)"

definition whole_number :: jsonpath where
  "whole_number doc e = Inr [\<lparr>jType = JNumeric, jText = doc\<rparr>]"

definition empty_net :: "unit net" where
  "empty_net = \<lparr>nWorld = (), nCalls = []\<rparr>"

definition example_flow :: CustomFlowAuth where
  "example_flow = NewCustomFlowAuth\<lparr>cfAuthUrl := ''http://auth/t''\<rparr>"

theorem Token_success_witness:
  "\<exists>n' c'. Token whole_number (Some token_client) (empty_net, example_flow) =
       ((n', c'), Ok \<lparr>trHeaderKey = ''Authorization'', trTokenPrefix = ''Bearer'', trTokenValue = ''42''\<rparr>)
     \<and> cfCurrentToken c' = ''42''"
proof -
  let ?r = "Token whole_number (Some token_client) (empty_net, example_flow)"
  have ok: "snd ?r = Ok \<lparr>trHeaderKey = ''Authorization'', trTokenPrefix = ''Bearer'', trTokenValue = ''42''\<rparr>"
    by code_simp
  obtain n' c' where r: "?r = ((n', c'),
      Ok \<lparr>trHeaderKey = ''Authorization'', trTokenPrefix = ''Bearer'', trTokenValue = ''42''\<rparr>)"
    using ok by (metis prod.collapse)
  from Token_success [OF r] have "c' = example_flow\<lparr>cfCurrentToken := ''42''\<rparr>" by simp
  with r show ?thesis by simp
qed

end
