(* ===== verification/Rest.thy ===== *)
theory Rest
  imports Action Auth
begin

text \<open>
  \<^verbatim>\<open>seeder/rest.go\<close>: \<^verbatim>\<open>SeederImpl\<close>, which makes every network call of an action.

  The state \<open>'w rest\<close> is the struct (client, auth, runtime variables) with what surrounds
  the process: the network and the process environment, which \<^verbatim>\<open>os.Setenv\<close> changes.  An
  operation works on a pair of that state and the action it is called with, because it
  changes the action too: the request uses the action's own header map, and templating
  writes the runtime variables into the action's variables.  Logging is left out.

  What the code takes from third-party packages is the record \<open>'w ext\<close>: the template
  engine (\<^verbatim>\<open>envsubst\<close>, a function of the environment and the text, with the text of an
  error if any), the JSON path engine, and the two token sources of \<^verbatim>\<open>x/oauth2\<close>, whose
  token is nil when they return an error.
\<close>

record oauth_token =
  otTokenType :: string
  otAccessToken :: string

type_synonym environ = "string \<rightharpoonup> string"

record 'w ext =
  xEnvsubst :: "environ \<Rightarrow> string \<Rightarrow> string \<times> string option"
  xJSONPath :: jsonpath
  xClientToken :: "'w \<Rightarrow> client_credentials \<Rightarrow> 'w \<times> (string + oauth_token)"
  xPasswordToken :: "'w \<Rightarrow> oauth2_config \<Rightarrow> string \<Rightarrow> string \<Rightarrow> 'w \<times> (string + oauth_token)"

record 'w rest =
  client :: "'w client option"
  auth_map :: "auth gomap option"
  runtimeVars :: "any gomap"
  net :: "'w net"
  env :: environ

type_synonym 'w conf = "'w rest \<times> Action"

section \<open>Construction and runtime variables\<close>

definition NewSeederImpl :: "'w net \<Rightarrow> environ \<Rightarrow> 'w rest" where
  "NewSeederImpl n e = \<lparr>client = None, auth_map = None, runtimeVars = [], net = n, env = e\<rparr>"

definition WithClient :: "'w client \<Rightarrow> 'w rest \<Rightarrow> 'w rest" where
  "WithClient c r = r\<lparr>client := Some c\<rparr>"

text \<open>\<^verbatim>\<open>NewAuth\<close> may follow a nil pointer, and then so does \<^verbatim>\<open>WithAuth\<close>.\<close>

definition WithAuth :: "AuthMap \<Rightarrow> 'w rest \<Rightarrow> 'w rest outcome" where
  "WithAuth a r = map_ok (\<lambda>ac. r\<lparr>auth_map := Some ac\<rparr>) (NewAuth a)"

definition SetRuntimeVar :: "string \<Rightarrow> any \<Rightarrow> 'w rest \<Rightarrow> 'w rest" where
  "SetRuntimeVar key val r = r\<lparr>runtimeVars := mput key val (runtimeVars r)\<rparr>"

definition copy_RuntimeVars :: "'w rest \<Rightarrow> any gomap" where
  "copy_RuntimeVars r = mput_all (runtimeVars r) []"

section \<open>Templating\<close>

text \<open>\<^verbatim>\<open>os.Setenv\<close> refuses an empty key, a key with an equals sign and any NUL; the code
  does not look at the error.\<close>

definition Setenv :: "string \<Rightarrow> string \<Rightarrow> environ \<Rightarrow> environ" where
  "Setenv k v e =
     (if k = [] \<or> CHR ''='' \<in> set k \<or> CHR 0x00 \<in> set k \<or> CHR 0x00 \<in> set v then e
      else e(k \<mapsto> v))"

definition set_variables :: "any gomap \<Rightarrow> environ \<Rightarrow> environ" where
  "set_variables vars e = fold (\<lambda>(k, v). Setenv k (sprint v)) vars e"

definition templatePayload ::
  "'w ext \<Rightarrow> string \<Rightarrow> any gomap \<Rightarrow> environ \<Rightarrow> environ \<times> string \<times> string option" where
  "templatePayload X payload vars e =
     (let e' = set_variables vars e in (e', xEnvsubst X e' payload))"

text \<open>
  The runtime variables are written into the caller's map, unless it is nil.  An error of
  the engine is only logged.
\<close>

definition TemplateWithVars ::
  "'w ext \<Rightarrow> string \<Rightarrow> any gomap option \<Rightarrow> 'w rest \<Rightarrow> 'w rest \<times> any gomap option \<times> string" where
  "TemplateWithVars X payload vars r =
     (let vs = mput_all (copy_RuntimeVars r) (case vars of None \<Rightarrow> [] | Some m \<Rightarrow> m);
          out = templatePayload X payload vs (env r) in
      (r\<lparr>env := fst out\<rparr>, map_option (\<lambda>_. vs) vars, fst (snd out)))"

text \<open>\<^verbatim>\<open>action.templatedPayload = r.TemplateWithVars(template, action.Variables)\<close>.\<close>

definition fill_template :: "'w ext \<Rightarrow> string \<Rightarrow> 'w conf \<Rightarrow> 'w conf" where
  "fill_template X template c =
     (case c of (r, a) \<Rightarrow>
       (case TemplateWithVars X template (Variables a) r of (r', vs, t) \<Rightarrow>
          (r', a\<lparr>Variables := vs, templatedPayload := t\<rparr>)))"

section \<open>Runtime variables from a response\<close>

definition FindPathByExpression :: "'w ext \<Rightarrow> string \<Rightarrow> string \<Rightarrow> string \<times> go_error option" where
  "FindPathByExpression X resp e = findPathByExpression (xJSONPath X) resp e"

text \<open>A value found is stored even where an error came with it; an error is only logged.\<close>

definition store_found :: "'w ext \<Rightarrow> string \<Rightarrow> string \<times> string \<Rightarrow> 'w rest \<Rightarrow> 'w rest" where
  "store_found X resp ke r =
     (let found = fst (FindPathByExpression X resp (snd ke)) in
      if found \<noteq> [] then SetRuntimeVar (fst ke) (AStr found) r else r)"

definition findRuntimeVars :: "'w ext \<Rightarrow> string \<Rightarrow> 'w conf \<Rightarrow> 'w conf" where
  "findRuntimeVars X resp c =
     (case c of (r, a) \<Rightarrow>
       (case RuntimeVars a of
          None \<Rightarrow> (r, a)
        | Some m \<Rightarrow> (fold (store_found X resp) m r, a)))"

section \<open>setAuthHeader\<close>

definition set_header :: "string \<Rightarrow> string \<Rightarrow> Action \<Rightarrow> Action" where
  "set_header k v a = a\<lparr>aHeader := map_option (hset k v) (aHeader a)\<rparr>"

text \<open>The Authorization header from an OAuth token; a nil token is followed.\<close>

definition set_bearer ::
  "'w rest \<Rightarrow> 'w \<times> (string + oauth_token) \<Rightarrow> Action \<Rightarrow> 'w conf \<times> unit outcome" where
  "set_bearer r wt a =
     (case wt of (w, out) \<Rightarrow>
       let r' = r\<lparr>net := (net r)\<lparr>nWorld := w\<rparr>\<rparr> in
       (case out of
          Inl e \<Rightarrow> ((r', a), Panic)
        | Inr t \<Rightarrow>
            ((r', set_header ''Authorization'' (otTokenType t @ '' '' @ otAccessToken t) a), Ok ())))"

text \<open>The custom flow: the response is the zero struct where it failed.\<close>

definition set_custom ::
  "'w ext \<Rightarrow> 'w rest \<Rightarrow> auth gomap \<Rightarrow> auth \<Rightarrow> CustomFlowAuth \<Rightarrow> Action \<Rightarrow> 'w conf \<times> unit outcome" where
  "set_custom X r am cam cfa a =
     (case Token (xJSONPath X) (client r) (net r, cfa) of ((n, cfa'), out) \<Rightarrow>
       let r' = r\<lparr>net := n,
                  auth_map := Some (mput (AuthMapRef a) (cam\<lparr>customToToken := Some cfa'\<rparr>) am)\<rparr>;
           set = (\<lambda>t. set_header (trHeaderKey t) (trTokenPrefix t @ '' '' @ trTokenValue t) a) in
       (case out of
          Ok t \<Rightarrow> ((r', set t), Ok ())
        | Fail e \<Rightarrow> ((r', set zero_token_response), Ok ())
        | Panic \<Rightarrow> ((r', a), Panic)))"

text \<open>
  The switch over the strategy of the entry the action refers to; a missing entry is the
  zero struct, whose strategy is empty.
\<close>

definition setAuthHeader :: "'w ext \<Rightarrow> 'w conf \<Rightarrow> 'w conf \<times> unit outcome" where
  "setAuthHeader X c =
     (case c of (r, a) \<Rightarrow>
       (case auth_map r of
          None \<Rightarrow> (c, Panic)
        | Some am \<Rightarrow>
            let cam = (case map_of am (AuthMapRef a) of None \<Rightarrow> zero_auth | Some x \<Rightarrow> x) in
            if authStrategy cam = Basic then
              (case basicCred cam of
                 None \<Rightarrow> (c, Panic)
               | Some b \<Rightarrow>
                   ((r, a\<lparr>aHeader := map_option (set_basic_auth (baUsername b) (baPassword b)) (aHeader a)\<rparr>),
                    Ok ()))
            else if authStrategy cam = OAuth then
              (case oAuthConfig cam of
                 None \<Rightarrow> (c, Panic)
               | Some cc \<Rightarrow> set_bearer r (xClientToken X (nWorld (net r)) cc) a)
            else if authStrategy cam = OAuthPassword then
              (case passwordGrant cam of
                 None \<Rightarrow> (c, Panic)
               | Some pg \<Rightarrow> set_bearer r (xPasswordToken X (nWorld (net r)) (oauthPassCredsConfig pg)
                                (resourceOwnerUser pg) (resourceOwnerPass pg)) a)
            else if authStrategy cam = CustomToToken then
              (case customToToken cam of
                 None \<Rightarrow> (c, Panic)
               | Some cfa \<Rightarrow> set_custom X r am cam cfa a)
            else if authStrategy cam = StaticToken then
              (case staticCred cam of
                 None \<Rightarrow> (c, Panic)
               | Some st \<Rightarrow> ((r, set_header (stHeaderKey st) (stToken st) a), Ok ()))
            else (c, Ok ())))"

section \<open>do: one network call\<close>

definition hostPathMethod :: "request \<Rightarrow> string" where
  "hostPathMethod rq =
     ''Method => '' @ rqMethod rq @ '' HostPath => '' @ uHost (rqUrl rq) @ uPath (rqUrl rq) @
     '' Query => '' @ uRawQuery (rqUrl rq)"

definition base_diagnostic :: "request \<Rightarrow> Action \<Rightarrow> Diagnostic" where
  "base_diagnostic rq a =
     \<lparr>dStatus = 0, dName = aName a, dMessage = [], dHostPathMethod = hostPathMethod rq,
      dProceedFallback = False, dIsFatal = True\<rparr>"

text \<open>The diagnostic of a response with a status above 299.\<close>

definition status_diagnostic :: "int \<Rightarrow> string \<Rightarrow> Diagnostic \<Rightarrow> Diagnostic" where
  "status_diagnostic status body d =
     (let d' = WithIsFatal False (WithProceedFallback True (WithMessage body d)) in
      if 500 \<le> status then WithProceedFallback False d' else d')"

text \<open>What follows a response: its body is read, then the status decides.\<close>

definition handle_response ::
  "'w ext \<Rightarrow> Diagnostic \<Rightarrow> response \<Rightarrow> 'w conf \<Rightarrow> 'w conf \<times> string outcome" where
  "handle_response X d0 resp c =
     andThen (c, body_of resp) (\<lambda>c b.
       let d = WithStatus (rsStatus resp) d0 in
       (case b of
          Unreadable e \<Rightarrow> (c, Fail (Diag (WithMessage ''unable to read the body'' d)))
        | Readable respBody \<Rightarrow>
            if 299 < rsStatus resp
            then (c, Fail (Diag (status_diagnostic (rsStatus resp) respBody d)))
            else (findRuntimeVars X respBody c, Ok respBody)))"

definition network_failure :: "Diagnostic \<Rightarrow> go_error \<Rightarrow> go_error" where
  "network_failure d e =
     Diag (WithMessage (''failed to make network call: '' @ err_text e) (WithStatus 999 d))"

text \<open>
  \<^verbatim>\<open>do\<close>, with the request None where it is nil.  The request takes the action's header
  map; only the path of its URL is templated.
\<close>

definition do_send ::
  "'w ext \<Rightarrow> Diagnostic \<Rightarrow> request \<Rightarrow> 'w conf \<Rightarrow> 'w conf \<times> string outcome" where
  "do_send X d rq c =
     (case c of (r, a) \<Rightarrow>
       (case client_do ForAction (client r) (rq\<lparr>rqHeader := header_of a\<rparr>) (net r) of
          (n, Ok resp) \<Rightarrow> handle_response X d resp (r\<lparr>net := n\<rparr>, a)
        | (n, Fail e) \<Rightarrow> ((r\<lparr>net := n\<rparr>, a), Fail (network_failure d e))
        | (n, Panic) \<Rightarrow> ((r\<lparr>net := n\<rparr>, a), Panic)))"

definition template_path :: "'w ext \<Rightarrow> request \<Rightarrow> 'w conf \<Rightarrow> 'w conf \<times> request" where
  "template_path X rq c =
     (case c of (r, a) \<Rightarrow>
       (case TemplateWithVars X (uPath (rqUrl rq)) (Variables a) r of (r', vs, path) \<Rightarrow>
          ((r', a\<lparr>Variables := vs\<rparr>), rq\<lparr>rqUrl := (rqUrl rq)\<lparr>uPath := path\<rparr>\<rparr>)))"

definition do_call ::
  "'w ext \<Rightarrow> request option \<Rightarrow> 'w conf \<Rightarrow> 'w conf \<times> string outcome" where
  "do_call X nrq c =
     (case nrq of
        None \<Rightarrow> (c, Panic)
      | Some rq0 \<Rightarrow>
          if aHeader (snd c) = None then (c, Panic)
          else (case template_path X rq0 c of (c1, rq) \<Rightarrow>
            andThen (setAuthHeader X c1) (\<lambda>c2 _.
              do_send X (base_diagnostic rq (snd c2)) rq c2)))"

section \<open>The verbs\<close>

definition with_suffix :: "string \<Rightarrow> string option \<Rightarrow> string" where
  "with_suffix endpoint suffix = (case suffix of None \<Rightarrow> endpoint | Some s \<Rightarrow> endpoint @ s)"

definition with_id :: "string \<Rightarrow> Action \<Rightarrow> string" where
  "with_id endpoint a = (if foundId a \<noteq> [] then endpoint @ ''/'' @ foundId a else endpoint)"

definition get :: "'w ext \<Rightarrow> 'w conf \<Rightarrow> 'w conf \<times> string outcome" where
  "get X c =
     (case new_request ''GET'' (with_suffix (Endpoint (snd c)) (GetEndpointSuffix (snd c))) None of
        Inl e \<Rightarrow> (c, Fail (Plain e))
      | Inr rq \<Rightarrow> do_call X (Some rq) c)"

text \<open>
  The other verbs log the error of \<^verbatim>\<open>NewRequestWithContext\<close> and go on with the nil
  request.
\<close>

definition send_body ::
  "'w ext \<Rightarrow> string \<Rightarrow> string \<Rightarrow> string option \<Rightarrow> 'w conf \<Rightarrow> 'w conf \<times> unit outcome" where
  "send_body X method endpoint body c =
     (let nrq = (case new_request method endpoint body of Inl e \<Rightarrow> None | Inr rq \<Rightarrow> Some rq) in
      andThen (do_call X nrq c) (\<lambda>c _. (c, Ok ())))"

definition post :: "'w ext \<Rightarrow> 'w conf \<Rightarrow> 'w conf \<times> unit outcome" where
  "post X c =
     send_body X ''POST'' (with_suffix (Endpoint (snd c)) (PostEndpointSuffix (snd c)))
       (Some (templatedPayload (snd c))) c"

definition patch :: "'w ext \<Rightarrow> 'w conf \<Rightarrow> 'w conf \<times> unit outcome" where
  "patch X c =
     send_body X ''PATCH''
       (with_id (with_suffix (Endpoint (snd c)) (PatchEndpointSuffix (snd c))) (snd c))
       (Some (templatedPayload (snd c))) c"

definition put :: "'w ext \<Rightarrow> 'w conf \<Rightarrow> 'w conf \<times> unit outcome" where
  "put X c =
     send_body X ''PUT''
       (with_id (with_suffix (Endpoint (snd c)) (PutEndpointSuffix (snd c))) (snd c))
       (Some (templatedPayload (snd c))) c"

definition delete_method :: "'w ext \<Rightarrow> 'w conf \<Rightarrow> 'w conf \<times> unit outcome" where
  "delete_method X c =
     send_body X ''DELETE''
       (with_id (with_suffix (Endpoint (snd c)) (DeleteEndpointSuffix (snd c))) (snd c))
       None c"

section \<open>What every operation leaves alone\<close>

text \<open>The auth map up to the cached tokens.\<close>

definition forget_token :: "auth \<Rightarrow> auth" where
  "forget_token a = a\<lparr>customToToken := map_option (\<lambda>c. c\<lparr>cfCurrentToken := []\<rparr>) (customToToken a)\<rparr>"

definition auth_view :: "'w rest \<Rightarrow> (string \<rightharpoonup> auth) option" where
  "auth_view r = map_option (\<lambda>am k. map_option forget_token (map_of am k)) (auth_map r)"

text \<open>The fields of an action that no operation writes.\<close>

definition same_config :: "Action \<Rightarrow> Action \<Rightarrow> bool" where
  "same_config a a' \<longleftrightarrow>
     a' = a\<lparr>templatedPayload := templatedPayload a', foundId := foundId a',
            aHeader := aHeader a', Variables := Variables a'\<rparr> \<and>
     (aHeader a' = None \<longleftrightarrow> aHeader a = None) \<and> (Variables a' = None \<longleftrightarrow> Variables a = None)"

text \<open>
  The contract of an operation: client, auth settings and the action's configuration stay,
  the log of calls, the environment and the runtime variables only grow.
\<close>

definition frame_rel :: "'w conf \<Rightarrow> 'w conf \<Rightarrow> bool" where
  "frame_rel c c' \<longleftrightarrow>
     client (fst c') = client (fst c) \<and>
     auth_view (fst c') = auth_view (fst c) \<and>
     dom (env (fst c)) \<subseteq> dom (env (fst c')) \<and>
     dom (map_of (runtimeVars (fst c))) \<subseteq> dom (map_of (runtimeVars (fst c'))) \<and>
     (is_map (runtimeVars (fst c)) \<longrightarrow> is_map (runtimeVars (fst c'))) \<and>
     extends (nCalls (net (fst c))) (nCalls (net (fst c'))) \<and>
     same_config (snd c) (snd c')"

lemma same_config_refl [simp]: "same_config a a"
  by (simp add: same_config_def)

lemma same_config_trans: "same_config a b \<Longrightarrow> same_config b d \<Longrightarrow> same_config a d"
  unfolding same_config_def by (cases a; cases b; cases d) simp

lemma frame_refl [simp]: "frame_rel c c"
  by (simp add: frame_rel_def)

lemma frame_trans: "frame_rel c d \<Longrightarrow> frame_rel d e \<Longrightarrow> frame_rel c e"
  unfolding frame_rel_def
  by (elim conjE, intro conjI) (simp | blast intro: extends_trans same_config_trans)+

lemma same_config_fields:
  assumes "same_config a a'"
  shows "aName a' = aName a" "Name a' = Name a" "Strategy a' = Strategy a" "Order a' = Order a"
    "Endpoint a' = Endpoint a" "GetEndpointSuffix a' = GetEndpointSuffix a"
    "PostEndpointSuffix a' = PostEndpointSuffix a" "PatchEndpointSuffix a' = PatchEndpointSuffix a"
    "PutEndpointSuffix a' = PutEndpointSuffix a" "DeleteEndpointSuffix a' = DeleteEndpointSuffix a"
    "FindByJsonPathExpr a' = FindByJsonPathExpr a" "PostIsPut a' = PostIsPut a"
    "PayloadTemplate a' = PayloadTemplate a" "PatchPayloadTemplate a' = PatchPayloadTemplate a"
    "RuntimeVars a' = RuntimeVars a" "AuthMapRef a' = AuthMapRef a" "HttpHeaders a' = HttpHeaders a"
  using assms unfolding same_config_def by (cases a; cases a'; simp)+

lemma dom_Setenv: "dom e \<subseteq> dom (Setenv k v e)"
  by (auto simp: Setenv_def)

lemma dom_set_variables: "dom e \<subseteq> dom (set_variables m e)"
proof (induction m arbitrary: e)
  case Nil
  then show ?case by (simp add: set_variables_def)
next
  case (Cons kv m)
  have "dom e \<subseteq> dom (Setenv (fst kv) (sprint (snd kv)) e)" by (rule dom_Setenv)
  also have "\<dots> \<subseteq> dom (set_variables m (Setenv (fst kv) (sprint (snd kv)) e))" by (rule Cons)
  finally show ?case by (simp add: set_variables_def split_beta)
qed

definition template_vars :: "any gomap option \<Rightarrow> 'w rest \<Rightarrow> any gomap" where
  "template_vars vars r = mput_all (copy_RuntimeVars r) (case vars of None \<Rightarrow> [] | Some m \<Rightarrow> m)"

definition template_env :: "any gomap option \<Rightarrow> 'w rest \<Rightarrow> environ" where
  "template_env vars r = set_variables (template_vars vars r) (env r)"

lemma TemplateWithVars_eq [step_simps]:
  "TemplateWithVars X t vars r =
     (r\<lparr>env := template_env vars r\<rparr>, map_option (\<lambda>_. template_vars vars r) vars,
      fst (xEnvsubst X (template_env vars r) t))"
  by (simp add: TemplateWithVars_def templatePayload_def Let_def template_vars_def template_env_def)

lemma fill_template_eq [step_simps]:
  "fill_template X t (r, a) =
     (r\<lparr>env := template_env (Variables a) r\<rparr>,
      a\<lparr>Variables := map_option (\<lambda>_. template_vars (Variables a) r) (Variables a),
        templatedPayload := fst (xEnvsubst X (template_env (Variables a) r) t)\<rparr>)"
  by (simp add: fill_template_def TemplateWithVars_eq)

lemma template_path_eq [step_simps]:
  "template_path X rq (r, a) =
     ((r\<lparr>env := template_env (Variables a) r\<rparr>,
       a\<lparr>Variables := map_option (\<lambda>_. template_vars (Variables a) r) (Variables a)\<rparr>),
      rq\<lparr>rqUrl := (rqUrl rq)\<lparr>uPath := fst (xEnvsubst X (template_env (Variables a) r) (uPath (rqUrl rq)))\<rparr>\<rparr>)"
  by (simp add: template_path_def TemplateWithVars_eq)

lemma dom_template_env: "dom (env r) \<subseteq> dom (template_env vars r)"
  unfolding template_env_def by (rule dom_set_variables)

lemma auth_view_update [simp]:
  "auth_view (r\<lparr>env := e\<rparr>) = auth_view r" "auth_view (r\<lparr>net := n\<rparr>) = auth_view r"
  "auth_view (r\<lparr>runtimeVars := v\<rparr>) = auth_view r"
  by (simp_all add: auth_view_def)

lemma fill_template_frame [frame]: "frame_rel c (fill_template X t c)"
  by (cases c) (simp add: fill_template_eq frame_rel_def same_config_def dom_template_env)

lemma template_path_frame [frame]: "frame_rel c (fst (template_path X rq c))"
  by (cases c) (simp add: template_path_eq frame_rel_def same_config_def dom_template_env)

lemma SetRuntimeVar_frame: "frame_rel (r, a) (SetRuntimeVar k v r, a)"
  by (auto simp: frame_rel_def SetRuntimeVar_def)

lemma fold_frame:
  assumes "\<And>x r. frame_rel (r, a) (f x r, a)"
  shows "frame_rel (r, a) (fold f xs r, a)"
proof (induction xs arbitrary: r)
  case Nil
  then show ?case by simp
next
  case (Cons x xs)
  from assms Cons.IH show ?case by (auto intro: frame_trans)
qed

lemma store_found_frame: "frame_rel (r, a) (store_found X resp ke r, a)"
  by (auto simp: store_found_def Let_def intro: SetRuntimeVar_frame)

lemma findRuntimeVars_frame [frame]: "frame_rel c (findRuntimeVars X resp c)"
  by (cases c) (auto simp: findRuntimeVars_def split: option.splits
      intro!: fold_frame store_found_frame)

lemma store_found_net: "net (fold (store_found X resp) m r) = net r"
  by (induction m arbitrary: r) (auto simp: store_found_def SetRuntimeVar_def Let_def)

lemma findRuntimeVars_keeps [simp]:
  "snd (findRuntimeVars X resp c) = snd c" "net (fst (findRuntimeVars X resp c)) = net (fst c)"
  by (cases c; auto simp: findRuntimeVars_def store_found_net split: option.splits)+

section \<open>The contract of the network operations\<close>

lemma Token_log:
  assumes "Token jp cl (n, c) = ((n', c'), out)"
  shows "(\<exists>calls. nCalls n' = nCalls n @ calls \<and> (\<forall>x \<in> set calls. cPurpose x = ForToken)) \<and>
    c'\<lparr>cfCurrentToken := []\<rparr> = c\<lparr>cfCurrentToken := []\<rparr>"
proof -
  obtain m o1 where x: "customTokenExchange c cl n = (m, o1)" by force
  have "\<exists>calls. nCalls m = nCalls n @ calls \<and> (\<forall>x \<in> set calls. cPurpose x = ForToken)"
    using x unfolding customTokenExchange_def andThen_def client_do_def
    by (auto split: option.splits sum.splits res.splits prod.splits if_splits)
  moreover have "n' = m" "c'\<lparr>cfCurrentToken := []\<rparr> = c\<lparr>cfCurrentToken := []\<rparr>"
    using assms x unfolding Token_def andThen_def
    by (auto split: res.splits option.splits prod.splits if_splits)
  ultimately show ?thesis by simp
qed

text \<open>The calls made for actions.\<close>

definition action_calls :: "'w conf \<Rightarrow> call list" where
  "action_calls c = filter (\<lambda>x. cPurpose x = ForAction) (nCalls (net (fst c)))"

text \<open>
  An operation that keeps the contract, makes no call for the action and has no error to
  return (a token that fails is only logged).
\<close>

definition quiet :: "'w conf \<Rightarrow> 'w conf \<times> 'a outcome \<Rightarrow> bool" where
  "quiet c m \<longleftrightarrow> frame_rel c (fst m) \<and> action_calls (fst m) = action_calls c \<and>
     (\<forall>e. snd m \<noteq> Fail e)"

lemma quiet_same [simp]: "quiet c (c, Ok x)" "quiet c (c, Panic)"
  by (simp_all add: quiet_def)

lemma quiet_header: "quiet (r, a) ((r, a\<lparr>aHeader := map_option f (aHeader a)\<rparr>), Ok x)"
  by (auto simp: quiet_def frame_rel_def same_config_def action_calls_def)

lemma quiet_set_header: "quiet (r, a) ((r, set_header k v a), Ok x)"
  by (simp add: set_header_def quiet_header)

lemma quiet_bearer: "quiet (r, a) (set_bearer r wt a)"
  by (auto simp: quiet_def set_bearer_def Let_def frame_rel_def same_config_def set_header_def
      action_calls_def split: prod.splits sum.splits)

lemma quiet_custom:
  assumes "auth_map r = Some am" "map_of am (AuthMapRef a) = Some cam" "customToToken cam = Some cfa"
  shows "quiet (r, a) (set_custom X r am cam cfa a)"
proof -
  obtain n cfa' out where t: "Token (xJSONPath X) (client r) (net r, cfa) = ((n, cfa'), out)"
    by (metis prod_cases3 surj_pair)
  from Token_log [OF t] obtain calls where calls: "nCalls n = nCalls (net r) @ calls"
    "\<forall>x \<in> set calls. cPurpose x = ForToken" and c: "cfa'\<lparr>cfCurrentToken := []\<rparr> = cfa\<lparr>cfCurrentToken := []\<rparr>"
    by auto
  have "forget_token (cam\<lparr>customToToken := Some cfa'\<rparr>) = forget_token cam"
    using assms(3) c by (simp add: forget_token_def)
  then have view: "(\<lambda>k. map_option forget_token (map_of (mput (AuthMapRef a) (cam\<lparr>customToToken := Some cfa'\<rparr>) am) k))
      = (\<lambda>k. map_option forget_token (map_of am k))"
    using assms(2) by auto
  have none: "filter (\<lambda>x. cPurpose x = ForAction) calls = []"
    using calls(2) by (simp add: filter_empty_conv)
  show ?thesis
    using assms view calls none
    by (auto simp: set_custom_def t Let_def quiet_def frame_rel_def auth_view_def
        same_config_def set_header_def extends_def action_calls_def split: res.splits)
qed

lemma quiet_setAuthHeader: "quiet c (setAuthHeader X c)"
proof (cases c)
  case c: (Pair r a)
  show ?thesis
  proof (cases "auth_map r")
    case None
    then show ?thesis by (simp add: setAuthHeader_def c)
  next
    case (Some am)
    obtain cam where cam: "(case map_of am (AuthMapRef a) of None \<Rightarrow> zero_auth | Some x \<Rightarrow> x) = cam"
      by simp
    have "map_of am (AuthMapRef a) = Some cam" if "customToToken cam = Some cfa" for cfa
      using cam that by (auto simp: zero_auth_def split: option.splits)
    then show ?thesis
      unfolding setAuthHeader_def c prod.case Some option.case Let_def cam
      using quiet_custom [OF Some]
      by (simp add: quiet_header quiet_set_header quiet_bearer split: option.split)
  qed
qed

lemmas setAuthHeader_frame [frame] = quiet_setAuthHeader [unfolded quiet_def, THEN conjunct1]
  and setAuthHeader_calls [simp] = quiet_setAuthHeader [unfolded quiet_def, THEN conjunct2, THEN conjunct1]
  and setAuthHeader_not_Fail = quiet_setAuthHeader [unfolded quiet_def, THEN conjunct2, THEN conjunct2, rule_format]

lemma handle_response_frame [frame]: "frame_rel c (fst (handle_response X d resp c))"
  by (auto simp: handle_response_def andThen_def Let_def frame
      split: res.splits body.splits)

lemma client_do_net:
  "client_do p cl rq n = (n', out) \<Longrightarrow> extends (nCalls n) (nCalls n')"
  by (auto simp: client_do_def split: option.splits prod.splits)

lemma do_send_frame [frame]: "frame_rel c (fst (do_send X d rq c))"
proof (cases c)
  case (Pair r a)
  obtain n out where d: "client_do ForAction (client r) (rq\<lparr>rqHeader := header_of a\<rparr>) (net r) = (n, out)"
    by force
  have net: "frame_rel (r, a) (r\<lparr>net := n\<rparr>, a)"
    using client_do_net [OF d] by (simp add: frame_rel_def)
  then show ?thesis
    using frame_trans [OF net handle_response_frame]
    by (auto simp: do_send_def Pair d split: res.splits)
qed

lemma do_call_frame [frame]: "frame_rel c (fst (do_call X nrq c))"
proof (cases nrq)
  case None
  then show ?thesis by (simp add: do_call_def)
next
  case (Some rq0)
  obtain c1 rq where t: "template_path X rq0 c = (c1, rq)" by (cases "template_path X rq0 c")
  have 1: "frame_rel c c1" using template_path_frame [of c X rq0] by (simp add: t)
  have "frame_rel c (fst (andThen (setAuthHeader X c1) (\<lambda>c2 _. do_send X (base_diagnostic rq (snd c2)) rq c2)))"
    by (rule andThen_rel [where R = frame_rel])
      (auto intro: frame_trans [OF 1] setAuthHeader_frame do_send_frame frame_trans)
  then show ?thesis by (simp add: do_call_def Some t)
qed

lemma get_frame [frame]: "frame_rel c (fst (get X c))"
  by (simp add: get_def do_call_frame split: sum.split)

lemma send_body_frame: "frame_rel c (fst (send_body X m e b c))"
  unfolding send_body_def Let_def
  by (rule andThen_rel [where R = frame_rel]) (auto intro: do_call_frame frame_trans)

lemma verb_frames [frame]:
  "frame_rel c (fst (post X c))" "frame_rel c (fst (patch X c))"
  "frame_rel c (fst (put X c))" "frame_rel c (fst (delete_method X c))"
  by (simp_all add: post_def patch_def put_def delete_method_def send_body_frame)

end
