(* ===== verification/Contract.thy ===== *)
theory Contract
  imports Rest
begin

text \<open>
  The abstract specification of a strategy: a plan over the answers to its calls.  A plan
  forgets headers, templates, authentication, the environment and the texts of errors; it
  says which verb is sent next, given how the last call was answered, and whether the
  strategy reports success.  \<open>run_plan\<close> checks a log against a plan.
\<close>

section \<open>Verdicts and events\<close>

text \<open>How a call was answered, as the code classifies it.\<close>

datatype verdict =
    Success string     \<comment> \<open>status up to 299, with the body\<close>
  | Rejected           \<comment> \<open>status from 300 to 499\<close>
  | ServerError        \<comment> \<open>status from 500\<close>
  | Broken             \<comment> \<open>no response, or a body that cannot be read\<close>

fun verdict_of :: "string + response \<Rightarrow> verdict" where
  "verdict_of (Inl e) = Broken"
| "verdict_of (Inr resp) =
     (case rsBody resp of
        Some (Readable s) \<Rightarrow>
          if 500 \<le> rsStatus resp then ServerError
          else if 300 \<le> rsStatus resp then Rejected else Success s
      | _ \<Rightarrow> Broken)"

type_synonym event = "string \<times> verdict"

definition event_of :: "call \<Rightarrow> event" where
  "event_of x = (rqMethod (cRequest x), verdict_of (cAnswer x))"

definition events :: "'w conf \<Rightarrow> event list" where
  "events c = map event_of (action_calls c)"

text \<open>What an error says about the answer behind it.\<close>

definition err_matches :: "go_error \<Rightarrow> verdict \<Rightarrow> bool" where
  "err_matches e v \<longleftrightarrow>
     (\<exists>d. e = Diag d \<and> (\<forall>s. v \<noteq> Success s) \<and>
          (dProceedFallback d \<longleftrightarrow> v = Rejected) \<and> (dIsFatal d \<longleftrightarrow> v = Broken))"

fun out_matches :: "'a outcome \<Rightarrow> verdict \<Rightarrow> bool" where
  "out_matches (Ok x) v \<longleftrightarrow> (\<exists>s. v = Success s)"
| "out_matches (Fail e) v \<longleftrightarrow> err_matches e v"
| "out_matches Panic v \<longleftrightarrow> v = Broken"

lemma events_quiet: "quiet c m \<Longrightarrow> events (fst m) = events c"
  by (simp add: quiet_def events_def)

lemma events_fill_template [simp]: "events (fill_template X t c) = events c"
  by (cases c) (simp add: events_def action_calls_def fill_template_eq)

lemma events_template_path [simp]: "events (fst (template_path X rq c)) = events c"
  by (cases c) (simp add: events_def action_calls_def template_path_eq)

lemma events_findRuntimeVars [simp]: "events (findRuntimeVars X s c) = events c"
  by (simp add: events_def action_calls_def)

lemma events_snd [simp]: "events (r, a) = events (r, a')"
  by (simp add: events_def action_calls_def)

section \<open>One call, one event\<close>

text \<open>The response decides outcome and verdict alike.\<close>

lemma handle_response_verdict:
  assumes "handle_response X d resp c = (c', out)" "dIsFatal d" "\<not> dProceedFallback d"
  shows "events c' = events c \<and>
    (case out of Ok s \<Rightarrow> verdict_of (Inr resp) = Success s
     | _ \<Rightarrow> out_matches out (verdict_of (Inr resp)))"
  using assms
  by (auto simp: handle_response_def body_of_def err_matches_def status_diagnostic_def diag_with Let_def
      split: option.splits body.splits if_splits)

lemma do_send_event:
  assumes "do_send X d rq c = (c', out)" "dIsFatal d" "\<not> dProceedFallback d"
  shows "(out = Panic \<and> client (fst c) = None \<and> events c' = events c) \<or>
    (\<exists>v. events c' = events c @ [(rqMethod rq, v)] \<and>
       (case out of Ok s \<Rightarrow> v = Success s | _ \<Rightarrow> out_matches out v))"
proof -
  obtain r a where c: "c = (r, a)" by force
  obtain n o1 where cd: "client_do ForAction (client r) (rq\<lparr>rqHeader := header_of a\<rparr>) (net r) = (n, o1)"
    by force
  show ?thesis
  proof (cases o1)
    case (Ok resp)
    with cd have ev: "events (r\<lparr>net := n\<rparr>, a) = events (r, a) @ [(rqMethod rq, verdict_of (Inr resp))]"
      by (auto simp: client_do_iff events_def action_calls_def event_of_def)
    have "handle_response X d resp (r\<lparr>net := n\<rparr>, a) = (c', out)"
      using assms(1) by (simp add: do_send_def c cd Ok)
    from handle_response_verdict [OF this assms(2,3)] ev show ?thesis
      by (auto simp: c simp del: verdict_of.simps)
  next
    case (Fail e)
    with cd have ev: "events (r\<lparr>net := n\<rparr>, a) = events (r, a) @ [(rqMethod rq, Broken)]"
      by (auto simp: client_do_iff events_def action_calls_def event_of_def)
    show ?thesis
      using assms ev by (auto simp: do_send_def c cd Fail network_failure_def diag_with err_matches_def)
  next
    case Panic
    with cd have "client r = None" "n = net r" by (simp_all add: client_do_iff)
    then show ?thesis using assms(1) cd by (auto simp: do_send_def c Panic)
  qed
qed

lemma do_call_event:
  assumes "do_call X (Some rq) c = (c', out)"
  shows "(out = Panic \<and> events c' = events c) \<or>
    (\<exists>v. events c' = events c @ [(rqMethod rq, v)] \<and>
       (case out of Ok s \<Rightarrow> v = Success s | _ \<Rightarrow> out_matches out v))"
proof (cases "aHeader (snd c) = None")
  case True
  with assms show ?thesis by (simp add: do_call_def)
next
  case False
  obtain c1 rq1 where t: "template_path X rq c = (c1, rq1)" by (cases "template_path X rq c")
  have ev1: "events c1 = events c" "rqMethod rq1 = rqMethod rq"
    using events_template_path [of X rq c] t by (cases c; auto simp: template_path_eq)+
  obtain c2 o2 where s: "setAuthHeader X c1 = (c2, o2)" by (cases "setAuthHeader X c1")
  have ev2: "events c2 = events c1" using events_quiet [OF quiet_setAuthHeader, of X c1] s by simp
  have d: "andThen (c2, o2) (\<lambda>c2 _. do_send X (base_diagnostic rq1 (snd c2)) rq1 c2) = (c', out)"
    using assms False by (simp add: do_call_def t s)
  show ?thesis
  proof (cases o2)
    case (Ok u)
    with d have "do_send X (base_diagnostic rq1 (snd c2)) rq1 c2 = (c', out)" by simp
    from do_send_event [OF this] ev1 ev2 show ?thesis by (auto simp: base_diagnostic_def)
  next
    case (Fail e)
    then show ?thesis using s setAuthHeader_not_Fail [of X c1 e] by simp
  next
    case Panic
    with d ev1 ev2 show ?thesis by simp
  qed
qed

section \<open>The verbs\<close>

text \<open>
  A verb with a body sends one request of its method, unless it panics; GET may also fail
  before, where its URL does not parse.
\<close>

definition one_call :: "string \<Rightarrow> 'w conf \<Rightarrow> 'w conf \<times> 'a outcome \<Rightarrow> bool" where
  "one_call m c res \<longleftrightarrow>
     (snd res = Panic \<and> events (fst res) = events c) \<or>
     (\<exists>v. events (fst res) = events c @ [(m, v)] \<and> out_matches (snd res) v)"

lemma send_body_event: "one_call m c (send_body X m e b c)"
proof (cases "new_request m e b")
  case (Inl t)
  then show ?thesis by (simp add: one_call_def send_body_def do_call_def)
next
  case (Inr rq)
  obtain c' out where d: "do_call X (Some rq) c = (c', out)" by (cases "do_call X (Some rq) c")
  have "rqMethod rq = m" using new_request_Inr [OF Inr] by simp
  with do_call_event [OF d] show ?thesis
    by (cases out) (auto simp: one_call_def send_body_def Inr d)
qed

lemma verb_events:
  "one_call ''POST'' c (post X c)" "one_call ''PATCH'' c (patch X c)"
  "one_call ''PUT'' c (put X c)" "one_call ''DELETE'' c (delete_method X c)"
  by (simp_all add: post_def patch_def put_def delete_method_def send_body_event)

definition get_url :: "Action \<Rightarrow> string" where
  "get_url a = with_suffix (Endpoint a) (GetEndpointSuffix a)"

definition get_url_ok :: "Action \<Rightarrow> bool" where
  "get_url_ok a \<longleftrightarrow> (\<exists>u. parse_url (get_url a) = Inr u)"

lemma get_event:
  assumes "get X c = (c', out)"
  shows "if get_url_ok (snd c)
    then (out = Panic \<and> events c' = events c) \<or>
      (\<exists>v. events c' = events c @ [(''GET'', v)] \<and>
         (case out of Ok s \<Rightarrow> v = Success s | _ \<Rightarrow> out_matches out v))
    else c' = c \<and> (\<exists>t. out = Fail (Plain t))"
proof (cases "new_request ''GET'' (get_url (snd c)) None")
  case (Inl t)
  then have "\<not> get_url_ok (snd c)" by (auto simp: get_url_ok_def new_request_Inl)
  with assms Inl show ?thesis by (auto simp: get_def get_url_def)
next
  case (Inr rq)
  then have ok: "get_url_ok (snd c)" and m: "rqMethod rq = ''GET''"
    using new_request_Inr [OF Inr] by (auto simp: get_url_ok_def)
  from assms Inr have "do_call X (Some rq) c = (c', out)" by (simp add: get_def get_url_def)
  from do_call_event [OF this] ok m show ?thesis by simp
qed

section \<open>Plans\<close>

datatype plan = Stop bool | Send string "verdict \<Rightarrow> plan"

text \<open>
  Checking a log against a plan: the calls are those of the plan, in its order, and at its
  end the plan says whether the strategy succeeds.
\<close>

fun run_plan :: "plan \<Rightarrow> event list \<Rightarrow> bool option" where
  "run_plan (Stop b) [] = Some b"
| "run_plan (Send m k) ((m', v) # es) = (if m = m' then run_plan (k v) es else None)"
| "run_plan _ _ = None"

text \<open>The longest run a plan allows, within a bound.\<close>

fun plan_within :: "nat \<Rightarrow> plan \<Rightarrow> bool" where
  "plan_within n (Stop b) = True"
| "plan_within 0 (Send m k) = False"
| "plan_within (Suc n) (Send m k) = (\<forall>v. plan_within n (k v))"

lemma plan_within_length: "plan_within n p \<Longrightarrow> run_plan p es = Some b \<Longrightarrow> length es \<le> n"
  by (induction p es arbitrary: n rule: run_plan.induct)
    (auto split: if_splits elim!: plan_within.elims)

definition conforms :: "plan \<Rightarrow> 'w conf \<Rightarrow> 'w conf \<times> 'a outcome \<Rightarrow> bool" where
  "conforms p c res \<longleftrightarrow>
     snd res = Panic \<or>
     (\<exists>es. events (fst res) = events c @ es \<and> run_plan p es = Some (is_ok (snd res)))"

lemma conforms_panic [simp]: "conforms p c (c', Panic)"
  by (simp add: conforms_def)

lemma conforms_stop: "events c' = events c \<Longrightarrow> conforms (Stop (is_ok out)) c (c', out)"
  by (auto simp: conforms_def intro!: exI [of _ "[]"])

text \<open>A verb at the end of a strategy.\<close>

fun finish :: "verdict \<Rightarrow> plan" where
  "finish (Success s) = Stop True"
| "finish _ = Stop False"

lemma finish_matches: "out \<noteq> Panic \<Longrightarrow> out_matches out v \<Longrightarrow> finish v = Stop (is_ok out)"
  by (cases out; cases v) (auto simp: err_matches_def)

lemma conforms_last:
  assumes "one_call m c res"
  shows "conforms (Send m finish) c res"
proof (cases "snd res = Panic")
  case True
  then show ?thesis by (simp add: conforms_def)
next
  case False
  with assms obtain v where v: "events (fst res) = events c @ [(m, v)]" "out_matches (snd res) v"
    by (auto simp: one_call_def)
  then have "run_plan (Send m finish) [(m, v)] = Some (is_ok (snd res))"
    using False by (simp add: finish_matches)
  with v show ?thesis unfolding conforms_def by blast
qed

text \<open>A verb followed by the rest of the strategy.\<close>

lemma conforms_next:
  assumes "events c1 = events c @ [(m, v)]" "conforms (k v) c1 res"
  shows "conforms (Send m k) c res"
proof (cases "snd res = Panic")
  case False
  with assms(2) obtain es where "events (fst res) = events c1 @ es"
      "run_plan (k v) es = Some (is_ok (snd res))"
    by (auto simp: conforms_def)
  then have "events (fst res) = events c @ (m, v) # es"
      "run_plan (Send m k) ((m, v) # es) = Some (is_ok (snd res))"
    using assms(1) by simp_all
  then show ?thesis unfolding conforms_def by blast
qed (simp add: conforms_def)

lemma conforms_same: "events c1 = events c \<Longrightarrow> conforms p c1 res \<longleftrightarrow> conforms p c res"
  by (simp add: conforms_def)

end
