(* ===== verification/Strategies.thy ===== *)
theory Strategies
  imports Contract
begin

text \<open>
  \<^verbatim>\<open>seeder/seederstrategies.go\<close>: the composed strategies, each a definition over the
  verbs of the theory Rest, followed by the plan it follows and the proof that it does.
\<close>

section \<open>The strategies\<close>

definition GetPost :: "'w ext \<Rightarrow> 'w conf \<Rightarrow> 'w conf \<times> unit outcome" where
  "GetPost X c0 =
     andThen (get X (fill_template X (PayloadTemplate (snd c0)) c0)) (\<lambda>c resp.
       if resp = [] then post X c else (c, Ok ()))"

text \<open>The lookup every FIND strategy makes in the response, with its error returned.\<close>

definition find_in :: "'w ext \<Rightarrow> string \<Rightarrow> 'w conf \<Rightarrow> 'w conf \<times> string outcome" where
  "find_in X resp c =
     (case FindPathByExpression X resp (FindByJsonPathExpr (snd c)) of
        (_, Some e) \<Rightarrow> (c, Fail e)
      | (found, None) \<Rightarrow> (c, Ok found))"

definition FindPost :: "'w ext \<Rightarrow> 'w conf \<Rightarrow> 'w conf \<times> unit outcome" where
  "FindPost X c0 =
     andThen (get X (fill_template X (PayloadTemplate (snd c0)) c0)) (\<lambda>c resp.
     andThen (find_in X resp c) (\<lambda>c found.
       if found \<noteq> [] \<and> PostIsPut (snd c) then post X c
       else if found = [] \<or> PostIsPut (snd c) then post X c
       else (c, Ok ())))"

definition set_foundId :: "string \<Rightarrow> 'w conf \<Rightarrow> 'w conf" where
  "set_foundId i c = (fst c, (snd c)\<lparr>foundId := i\<rparr>)"

definition FindPutPost :: "'w ext \<Rightarrow> 'w conf \<Rightarrow> 'w conf \<times> unit outcome" where
  "FindPutPost X c0 =
     andThen (get X (fill_template X (PayloadTemplate (snd c0)) c0)) (\<lambda>c resp.
     andThen (find_in X resp c) (\<lambda>c found.
       if found = [] then post X c else put X (set_foundId found c)))"

definition FindPatchPost :: "'w ext \<Rightarrow> 'w conf \<Rightarrow> 'w conf \<times> unit outcome" where
  "FindPatchPost X c0 =
     andThen (get X (fill_template X (PayloadTemplate (snd c0)) c0)) (\<lambda>c resp.
     andThen (find_in X resp c) (\<lambda>c found.
       if found = [] then post X c
       else patch X (fill_template X (PatchPayloadTemplate (snd c)) (set_foundId found c))))"

text \<open>
  \<^verbatim>\<open>errors.As(err, &diag)\<close>: an error that allows the fallback leaves the response empty.
\<close>

definition get_or_proceed :: "'w ext \<Rightarrow> 'w conf \<Rightarrow> 'w conf \<times> string outcome" where
  "get_or_proceed X c =
     (case get X c of
        (c', Fail (Diag d)) \<Rightarrow> if \<not> dProceedFallback d then (c', Fail (Diag d)) else (c', Ok [])
      | res \<Rightarrow> res)"

definition FindDeletePost :: "'w ext \<Rightarrow> 'w conf \<Rightarrow> 'w conf \<times> unit outcome" where
  "FindDeletePost X c0 =
     andThen (get_or_proceed X (fill_template X (PayloadTemplate (snd c0)) c0)) (\<lambda>c resp.
     andThen (find_in X resp c) (\<lambda>c found.
       if found \<noteq> []
       then andThen (delete_method X (set_foundId found c)) (\<lambda>c _. post X c)
       else post X c))"

definition GetPutPost :: "'w ext \<Rightarrow> 'w conf \<Rightarrow> 'w conf \<times> unit outcome" where
  "GetPutPost X c0 =
     andThen (get_or_proceed X (fill_template X (PayloadTemplate (snd c0)) c0)) (\<lambda>c resp.
       if resp = [] then post X c else put X c)"

definition Put :: "'w ext \<Rightarrow> 'w conf \<Rightarrow> 'w conf \<times> unit outcome" where
  "Put X c = put X (fill_template X (PayloadTemplate (snd c)) c)"

definition Post :: "'w ext \<Rightarrow> 'w conf \<Rightarrow> 'w conf \<times> unit outcome" where
  "Post X c = post X (fill_template X (PayloadTemplate (snd c)) c)"

text \<open>An error of PUT that is no diagnostic would be dropped.\<close>

definition PutPost :: "'w ext \<Rightarrow> 'w conf \<Rightarrow> 'w conf \<times> unit outcome" where
  "PutPost X c0 =
     (case put X (fill_template X (PayloadTemplate (snd c0)) c0) of
        (c, Fail (Diag d)) \<Rightarrow>
          if dIsFatal d \<or> \<not> dProceedFallback d then (c, Fail (Diag d)) else post X c
      | (c, Fail (Plain t)) \<Rightarrow> (c, Ok ())
      | (c, Ok u) \<Rightarrow> (c, Ok ())
      | (c, Panic) \<Rightarrow> (c, Panic))"

section \<open>Their plans\<close>

text \<open>What the code makes of a body: an error, nothing found, or a value.\<close>

definition lookup :: "'w ext \<Rightarrow> Action \<Rightarrow> string \<Rightarrow> string option" where
  "lookup X a resp =
     (case FindPathByExpression X resp (FindByJsonPathExpr a) of
        (v, None) \<Rightarrow> Some v | (_, Some e) \<Rightarrow> None)"

definition after_get :: "Action \<Rightarrow> (verdict \<Rightarrow> plan) \<Rightarrow> plan" where
  "after_get a k = (if get_url_ok a then Send ''GET'' k else Stop False)"

fun strict :: "(string \<Rightarrow> plan) \<Rightarrow> verdict \<Rightarrow> plan" where
  "strict k (Success s) = k s"
| "strict k _ = Stop False"

text \<open>A rejected GET counts as an empty answer.\<close>

fun lenient :: "(string \<Rightarrow> plan) \<Rightarrow> verdict \<Rightarrow> plan" where
  "lenient k (Success s) = k s"
| "lenient k Rejected = k []"
| "lenient k _ = Stop False"

definition found_or :: "'w ext \<Rightarrow> Action \<Rightarrow> plan \<Rightarrow> plan \<Rightarrow> string \<Rightarrow> plan" where
  "found_or X a found missing resp =
     (case lookup X a resp of None \<Rightarrow> Stop False | Some v \<Rightarrow> if v = [] then missing else found)"

fun on_rejected :: "plan \<Rightarrow> verdict \<Rightarrow> plan" where
  "on_rejected p Rejected = p"
| "on_rejected p (Success s) = Stop True"
| "on_rejected p _ = Stop False"

fun on_success :: "plan \<Rightarrow> verdict \<Rightarrow> plan" where
  "on_success p (Success s) = p"
| "on_success p _ = Stop False"

definition last_post :: plan where
  "last_post = Send ''POST'' finish"

definition plan_GetPost :: "Action \<Rightarrow> plan" where
  "plan_GetPost a = after_get a (strict (\<lambda>s. if s = [] then last_post else Stop True))"

definition plan_FindPost :: "'w ext \<Rightarrow> Action \<Rightarrow> plan" where
  "plan_FindPost X a =
     after_get a (strict (found_or X a (if PostIsPut a then last_post else Stop True) last_post))"

definition plan_FindPutPost :: "'w ext \<Rightarrow> Action \<Rightarrow> plan" where
  "plan_FindPutPost X a = after_get a (strict (found_or X a (Send ''PUT'' finish) last_post))"

definition plan_FindPatchPost :: "'w ext \<Rightarrow> Action \<Rightarrow> plan" where
  "plan_FindPatchPost X a = after_get a (strict (found_or X a (Send ''PATCH'' finish) last_post))"

definition plan_FindDeletePost :: "'w ext \<Rightarrow> Action \<Rightarrow> plan" where
  "plan_FindDeletePost X a =
     after_get a (lenient (found_or X a (Send ''DELETE'' (on_success last_post)) last_post))"

definition plan_GetPutPost :: "Action \<Rightarrow> plan" where
  "plan_GetPutPost a =
     after_get a (lenient (\<lambda>s. if s = [] then last_post else Send ''PUT'' finish))"

definition plan_PutPost :: plan where
  "plan_PutPost = Send ''PUT'' (on_rejected last_post)"

lemmas plan_defs = plan_GetPost_def plan_FindPost_def plan_FindPutPost_def plan_FindPatchPost_def
  plan_FindDeletePost_def plan_GetPutPost_def plan_PutPost_def last_post_def

section \<open>Every strategy follows its plan\<close>

definition get_filled :: "'w ext \<Rightarrow> 'w conf \<Rightarrow> 'w conf" where
  "get_filled X c = fill_template X (PayloadTemplate (snd c)) c"

lemma get_filled_events: "events (get_filled X c) = events c"
  by (simp add: get_filled_def)

lemma get_filled_frame: "frame_rel c (get_filled X c)"
  by (simp add: get_filled_def frame)

lemma frame_same_config: "frame_rel c c' \<Longrightarrow> same_config (snd c) (snd c')"
  by (simp add: frame_rel_def)

lemmas frame_fields = same_config_fields [OF frame_same_config]

lemma frame_get_url_ok: "frame_rel c c' \<Longrightarrow> get_url_ok (snd c') = get_url_ok (snd c)"
  by (simp add: get_url_ok_def get_url_def frame_fields)

lemma frame_lookup: "frame_rel c c' \<Longrightarrow> lookup X (snd c') = lookup X (snd c)"
  by (simp add: lookup_def fun_eq_iff frame_fields)

lemma conforms_done: "conforms (Stop True) c (c, Ok u)"
  by (simp add: conforms_def)

lemma conforms_fail: "conforms (Stop False) c (c, Fail e)"
  by (simp add: conforms_def)

lemma conforms_get:
  assumes "\<And>c1 s. frame_rel c c1 \<Longrightarrow> conforms (k s) c1 (f c1 s)"
  shows "conforms (after_get (snd c) (strict k)) c (andThen (get X (get_filled X c)) f)"
proof -
  obtain c1 out where g: "get X (get_filled X c) = (c1, out)" by (cases "get X (get_filled X c)")
  have fr: "frame_rel c c1"
    using frame_trans [OF get_filled_frame get_frame] g by (metis fst_conv)
  show ?thesis
  proof (cases "get_url_ok (snd c)")
    case False
    with get_event [OF g] show ?thesis
      by (auto simp: frame_get_url_ok [OF get_filled_frame] g after_get_def conforms_def
          get_filled_events intro!: exI [of _ "[]"])
  next
    case True
    from get_event [OF g] consider "out = Panic"
      | v where "events c1 = events c @ [(''GET'', v)]"
          "case out of Ok s \<Rightarrow> v = Success s | _ \<Rightarrow> out_matches out v"
      using True by (auto simp: frame_get_url_ok [OF get_filled_frame] get_filled_events)
    then show ?thesis
    proof cases
      case 1
      then show ?thesis by (simp add: g)
    next
      case 2
      have "conforms (strict k v) c1 (andThen (c1, out) f)"
        using 2(2) assms [OF fr]
        by (cases out; cases v) (auto simp: err_matches_def conforms_def)
      then show ?thesis
        using 2(1) True by (simp add: g after_get_def conforms_next)
    qed
  qed
qed

lemma get_or_proceed_frame [frame]: "frame_rel c (fst (get_or_proceed X c))"
  using get_frame [of c X]
  by (auto simp: get_or_proceed_def split: prod.splits res.splits go_error.splits)

lemma conforms_get_or_proceed:
  assumes "\<And>c1 s. frame_rel c c1 \<Longrightarrow> conforms (k s) c1 (f c1 s)"
  shows "conforms (after_get (snd c) (lenient k)) c (andThen (get_or_proceed X (get_filled X c)) f)"
proof -
  obtain c1 out where g: "get X (get_filled X c) = (c1, out)" by (cases "get X (get_filled X c)")
  have fr: "frame_rel c c1"
    using frame_trans [OF get_filled_frame get_frame] g by (metis fst_conv)
  show ?thesis
  proof (cases "get_url_ok (snd c)")
    case False
    with get_event [OF g] show ?thesis
      by (auto simp: frame_get_url_ok [OF get_filled_frame] g after_get_def conforms_def
          get_filled_events get_or_proceed_def intro!: exI [of _ "[]"])
  next
    case True
    from get_event [OF g] consider "out = Panic"
      | v where "events c1 = events c @ [(''GET'', v)]"
          "case out of Ok s \<Rightarrow> v = Success s | _ \<Rightarrow> out_matches out v"
      using True by (auto simp: frame_get_url_ok [OF get_filled_frame] get_filled_events)
    then show ?thesis
    proof cases
      case 1
      then show ?thesis by (simp add: g get_or_proceed_def)
    next
      case 2
      have "conforms (lenient k v) c1 (andThen (get_or_proceed X (get_filled X c)) f)"
        using 2(2) assms [OF fr, of "[]"] assms [OF fr] unfolding get_or_proceed_def g
        by (cases out; cases v) (auto simp: err_matches_def conforms_fail)
      then show ?thesis
        using 2(1) True by (simp add: after_get_def conforms_next)
    qed
  qed
qed

lemma conforms_find:
  assumes "\<And>v. v \<noteq> [] \<Longrightarrow> conforms found c (f c v)" "conforms missing c (f c [])"
  shows "conforms (found_or X (snd c) found missing s) c (andThen (find_in X s c) f)"
  using assms
  by (auto simp: found_or_def find_in_def lookup_def conforms_def split: prod.splits option.splits)

lemma found_or_same: "frame_rel c c' \<Longrightarrow> found_or X (snd c) = found_or X (snd c')"
  by (simp add: found_or_def fun_eq_iff frame_lookup)

lemma frame_PostIsPut: "frame_rel c c' \<Longrightarrow> PostIsPut (snd c) = PostIsPut (snd c')"
  by (simp add: frame_fields)

lemma conforms_post: "conforms last_post c (post X c)"
  unfolding last_post_def by (rule conforms_last) (rule verb_events)

lemma events_foundId [simp]: "events (set_foundId i c) = events c"
  by (simp add: set_foundId_def events_def action_calls_def)

lemma GetPost_follows: "conforms (plan_GetPost (snd c)) c (GetPost X c)"
  unfolding plan_GetPost_def GetPost_def get_filled_def [symmetric]
  by (rule conforms_get) (simp add: conforms_post conforms_done)

lemma FindPost_follows: "conforms (plan_FindPost X (snd c)) c (FindPost X c)"
  unfolding plan_FindPost_def FindPost_def get_filled_def [symmetric]
  by (rule conforms_get, subst found_or_same, assumption, rule conforms_find)
    (auto simp: conforms_post conforms_done frame_PostIsPut)

lemma FindPutPost_follows: "conforms (plan_FindPutPost X (snd c)) c (FindPutPost X c)"
  unfolding plan_FindPutPost_def FindPutPost_def get_filled_def [symmetric]
proof (rule conforms_get, subst found_or_same, assumption, rule conforms_find)
  fix c1 :: "'a conf" and v :: string assume "v \<noteq> []"
  then show "conforms (Send ''PUT'' finish) c1 (if v = [] then post X c1 else put X (set_foundId v c1))"
    using conforms_last [OF verb_events(3), of "set_foundId v c1" X]
    by (simp add: conforms_def)
qed (simp add: conforms_post)

lemma FindPatchPost_follows: "conforms (plan_FindPatchPost X (snd c)) c (FindPatchPost X c)"
  unfolding plan_FindPatchPost_def FindPatchPost_def get_filled_def [symmetric]
proof (rule conforms_get, subst found_or_same, assumption, rule conforms_find)
  fix c1 :: "'a conf" and v :: string assume "v \<noteq> []"
  let ?c = "fill_template X (PatchPayloadTemplate (snd c1)) (set_foundId v c1)"
  show "conforms (Send ''PATCH'' finish) c1 (if v = [] then post X c1 else patch X ?c)"
    using conforms_last [OF verb_events(2), of ?c X] \<open>v \<noteq> []\<close>
    by (simp add: conforms_def)
qed (simp add: conforms_post)

lemma one_call_then:
  assumes "one_call m c res" "\<And>c1. conforms p c1 (f c1 ())"
  shows "conforms (Send m (on_success p)) c (andThen res f)"
proof -
  obtain c1 out where res: "res = (c1, out)" by (cases res)
  from assms(1) consider "out = Panic"
    | v where "events c1 = events c @ [(m, v)]" "out_matches out v"
    by (auto simp: one_call_def res)
  then show ?thesis
  proof cases
    case 2
    have "conforms (on_success p v) c1 (andThen (c1, out) f)"
      using 2(2) assms(2) by (cases out; cases v) (auto simp: err_matches_def conforms_def)
    with 2(1) show ?thesis by (simp add: res conforms_next)
  qed (simp add: res)
qed

lemma FindDeletePost_follows: "conforms (plan_FindDeletePost X (snd c)) c (FindDeletePost X c)"
  unfolding plan_FindDeletePost_def FindDeletePost_def get_filled_def [symmetric]
proof (rule conforms_get_or_proceed, subst found_or_same, assumption, rule conforms_find)
  fix c1 :: "'a conf" and v :: string assume v: "v \<noteq> []"
  have "conforms (Send ''DELETE'' (on_success last_post)) (set_foundId v c1)
      (andThen (delete_method X (set_foundId v c1)) (\<lambda>c _. post X c))"
    by (rule one_call_then [OF verb_events(4)]) (rule conforms_post)
  then show "conforms (Send ''DELETE'' (on_success last_post)) c1
      (if v \<noteq> [] then andThen (delete_method X (set_foundId v c1)) (\<lambda>c _. post X c) else post X c1)"
    using v by (simp add: conforms_def)
qed (simp add: conforms_post)

lemma GetPutPost_follows: "conforms (plan_GetPutPost (snd c)) c (GetPutPost X c)"
  unfolding plan_GetPutPost_def GetPutPost_def get_filled_def [symmetric]
  by (rule conforms_get_or_proceed) (simp add: conforms_post conforms_last [OF verb_events(3)])

lemma Put_follows: "conforms (Send ''PUT'' finish) c (Put X c)"
  using conforms_last [OF verb_events(3), of "get_filled X c" X]
  by (simp add: Put_def get_filled_def conforms_def)

lemma Post_follows: "conforms last_post c (Post X c)"
  using conforms_post [of "get_filled X c" X]
  by (simp add: Post_def get_filled_def conforms_def)

lemma PutPost_follows: "conforms plan_PutPost c (PutPost X c)"
proof -
  obtain c1 out where p: "put X (get_filled X c) = (c1, out)" by (cases "put X (get_filled X c)")
  from verb_events(3) [of "get_filled X c" X] consider "out = Panic"
    | v where "events c1 = events c @ [(''PUT'', v)]" "out_matches out v"
    by (auto simp: one_call_def p get_filled_events)
  then show ?thesis
  proof cases
    case 1
    then show ?thesis by (simp add: PutPost_def get_filled_def [symmetric] p)
  next
    case 2
    have "conforms (on_rejected last_post v) c1 (PutPost X c)"
      using 2(2) conforms_post [of c1 X]
      by (cases out; cases v)
        (auto simp: PutPost_def get_filled_def [symmetric] p err_matches_def conforms_def)
    with 2(1) show ?thesis by (simp add: plan_PutPost_def conforms_next)
  qed
qed

section \<open>The contract of a strategy\<close>

text \<open>
  What the seeder relies on when it calls a strategy.  \<open>run_frame\<close>: settings stay, the log
  only grows; \<open>run_follows\<close>: the calls are those of the plan; \<open>plan_bound\<close>: no plan is longer
  than three calls.
\<close>

locale strategy =
  fixes run :: "'w ext \<Rightarrow> 'w conf \<Rightarrow> 'w conf \<times> unit outcome"
    and plan :: "'w ext \<Rightarrow> Action \<Rightarrow> plan"
  assumes run_frame: "frame_rel c (fst (run X c))"
    and run_follows: "conforms (plan X (snd c)) c (run X c)"
    and plan_bound: "plan_within 3 (plan X a)"
begin

lemma keeps_settings:
  "client (fst (fst (run X c))) = client (fst c)" "auth_view (fst (fst (run X c))) = auth_view (fst c)"
  "same_config (snd c) (snd (fst (run X c)))"
  using run_frame [of c X] by (simp_all add: frame_rel_def)

lemma call_list:
  assumes "snd (run X c) \<noteq> Panic"
  obtains es where "events (fst (run X c)) = events c @ es"
    "run_plan (plan X (snd c)) es = Some (is_ok (snd (run X c)))" "length es \<le> 3"
  using run_follows [of X c] assms plan_within_length [OF plan_bound]
  by (auto simp: conforms_def)

lemma at_most_three:
  "snd (run X c) \<noteq> Panic \<Longrightarrow> length (events (fst (run X c))) \<le> length (events c) + 3"
  by (erule call_list) simp

text \<open>What a plan allows is all there is: success is read off the log.\<close>

lemma success_iff:
  assumes "snd (run X c) \<noteq> Panic" "events (fst (run X c)) = events c @ es"
  shows "is_ok (snd (run X c)) \<longleftrightarrow> run_plan (plan X (snd c)) es = Some True"
  using assms run_follows [of X c] by (auto simp: conforms_def)

end

lemma find_in_keeps [simp]: "fst (find_in X s c) = c"
  by (auto simp: find_in_def split: prod.splits option.splits)

lemma set_foundId_frame: "frame_rel c (set_foundId i c)"
  by (cases c) (simp add: set_foundId_def frame_rel_def same_config_def)

lemma and_then_frame:
  assumes "frame_rel c (fst m)" "\<And>d x. frame_rel d (fst (f d x))"
  shows "frame_rel c (fst (andThen m f))"
  using assms by (intro andThen_rel [where R = frame_rel]) (auto intro: frame_trans)

lemma find_in_frame [frame]: "frame_rel c (fst (find_in X s c))"
  by simp

lemmas get_filled_frames = frame_trans [OF get_filled_frame get_frame]
  frame_trans [OF get_filled_frame get_or_proceed_frame]
  frame_trans [OF get_filled_frame verb_frames(1)] frame_trans [OF get_filled_frame verb_frames(3)]

lemmas found_id_frames = frame_trans [OF set_foundId_frame verb_frames(3)]
  frame_trans [OF set_foundId_frame frame_trans [OF fill_template_frame verb_frames(2)]]
  frame_trans [OF set_foundId_frame verb_frames(4)]

lemma strategy_frames:
  "frame_rel c (fst (GetPost X c))" "frame_rel c (fst (FindPost X c))"
  "frame_rel c (fst (FindPutPost X c))" "frame_rel c (fst (FindPatchPost X c))"
  "frame_rel c (fst (FindDeletePost X c))" "frame_rel c (fst (GetPutPost X c))"
  "frame_rel c (fst (Put X c))" "frame_rel c (fst (Post X c))"
  unfolding GetPost_def FindPost_def FindPutPost_def FindPatchPost_def FindDeletePost_def
    GetPutPost_def Put_def Post_def get_filled_def [symmetric]
  by (auto simp: get_filled_frames found_id_frames verb_frames find_in_frame intro!: and_then_frame)

lemma PutPost_frame: "frame_rel c (fst (PutPost X c))"
proof -
  obtain c1 out where p: "put X (get_filled X c) = (c1, out)" by (cases "put X (get_filled X c)")
  have "frame_rel c c1" using get_filled_frames(4) [of c X X] p by simp
  then show ?thesis
    using frame_trans [OF _ verb_frames(1), of c c1 X]
    by (auto simp: PutPost_def get_filled_def [symmetric] p split: res.splits go_error.splits)
qed

lemma within_after_get:
  "(\<And>v. plan_within n (k v)) \<Longrightarrow> plan_within (Suc n) (after_get a k)"
  by (simp add: after_get_def)

lemma within_strict: "(\<And>s. plan_within n (k s)) \<Longrightarrow> plan_within n (strict k v)"
  by (cases v) auto

lemma within_lenient: "(\<And>s. plan_within n (k s)) \<Longrightarrow> plan_within n (lenient k v)"
  by (cases v) auto

lemma within_found_or:
  "plan_within n f \<Longrightarrow> plan_within n m \<Longrightarrow> plan_within n (found_or X a f m s)"
  by (simp add: found_or_def split: option.split)

lemma within_finish [simp]: "plan_within n (finish v)"
  by (cases v) auto

lemma within_on: "plan_within n p \<Longrightarrow> plan_within n (on_success p v)"
    "plan_within n p \<Longrightarrow> plan_within n (on_rejected p v)"
  by (cases v; simp)+

lemma plans_within:
  "plan_within 3 (plan_GetPost a)" "plan_within 3 (plan_FindPost X a)"
  "plan_within 3 (plan_FindPutPost X a)" "plan_within 3 (plan_FindPatchPost X a)"
  "plan_within 3 (plan_FindDeletePost X a)" "plan_within 3 (plan_GetPutPost a)"
  "plan_within 3 (Send ''PUT'' finish)" "plan_within 3 last_post" "plan_within 3 plan_PutPost"
  unfolding plan_defs numeral_3_eq_3
  by (auto intro!: within_after_get within_strict within_lenient within_found_or within_on)

interpretation get_post: strategy GetPost "\<lambda>X. plan_GetPost"
  by unfold_locales (rule strategy_frames GetPost_follows plans_within)+

interpretation find_post: strategy FindPost plan_FindPost
  by unfold_locales (rule strategy_frames FindPost_follows plans_within)+

interpretation find_put_post: strategy FindPutPost plan_FindPutPost
  by unfold_locales (rule strategy_frames FindPutPost_follows plans_within)+

interpretation find_patch_post: strategy FindPatchPost plan_FindPatchPost
  by unfold_locales (rule strategy_frames FindPatchPost_follows plans_within)+

interpretation find_delete_post: strategy FindDeletePost plan_FindDeletePost
  by unfold_locales (rule strategy_frames FindDeletePost_follows plans_within)+

interpretation get_put_post: strategy GetPutPost "\<lambda>X. plan_GetPutPost"
  by unfold_locales (rule strategy_frames GetPutPost_follows plans_within)+

interpretation put_only: strategy Put "\<lambda>X a. Send ''PUT'' finish"
  by unfold_locales (rule strategy_frames Put_follows plans_within)+

interpretation post_only: strategy Post "\<lambda>X a. last_post"
  by unfold_locales (rule strategy_frames Post_follows plans_within)+

interpretation put_post: strategy PutPost "\<lambda>X a. plan_PutPost"
  by unfold_locales (rule PutPost_frame PutPost_follows plans_within)+

end
