(* ===== verification/Readiness.thy ===== *)
theory Readiness
  imports Strategies
begin

text \<open>
  When the code follows no nil pointer.  \<open>ready\<close> collects what a seeder must have: a client
  whose responses have a body (which \<^verbatim>\<open>net/http\<close> documents), an auth entry with the
  credential of its type and token sources that answer, a header, and URLs that parse,
  with whatever id a lookup can find in them.
\<close>

section \<open>The conditions\<close>

definition client_ready :: "'w rest \<Rightarrow> bool" where
  "client_ready r \<longleftrightarrow>
     (\<exists>f. client r = Some f \<and> (\<forall>w rq w' resp. f w rq = (w', Inr resp) \<longrightarrow> rsBody resp \<noteq> None))"

definition auth_entry :: "'w rest \<Rightarrow> Action \<Rightarrow> auth option" where
  "auth_entry r a =
     map_option (\<lambda>m. case m (AuthMapRef a) of None \<Rightarrow> zero_auth | Some x \<Rightarrow> x) (auth_view r)"

definition entry_ready :: "'w ext \<Rightarrow> auth \<Rightarrow> bool" where
  "entry_ready X e \<longleftrightarrow>
     (authStrategy e = Basic \<longrightarrow> basicCred e \<noteq> None) \<and>
     (authStrategy e = StaticToken \<longrightarrow> staticCred e \<noteq> None) \<and>
     (authStrategy e = OAuth \<longrightarrow>
        (\<exists>cc. oAuthConfig e = Some cc \<and> (\<forall>w. \<exists>t. snd (xClientToken X w cc) = Inr t))) \<and>
     (authStrategy e = OAuthPassword \<longrightarrow>
        (\<exists>pg. passwordGrant e = Some pg \<and>
           (\<forall>w. \<exists>t. snd (xPasswordToken X w (oauthPassCredsConfig pg)
              (resourceOwnerUser pg) (resourceOwnerPass pg)) = Inr t))) \<and>
     (authStrategy e = CustomToToken \<longrightarrow>
        (\<exists>cf u. customToToken e = Some cf \<and> parse_url (cfAuthUrl cf) = Inr u))"

definition can_call :: "'w ext \<Rightarrow> 'w conf \<Rightarrow> bool" where
  "can_call X c \<longleftrightarrow>
     client_ready (fst c) \<and> aHeader (snd c) \<noteq> None \<and>
     (\<exists>e. auth_entry (fst c) (snd c) = Some e \<and> entry_ready X e)"

definition url_ok :: "string \<Rightarrow> bool" where
  "url_ok e \<longleftrightarrow> (\<exists>u. parse_url e = Inr u)"

definition post_url :: "Action \<Rightarrow> string" where
  "post_url a = with_suffix (Endpoint a) (PostEndpointSuffix a)"

definition put_url :: "Action \<Rightarrow> string" where
  "put_url a = with_id (with_suffix (Endpoint a) (PutEndpointSuffix a)) a"

definition patch_url :: "Action \<Rightarrow> string" where
  "patch_url a = with_id (with_suffix (Endpoint a) (PatchEndpointSuffix a)) a"

definition delete_url :: "Action \<Rightarrow> string" where
  "delete_url a = with_id (with_suffix (Endpoint a) (DeleteEndpointSuffix a)) a"

definition id_ok :: "Action \<Rightarrow> string \<Rightarrow> bool" where
  "id_ok a i \<longleftrightarrow>
     url_ok (put_url (a\<lparr>foundId := i\<rparr>)) \<and> url_ok (patch_url (a\<lparr>foundId := i\<rparr>)) \<and>
     url_ok (delete_url (a\<lparr>foundId := i\<rparr>))"

definition ready :: "'w ext \<Rightarrow> 'w conf \<Rightarrow> bool" where
  "ready X c \<longleftrightarrow>
     can_call X c \<and> url_ok (post_url (snd c)) \<and> id_ok (snd c) (foundId (snd c)) \<and>
     (\<forall>s i. lookup X (snd c) s = Some i \<longrightarrow> id_ok (snd c) i)"

lemma frame_auth_entry: "frame_rel c c' \<Longrightarrow> auth_entry (fst c') (snd c') = auth_entry (fst c) (snd c)"
  by (simp add: auth_entry_def frame_fields) (simp add: frame_rel_def)

lemma frame_can_call: "frame_rel c c' \<Longrightarrow> can_call X c \<Longrightarrow> can_call X c'"
  unfolding can_call_def frame_auth_entry
  by (auto simp: frame_rel_def client_ready_def same_config_def)

lemma frame_urls:
  assumes "frame_rel c c'"
  shows "post_url (snd c') = post_url (snd c)" "id_ok (snd c') = id_ok (snd c)"
  using frame_fields [OF assms]
  by (auto simp: post_url_def id_ok_def put_url_def patch_url_def delete_url_def with_id_def fun_eq_iff)

section \<open>Calls follow no nil pointer\<close>

lemma exchange_no_panic:
  assumes "cl = Some f" "\<forall>w rq w' resp. f w rq = (w', Inr resp) \<longrightarrow> rsBody resp \<noteq> None"
    "parse_url (cfAuthUrl am) = Inr u"
  shows "snd (customTokenExchange am cl n) \<noteq> Panic"
proof -
  have "snd (client_do ForToken cl rq n) \<noteq> Panic"
    "client_do ForToken cl rq n = (n', Ok resp) \<Longrightarrow> rsBody resp \<noteq> None" for rq n' resp
    using assms(1,2) by (auto simp: client_do_def split: sum.splits prod.splits)
  then show ?thesis
    using assms(3) by (auto simp: customTokenExchange_def new_request_Inl snd_andThen_Panic_iff
        body_of_iff read_all_iff split: option.splits sum.splits if_splits)
qed

lemma Token_no_panic:
  assumes "cl = Some f" "\<forall>w rq w' resp. f w rq = (w', Inr resp) \<longrightarrow> rsBody resp \<noteq> None"
    "parse_url (cfAuthUrl cf) = Inr u"
  shows "snd (Token jp cl (n, cf)) \<noteq> Panic"
  using exchange_no_panic [OF assms, of n]
  by (auto simp: Token_def snd_andThen_Panic_iff split: prod.splits option.splits)

lemma setAuthHeader_no_panic:
  assumes "can_call X c"
  shows "snd (setAuthHeader X c) \<noteq> Panic"
proof -
  obtain r a where c: "c = (r, a)" by force
  from assms obtain am where am: "auth_map r = Some am"
    by (auto simp: can_call_def c auth_entry_def auth_view_def)
  obtain cam where cam: "(case map_of am (AuthMapRef a) of None \<Rightarrow> zero_auth | Some x \<Rightarrow> x) = cam"
    by simp
  have e: "auth_entry r a = Some (forget_token cam)"
    using cam by (auto simp: auth_entry_def auth_view_def am forget_token_def zero_auth_def split: option.splits)
  with assms have rd: "entry_ready X (forget_token cam)" "client_ready r"
    by (simp_all add: can_call_def c)
  then obtain f where f: "client r = Some f"
      "\<forall>w rq w' resp. f w rq = (w', Inr resp) \<longrightarrow> rsBody resp \<noteq> None"
    by (auto simp: client_ready_def)
  have bearer: "snd (set_bearer r wt a) \<noteq> Panic" if "snd wt = Inr t" for wt t
    using that by (cases wt) (simp add: set_bearer_def Let_def)
  have custom: "snd (set_custom X r am cam cf a) \<noteq> Panic" if "parse_url (cfAuthUrl cf) = Inr u" for cf u
    using Token_no_panic [OF f that, of "xJSONPath X" "net r"] f(1)
    by (auto simp: set_custom_def Let_def split: prod.splits res.splits)
  have basic: "authStrategy cam = Basic \<longrightarrow> basicCred cam \<noteq> None"
    "authStrategy cam = StaticToken \<longrightarrow> staticCred cam \<noteq> None"
    using rd(1) by (simp_all add: entry_ready_def forget_token_def)
  have oauth: "authStrategy cam = OAuth \<longrightarrow>
      (\<exists>cc. oAuthConfig cam = Some cc \<and> (\<forall>w. snd (set_bearer r (xClientToken X w cc) a) \<noteq> Panic))"
    using rd(1) bearer unfolding entry_ready_def forget_token_def by simp metis
  have pass: "authStrategy cam = OAuthPassword \<longrightarrow>
      (\<exists>pg. passwordGrant cam = Some pg \<and>
         (\<forall>w. snd (set_bearer r (xPasswordToken X w (oauthPassCredsConfig pg)
           (resourceOwnerUser pg) (resourceOwnerPass pg)) a) \<noteq> Panic))"
    using rd(1) bearer unfolding entry_ready_def forget_token_def by simp metis
  have flow: "authStrategy cam = CustomToToken \<longrightarrow>
      (\<exists>cf. customToToken cam = Some cf \<and> snd (set_custom X r am cam cf a) \<noteq> Panic)"
    using rd(1) custom by (auto simp: entry_ready_def forget_token_def)
  note step = setAuthHeader_def c prod.case am option.case Let_def cam
  consider "authStrategy cam = Basic" | "authStrategy cam = OAuth" | "authStrategy cam = OAuthPassword"
    | "authStrategy cam = CustomToToken" | "authStrategy cam = StaticToken"
    | "authStrategy cam \<notin> {Basic, OAuth, OAuthPassword, CustomToToken, StaticToken}" by blast
  then show ?thesis
  proof cases
    case 1
    with basic(1) show ?thesis unfolding step by auto
  next
    case 2
    with oauth obtain cc where "oAuthConfig cam = Some cc"
      "\<forall>w. snd (set_bearer r (xClientToken X w cc) a) \<noteq> Panic" by blast
    with 2 show ?thesis unfolding step by (simp add: auth_types)
  next
    case 3
    with pass obtain pg where "passwordGrant cam = Some pg"
      "\<forall>w. snd (set_bearer r (xPasswordToken X w (oauthPassCredsConfig pg)
           (resourceOwnerUser pg) (resourceOwnerPass pg)) a) \<noteq> Panic" by blast
    with 3 show ?thesis unfolding step by (simp add: auth_types)
  next
    case 4
    with flow obtain cf where "customToToken cam = Some cf" "snd (set_custom X r am cam cf a) \<noteq> Panic"
      by blast
    with 4 show ?thesis unfolding step by (simp add: auth_types)
  next
    case 5
    with basic(2) show ?thesis unfolding step by (auto simp: auth_types)
  next
    case 6
    then show ?thesis unfolding step by simp
  qed
qed

lemma do_call_no_panic:
  assumes "can_call X c"
  shows "snd (do_call X (Some rq) c) \<noteq> Panic"
proof -
  obtain c1 rq1 where t: "template_path X rq c = (c1, rq1)" by (cases "template_path X rq c")
  have c1: "can_call X c1"
    using frame_can_call [OF template_path_frame assms, of X rq] t by simp
  have "snd (do_send X d rq1 c2) \<noteq> Panic" if "can_call X c2" for c2 d
    using that by (cases c2) (auto simp: can_call_def client_ready_def do_send_def client_do_def
        handle_response_def snd_andThen_Panic_iff body_of_iff Let_def
        split: sum.splits prod.splits option.splits body.splits)
  moreover have "can_call X c2" if "setAuthHeader X c1 = (c2, Ok u)" for c2 u
    using frame_can_call [OF setAuthHeader_frame c1, of X] that by simp
  moreover have "aHeader (snd c) \<noteq> None" using assms by (simp add: can_call_def)
  ultimately show ?thesis
    using setAuthHeader_no_panic [OF c1] by (auto simp: do_call_def t snd_andThen_Panic_iff)
qed

lemma get_no_panic: "can_call X c \<Longrightarrow> snd (get X c) \<noteq> Panic"
  by (simp add: get_def do_call_no_panic split: sum.split)

lemma send_body_no_panic:
  assumes "can_call X c" "url_ok e"
  shows "snd (send_body X m e b c) \<noteq> Panic"
  using assms do_call_no_panic [OF assms(1)]
  by (auto simp: send_body_def url_ok_def snd_andThen_Panic_iff new_request_Inl split: sum.splits)

lemma verbs_no_panic:
  assumes "can_call X c"
  shows "url_ok (post_url (snd c)) \<Longrightarrow> snd (post X c) \<noteq> Panic"
    "url_ok (put_url (snd c)) \<Longrightarrow> snd (put X c) \<noteq> Panic"
    "url_ok (patch_url (snd c)) \<Longrightarrow> snd (patch X c) \<noteq> Panic"
    "url_ok (delete_url (snd c)) \<Longrightarrow> snd (delete_method X c) \<noteq> Panic"
  by (simp_all add: post_def put_def patch_def delete_method_def send_body_no_panic assms
      post_url_def put_url_def patch_url_def delete_url_def)

section \<open>Strategies follow no nil pointer\<close>

text \<open>A call leaves the id of its action alone.\<close>

definition keeps_id :: "'w conf \<Rightarrow> 'w conf \<times> 'a outcome \<Rightarrow> bool" where
  "keeps_id c m \<longleftrightarrow> foundId (snd (fst m)) = foundId (snd c)"

lemma keeps_id_parts:
  "keeps_id (r, a) ((r', a), out)" "keeps_id (r, a) ((r', a\<lparr>aHeader := h\<rparr>), out)"
  "keeps_id (r, a) ((r', set_header k v a), out)" "keeps_id (r, a) (set_bearer r wt a)"
  "keeps_id (r, a) (set_custom X r am cam cf a)"
  by (auto simp: keeps_id_def set_bearer_def set_custom_def set_header_def Let_def
      split: prod.splits sum.splits res.splits)

lemma setAuthHeader_keeps_id: "foundId (snd (fst (setAuthHeader X c))) = foundId (snd c)"
proof -
  obtain r a where c: "c = (r, a)" by force
  have "keeps_id (r, a) (setAuthHeader X (r, a))"
  proof (cases "auth_map r")
    case (Some am)
    obtain cam where cam: "(case map_of am (AuthMapRef a) of None \<Rightarrow> zero_auth | Some x \<Rightarrow> x) = cam"
      by simp
    show ?thesis
      unfolding setAuthHeader_def prod.case Some option.case Let_def cam
      by (simp add: keeps_id_parts split: option.split)
  qed (simp add: setAuthHeader_def keeps_id_parts)
  then show ?thesis by (simp add: keeps_id_def c)
qed

lemma do_send_keeps [simp]: "snd (fst (do_send X d rq c)) = snd c"
  by (cases c) (auto simp: do_send_def handle_response_def andThen_def Let_def
      split: prod.splits res.splits body.splits)

lemma do_call_keeps_id: "foundId (snd (fst (do_call X nrq c))) = foundId (snd c)"
proof (cases nrq)
  case (Some rq)
  obtain c1 rq1 where t: "template_path X rq c = (c1, rq1)" by (cases "template_path X rq c")
  have "foundId (snd c1) = foundId (snd c)" using t by (cases c) (auto simp: template_path_eq)
  moreover obtain c2 out where s: "setAuthHeader X c1 = (c2, out)" by (cases "setAuthHeader X c1")
  moreover have "foundId (snd c2) = foundId (snd c1)" using setAuthHeader_keeps_id [of X c1] s by simp
  ultimately show ?thesis by (cases out) (simp_all add: do_call_def Some t)
qed (simp add: do_call_def)

lemma get_keeps_id: "foundId (snd (fst (get X c))) = foundId (snd c)"
  by (simp add: get_def do_call_keeps_id split: sum.split)

lemma get_or_proceed_get: "get_or_proceed X c = (c', Ok s) \<Longrightarrow> c' = fst (get X c)"
  by (auto simp: get_or_proceed_def split: prod.splits res.splits go_error.splits if_splits)

lemma get_or_proceed_panic: "snd (get_or_proceed X c) = Panic \<longleftrightarrow> snd (get X c) = Panic"
  by (auto simp: get_or_proceed_def split: prod.splits res.splits go_error.splits)

lemma get_filled_id [simp]: "foundId (snd (get_filled X c)) = foundId (snd c)"
  by (cases c) (simp add: get_filled_def fill_template_eq)

lemma find_in_Ok: "find_in X s c = (c', Ok i) \<longleftrightarrow> c' = c \<and> lookup X (snd c) s = Some i"
  by (auto simp: find_in_def lookup_def split: prod.splits option.splits)

lemma find_in_no_panic [simp]: "snd (find_in X s c) \<noteq> Panic"
  by (auto simp: find_in_def split: prod.splits option.splits)

text \<open>Where a call of a ready action ends, posting is possible and any id found fits.\<close>

lemma ready_later:
  assumes "ready X c" "frame_rel c c'"
  shows "can_call X c'" "url_ok (post_url (snd c'))"
    "lookup X (snd c') s = Some i \<Longrightarrow> id_ok (snd c') i"
  using assms frame_can_call [OF assms(2)] frame_urls [OF assms(2)]
    frame_lookup [OF assms(2), where X = X]
  by (auto simp: ready_def)

lemma ready_post: "ready X c \<Longrightarrow> frame_rel c c' \<Longrightarrow> snd (post X c') \<noteq> Panic"
  by (intro verbs_no_panic(1) ready_later(1,2))

lemma ready_found:
  assumes "ready X c" "frame_rel c c'" "lookup X (snd c') s = Some i"
  shows "snd (put X (set_foundId i c')) \<noteq> Panic" "snd (delete_method X (set_foundId i c')) \<noteq> Panic"
    "snd (patch X (fill_template X t (set_foundId i c'))) \<noteq> Panic"
proof -
  have id: "id_ok (snd c') i" by (rule ready_later(3) [OF assms])
  have call: "can_call X (set_foundId i c')" "can_call X (fill_template X t (set_foundId i c'))"
    using ready_later(1) [OF assms(1)] assms(2)
      frame_trans [OF assms(2) set_foundId_frame] frame_trans [OF frame_trans [OF assms(2) set_foundId_frame] fill_template_frame]
    by blast+
  have "patch_url (snd (fill_template X t (set_foundId i c'))) = patch_url ((snd c')\<lparr>foundId := i\<rparr>)"
    by (cases c') (simp add: fill_template_eq set_foundId_def patch_url_def with_id_def)
  then show "snd (patch X (fill_template X t (set_foundId i c'))) \<noteq> Panic"
    using id by (intro verbs_no_panic(3) call) (simp add: id_ok_def)
  show "snd (put X (set_foundId i c')) \<noteq> Panic" "snd (delete_method X (set_foundId i c')) \<noteq> Panic"
    using verbs_no_panic(2,4) [OF call(1)] id by (simp_all add: id_ok_def set_foundId_def)
qed

lemma after_get_frame:
  "get X (get_filled X c) = (c', out) \<Longrightarrow> frame_rel c c'"
  "get_or_proceed X (get_filled X c) = (c', out) \<Longrightarrow> frame_rel c c'"
  using get_filled_frames(1,2) [of c X X] by simp_all

lemma ready_get: "ready X c \<Longrightarrow> snd (get X (get_filled X c)) \<noteq> Panic"
  by (intro get_no_panic ready_later(1) [OF _ get_filled_frame])

lemma ready_own_put:
  assumes "ready X c" "frame_rel c c'" "foundId (snd c') = foundId (snd c)"
  shows "snd (put X c') \<noteq> Panic"
proof -
  have "id_ok (snd c') (foundId (snd c'))"
    using assms(1,3) frame_urls(2) [OF assms(2)] by (simp add: ready_def)
  then show ?thesis using ready_later(1) [OF assms(1,2)] by (intro verbs_no_panic(2)) (simp_all add: id_ok_def)
qed

lemma strategies_no_panic:
  assumes "ready X c"
  shows "snd (GetPost X c) \<noteq> Panic" "snd (FindPost X c) \<noteq> Panic" "snd (FindPutPost X c) \<noteq> Panic"
    "snd (FindPatchPost X c) \<noteq> Panic" "snd (FindDeletePost X c) \<noteq> Panic" "snd (GetPutPost X c) \<noteq> Panic"
    "snd (Put X c) \<noteq> Panic" "snd (Post X c) \<noteq> Panic" "snd (PutPost X c) \<noteq> Panic"
proof -
  have g: "snd (get X (get_filled X c)) \<noteq> Panic" by (rule ready_get [OF assms])
  note d = get_filled_def [symmetric] snd_andThen_Panic_iff find_in_Ok
  note p = ready_post [OF assms after_get_frame(1)] ready_post [OF assms after_get_frame(2)]
  note f = ready_found [OF assms after_get_frame(1)] ready_found [OF assms after_get_frame(2)]
  show "snd (GetPost X c) \<noteq> Panic"
    unfolding GetPost_def d using g p(1) by auto
  show "snd (FindPost X c) \<noteq> Panic"
    unfolding FindPost_def d using g p(1) by auto
  show "snd (FindPutPost X c) \<noteq> Panic"
    unfolding FindPutPost_def d using g p(1) f(1) by auto
  show "snd (FindPatchPost X c) \<noteq> Panic"
    unfolding FindPatchPost_def d using g p(1) f(3) by auto
  show "snd (FindDeletePost X c) \<noteq> Panic"
  proof -
    have "snd (post X c2) \<noteq> Panic"
      if "frame_rel c c1" "delete_method X (set_foundId i c1) = (c2, Ok u)" for c1 c2 i u
      using ready_post [OF assms frame_trans [OF that(1) found_id_frames(3), of X i]] that(2) by simp
    from this [OF after_get_frame(2)] show ?thesis
      unfolding FindDeletePost_def d get_or_proceed_panic
      using g p(2) f(5) by (auto simp: snd_andThen_Panic_iff)
  qed
  show "snd (GetPutPost X c) \<noteq> Panic"
  proof -
    have "snd (put X c1) \<noteq> Panic" if g: "get_or_proceed X (get_filled X c) = (c1, Ok s)" for c1 s
      using ready_own_put [OF assms after_get_frame(2) [OF g]] get_or_proceed_get [OF g]
      by (simp add: get_keeps_id)
    then show ?thesis
      unfolding GetPutPost_def d get_or_proceed_panic using g p(2) by auto
  qed
  show "snd (Put X c) \<noteq> Panic"
    unfolding Put_def d by (rule ready_own_put [OF assms get_filled_frame]) simp
  show "snd (Post X c) \<noteq> Panic"
    unfolding Post_def d by (rule ready_post [OF assms get_filled_frame])
  show "snd (PutPost X c) \<noteq> Panic"
  proof -
    obtain c1 out where q: "put X (get_filled X c) = (c1, out)" by (cases "put X (get_filled X c)")
    have "out \<noteq> Panic" using ready_own_put [OF assms get_filled_frame, of X] q by simp
    moreover have "frame_rel c c1" using get_filled_frames(4) [of c X X] q by simp
    ultimately show ?thesis
      using ready_post [OF assms] by (auto simp: PutPost_def get_filled_def [symmetric] q split: res.splits go_error.splits)
  qed
qed

text \<open>The contract of a strategy, for actions that are ready.\<close>

locale safe_strategy = strategy +
  assumes no_panic: "ready X c \<Longrightarrow> snd (run X c) \<noteq> Panic"
begin

lemma total:
  assumes "ready X c"
  obtains es where "events (fst (run X c)) = events c @ es"
    "run_plan (plan X (snd c)) es = Some (is_ok (snd (run X c)))" "length es \<le> 3"
  by (rule call_list [OF no_panic [OF assms]])

end

interpretation get_post: safe_strategy GetPost "\<lambda>X. plan_GetPost"
  by unfold_locales (rule strategies_no_panic)

interpretation find_post: safe_strategy FindPost plan_FindPost
  by unfold_locales (rule strategies_no_panic)

interpretation find_put_post: safe_strategy FindPutPost plan_FindPutPost
  by unfold_locales (rule strategies_no_panic)

interpretation find_patch_post: safe_strategy FindPatchPost plan_FindPatchPost
  by unfold_locales (rule strategies_no_panic)

interpretation find_delete_post: safe_strategy FindDeletePost plan_FindDeletePost
  by unfold_locales (rule strategies_no_panic)

interpretation get_put_post: safe_strategy GetPutPost "\<lambda>X. plan_GetPutPost"
  by unfold_locales (rule strategies_no_panic)

interpretation put_only: safe_strategy Put "\<lambda>X a. Send ''PUT'' finish"
  by unfold_locales (rule strategies_no_panic)

interpretation post_only: safe_strategy Post "\<lambda>X a. last_post"
  by unfold_locales (rule strategies_no_panic)

interpretation put_post: safe_strategy PutPost "\<lambda>X a. plan_PutPost"
  by unfold_locales (rule strategies_no_panic)

end
