(* ===== verification/Seeder.thy ===== *)
theory Seeder
  imports Readiness
begin

text \<open>
  \<^verbatim>\<open>seeder/seeder.go\<close>: \<^verbatim>\<open>StrategyRestSeeder\<close>, which sorts the actions, runs each with the
  strategy it names, and gathers the errors.

  Third-party and run-time parts are the record \<open>('w, 'o) lib\<close>: the REST parameters, the
  default HTTP client, \<^verbatim>\<open>configmanager.RetrieveMarshalledJson\<close> at its two types (the manager
  may reach over the network, so the world is threaded through), and the part of
  \<^verbatim>\<open>slices.SortFunc\<close> for more than twelve elements, whose documentation promises a sorted
  permutation and nothing about equal elements.  \<open>'o\<close> is \<^verbatim>\<open>generator.GenVarsConfig\<close>.
\<close>

section \<open>Strategy names\<close>

definition GET_POST :: string where "GET_POST = ''GET/POST''"
definition FIND_POST :: string where "FIND_POST = ''FIND/POST''"
definition PUT_POST :: string where "PUT_POST = ''PUT/POST''"
definition GET_PUT_POST :: string where "GET_PUT_POST = ''GET/PUT/POST''"
definition FIND_PUT_POST :: string where "FIND_PUT_POST = ''FIND/PUT/POST''"
definition FIND_PATCH_POST :: string where "FIND_PATCH_POST = ''FIND/PATCH/POST''"
definition FIND_DELETE :: string where "FIND_DELETE = ''FIND/DELETE''"
definition FIND_DELETE_POST :: string where "FIND_DELETE_POST = ''FIND/DELETE/POST''"
definition PUT :: string where "PUT = ''PUT''"
definition POST :: string where "POST = ''POST''"

lemmas strategy_types = GET_POST_def FIND_POST_def PUT_POST_def GET_PUT_POST_def FIND_PUT_POST_def
  FIND_PATCH_POST_def FIND_DELETE_def FIND_DELETE_POST_def PUT_def POST_def

type_synonym 'w StrategyFunc = "'w ext \<Rightarrow> 'w conf \<Rightarrow> 'w conf \<times> unit outcome"

definition PutStrategyFunc :: "'w StrategyFunc" where "PutStrategyFunc X c = Put X c"
definition PostStrategyFunc :: "'w StrategyFunc" where "PostStrategyFunc X c = Post X c"
definition PutPostStrategyFunc :: "'w StrategyFunc" where "PutPostStrategyFunc X c = PutPost X c"

definition FindPutPostStrategyFunc :: "'w StrategyFunc" where
  "FindPutPostStrategyFunc X c = FindPutPost X c"

definition FindPatchPostStrategyFunc :: "'w StrategyFunc" where
  "FindPatchPostStrategyFunc X c = FindPatchPost X c"

definition GetPutPostStrategyFunc :: "'w StrategyFunc" where
  "GetPutPostStrategyFunc X c = GetPutPost X c"

definition FindDeletePostStrategyFunc :: "'w StrategyFunc" where
  "FindDeletePostStrategyFunc X c = FindDeletePost X c"

definition FindPostStrategyFunc :: "'w StrategyFunc" where "FindPostStrategyFunc X c = FindPost X c"
definition GetPostStrategyFunc :: "'w StrategyFunc" where "GetPostStrategyFunc X c = GetPost X c"

lemma strategy_funcs:
  "PutStrategyFunc = Put" "PostStrategyFunc = Post" "PutPostStrategyFunc = PutPost"
  "FindPutPostStrategyFunc = FindPutPost" "FindPatchPostStrategyFunc = FindPatchPost"
  "GetPutPostStrategyFunc = GetPutPost" "FindDeletePostStrategyFunc = FindDeletePost"
  "FindPostStrategyFunc = FindPost" "GetPostStrategyFunc = GetPost"
  by (intro ext, simp add: PutStrategyFunc_def PostStrategyFunc_def PutPostStrategyFunc_def
      FindPutPostStrategyFunc_def FindPatchPostStrategyFunc_def GetPutPostStrategyFunc_def
      FindDeletePostStrategyFunc_def FindPostStrategyFunc_def GetPostStrategyFunc_def)+

section \<open>The seeder\<close>

record Options =
  FailFast :: bool

type_synonym ('w, 'o) CMRetrieve = "'w \<Rightarrow> string \<Rightarrow> 'o \<Rightarrow> 'w \<times> (string + string)"

record ('w, 'o) lib =
  xRest :: "'w ext"
  xHttpClient :: "'w client"
  xAuthJson :: "('w, 'o) CMRetrieve \<Rightarrow> 'o \<Rightarrow> 'w \<Rightarrow> AuthMap \<Rightarrow> 'w \<times> (string + AuthMap)"
  xActionJson :: "('w, 'o) CMRetrieve \<Rightarrow> 'o \<Rightarrow> 'w \<Rightarrow> Action \<Rightarrow> 'w \<times> (string + Action)"
  xLongSort :: "(Action \<Rightarrow> Action \<Rightarrow> int) \<Rightarrow> Action list \<Rightarrow> Action list"

record ('w, 'o) StrategyRestSeeder =
  sStrategy :: "'w StrategyFunc gomap"
  configManagerOptions :: "'o option"
  configManager :: "('w, 'o) CMRetrieve option"
  rest :: "'w rest"
  actions :: "Action list"
  authInstructions :: AuthMap
  sOptions :: Options

definition strategy_table :: "'w StrategyFunc gomap" where
  "strategy_table =
     [(PUT, PutStrategyFunc), (POST, PostStrategyFunc), (PUT_POST, PutPostStrategyFunc),
      (GET_PUT_POST, GetPutPostStrategyFunc), (FIND_PUT_POST, FindPutPostStrategyFunc),
      (FIND_POST, FindPostStrategyFunc), (GET_POST, GetPostStrategyFunc),
      (FIND_DELETE_POST, FindDeletePostStrategyFunc), (FIND_PATCH_POST, FindPatchPostStrategyFunc)]"

definition New :: "('w, 'o) lib \<Rightarrow> 'w net \<Rightarrow> environ \<Rightarrow> ('w, 'o) StrategyRestSeeder" where
  "New L n e =
     \<lparr>sStrategy = strategy_table, configManagerOptions = None, configManager = None,
      rest = WithClient (xHttpClient L) (NewSeederImpl n e), actions = [],
      authInstructions = [], sOptions = \<lparr>FailFast = False\<rparr>\<rparr>"

definition WithRestClient ::
  "'w client \<Rightarrow> ('w, 'o) StrategyRestSeeder \<Rightarrow> ('w, 'o) StrategyRestSeeder" where
  "WithRestClient rc s = s\<lparr>rest := WithClient rc (rest s)\<rparr>"

definition seeder_WithAuth ::
  "AuthMap \<Rightarrow> ('w, 'o) StrategyRestSeeder \<Rightarrow> ('w, 'o) StrategyRestSeeder outcome" where
  "seeder_WithAuth ra s =
     map_ok (\<lambda>r. s\<lparr>authInstructions := ra, rest := r\<rparr>) (WithAuth ra (rest s))"

definition WithOptions ::
  "Options \<Rightarrow> ('w, 'o) StrategyRestSeeder \<Rightarrow> ('w, 'o) StrategyRestSeeder" where
  "WithOptions opts s = s\<lparr>sOptions := opts\<rparr>"

text \<open>The order of the list is the order in which the map is visited.\<close>

definition WithActions ::
  "Action gomap \<Rightarrow> ('w, 'o) StrategyRestSeeder \<Rightarrow> ('w, 'o) StrategyRestSeeder" where
  "WithActions m s =
     fold (\<lambda>(k, v) s. s\<lparr>actions := actions s @ [WithHeader (WithName k v)]\<rparr>) m s"

definition auth_map_of_list :: "AuthConfig list \<Rightarrow> AuthMap" where
  "auth_map_of_list ra = fold (\<lambda>v. mput (acName v) v) ra []"

definition WithAuthFromList ::
  "AuthConfig list \<Rightarrow> ('w, 'o) StrategyRestSeeder \<Rightarrow> ('w, 'o) StrategyRestSeeder outcome" where
  "WithAuthFromList ra s = seeder_WithAuth (auth_map_of_list ra) s"

definition WithActionsList ::
  "Action list \<Rightarrow> ('w, 'o) StrategyRestSeeder \<Rightarrow> ('w, 'o) StrategyRestSeeder" where
  "WithActionsList as s =
     fold (\<lambda>v s. s\<lparr>actions := actions s @ [WithHeader (WithName (Name v) v)]\<rparr>) as s"

definition WithConfigManagerOptions ::
  "'o \<Rightarrow> ('w, 'o) StrategyRestSeeder \<Rightarrow> ('w, 'o) StrategyRestSeeder" where
  "WithConfigManagerOptions opts s = s\<lparr>configManagerOptions := Some opts\<rparr>"

definition WithConfigManager ::
  "('w, 'o) CMRetrieve option \<Rightarrow> ('w, 'o) StrategyRestSeeder \<Rightarrow> ('w, 'o) StrategyRestSeeder" where
  "WithConfigManager cm s = s\<lparr>configManager := cm\<rparr>"

section \<open>Secrets in the auth map\<close>

definition set_world :: "'w \<Rightarrow> ('w, 'o) StrategyRestSeeder \<Rightarrow> ('w, 'o) StrategyRestSeeder" where
  "set_world w s = s\<lparr>rest := (rest s)\<lparr>net := (net (rest s))\<lparr>nWorld := w\<rparr>\<rparr>\<rparr>"

text \<open>Options that were never given are a nil pointer.\<close>

definition replaceAuthTokens ::
  "('w, 'o) lib \<Rightarrow> ('w, 'o) StrategyRestSeeder \<Rightarrow> ('w, 'o) StrategyRestSeeder \<times> unit outcome" where
  "replaceAuthTokens L s =
     (case configManager s of
        None \<Rightarrow> (s, Ok ())
      | Some cm \<Rightarrow>
          if authInstructions s = [] then (s, Ok ())
          else (case configManagerOptions s of
            None \<Rightarrow> (s, Panic)
          | Some opts \<Rightarrow>
              (case xAuthJson L cm opts (nWorld (net (rest s))) (authInstructions s) of
                 (w, Inl e) \<Rightarrow>
                   (set_world w s,
                    Fail (Plain (''Error while replacing secrets placeholders in authmap - '' @ e)))
               | (w, Inr am) \<Rightarrow>
                   (case WithAuth am (rest (set_world w s)) of
                      Ok r \<Rightarrow> (s\<lparr>rest := r\<rparr>, Ok ())
                    | Fail e \<Rightarrow> (set_world w s, Fail e)
                    | Panic \<Rightarrow> (set_world w s, Panic)))))"

section \<open>Sorting\<close>

definition go_compare :: "int \<Rightarrow> int \<Rightarrow> int" where
  "go_compare x y = (if x < y then -1 else if y < x then 1 else 0)"

definition order_of :: "Action \<Rightarrow> int" where
  "order_of a = (case Order a of None \<Rightarrow> 999 | Some n \<Rightarrow> n)"

definition compare_order :: "Action \<Rightarrow> Action \<Rightarrow> int" where
  "compare_order a b = go_compare (order_of a) (order_of b)"

text \<open>
  \<^verbatim>\<open>insertionSortCmpFunc\<close> of the standard library, which \<^verbatim>\<open>slices.SortFunc\<close> uses up to
  twelve elements: the next element moves left past every element it is smaller than.  The
  sorted part is kept with its last element first.
\<close>

fun move_left :: "('a \<Rightarrow> 'a \<Rightarrow> int) \<Rightarrow> 'a \<Rightarrow> 'a list \<Rightarrow> 'a list" where
  "move_left cmp x [] = [x]"
| "move_left cmp x (y # ys) = (if cmp x y < 0 then y # move_left cmp x ys else x # y # ys)"

definition insertion_sort :: "('a \<Rightarrow> 'a \<Rightarrow> int) \<Rightarrow> 'a list \<Rightarrow> 'a list" where
  "insertion_sort cmp xs = rev (fold (move_left cmp) xs [])"

definition SortFunc ::
  "(('a \<Rightarrow> 'a \<Rightarrow> int) \<Rightarrow> 'a list \<Rightarrow> 'a list) \<Rightarrow> ('a \<Rightarrow> 'a \<Rightarrow> int) \<Rightarrow> 'a list \<Rightarrow> 'a list" where
  "SortFunc long cmp xs = (if length xs \<le> 12 then insertion_sort cmp xs else long cmp xs)"

section \<open>Running the actions\<close>

text \<open>
  The state of one action: the seeder, the copy of the action the strategy works on, and
  whether the copy still shares its variables with the entry of the list.
\<close>

type_synonym ('w, 'o) running = "('w, 'o) StrategyRestSeeder \<times> Action \<times> bool"

definition configManagerReplaceAction ::
  "('w, 'o) lib \<Rightarrow> ('w, 'o) CMRetrieve \<Rightarrow> ('w, 'o) running \<Rightarrow> ('w, 'o) running \<times> unit outcome" where
  "configManagerReplaceAction L cm t =
     (case t of (s, a, shared) \<Rightarrow>
       (case configManagerOptions s of
          None \<Rightarrow> (t, Panic)
        | Some opts \<Rightarrow>
            (case xActionJson L cm opts (nWorld (net (rest s))) a of
               (w, Inl e) \<Rightarrow>
                 ((set_world w s, a, shared),
                  Fail (Plain (''Error while replacing secrets placeholders in actions - '' @ e)))
             | (w, Inr ra) \<Rightarrow>
                 ((set_world w s,
                   a\<lparr>PatchPayloadTemplate := PatchPayloadTemplate ra,
                     PayloadTemplate := PayloadTemplate ra, Variables := Variables ra\<rparr>,
                   False), Ok ()))))"

text \<open>An error of either step joins the errors; the strategy runs in both cases.\<close>

definition gather ::
  "go_error list \<Rightarrow> 's \<times> unit outcome \<Rightarrow> 's \<times> go_error list outcome" where
  "gather errs res =
     (case res of
        (s, Ok u) \<Rightarrow> (s, Ok errs)
      | (s, Fail e) \<Rightarrow> (s, Ok (errs @ [e]))
      | (s, Panic) \<Rightarrow> (s, Panic))"

definition run_strategy ::
  "('w, 'o) lib \<Rightarrow> 'w StrategyFunc \<Rightarrow> ('w, 'o) running \<Rightarrow> ('w, 'o) running \<times> unit outcome" where
  "run_strategy L fn t =
     (case t of (s, a, shared) \<Rightarrow>
       (case fn (xRest L) (rest s, a) of
          ((r, a'), out) \<Rightarrow> ((s\<lparr>rest := r\<rparr>, a', shared), out)))"

definition performAction ::
  "('w, 'o) lib \<Rightarrow> 'w StrategyFunc \<Rightarrow> go_error list \<Rightarrow> ('w, 'o) running
   \<Rightarrow> ('w, 'o) running \<times> go_error list outcome" where
  "performAction L fn errs t =
     andThen
       (case configManager (fst t) of
          None \<Rightarrow> (t, Ok errs)
        | Some cm \<Rightarrow> gather errs (configManagerReplaceAction L cm t))
       (\<lambda>t errs. gather errs (run_strategy L fn t))"

text \<open>
  \<^verbatim>\<open>range\<close> hands out copies, so of what the strategy did to its copy only the header map
  and the variables, which the copy shares, are seen in the list.
\<close>

definition write_back :: "Action \<Rightarrow> ('w, 'o) running \<Rightarrow> Action" where
  "write_back a t =
     (case t of (s, a', shared) \<Rightarrow>
       a\<lparr>aHeader := aHeader a', Variables := (if shared then Variables a' else Variables a)\<rparr>)"

text \<open>
  The loop of \<^verbatim>\<open>Execute\<close>: \<^verbatim>\<open>performAction\<close> is given the errors so far and returns them
  with the new ones, and the result is appended to the errors so far.
\<close>

fun run_actions ::
  "('w, 'o) lib \<Rightarrow> ('w, 'o) StrategyRestSeeder \<Rightarrow> go_error list \<Rightarrow> Action list
   \<Rightarrow> ('w, 'o) StrategyRestSeeder \<times> (Action list \<times> go_error list) outcome" where
  "run_actions L s errs [] = (s, Ok ([], errs))"
| "run_actions L s errs (a # as) =
     (case map_of (sStrategy s) (Strategy a) of
        None \<Rightarrow> andThen (run_actions L s errs as) (\<lambda>s r. (s, Ok (a # fst r, snd r)))
      | Some fn \<Rightarrow>
          (case performAction L fn errs (s, a, True) of
             (t, Ok err) \<Rightarrow>
               if err \<noteq> [] \<and> FailFast (sOptions s)
               then (fst t, Ok (write_back a t # as, errs @ err))
               else andThen (run_actions L (fst t) (errs @ err) as)
                      (\<lambda>s r. (s, Ok (write_back a t # fst r, snd r)))
           | (t, Fail e) \<Rightarrow> (fst t, Fail e)
           | (t, Panic) \<Rightarrow> (fst t, Panic)))"

definition final_error :: "go_error list \<Rightarrow> unit outcome" where
  "final_error errs =
     (if errs = [] then Ok ()
      else Fail (Plain (fmt_noargs (join newline (map err_text errs)))))"

definition Execute ::
  "('w, 'o) lib \<Rightarrow> ('w, 'o) StrategyRestSeeder \<Rightarrow> ('w, 'o) StrategyRestSeeder \<times> unit outcome" where
  "Execute L s0 =
     andThen (replaceAuthTokens L s0) (\<lambda>s _.
       let s1 = s\<lparr>actions := SortFunc (xLongSort L) compare_order (actions s)\<rparr> in
       andThen (run_actions L s1 [] (actions s1)) (\<lambda>s2 r.
         (s2\<lparr>actions := fst r\<rparr>, final_error (snd r))))"

section \<open>What the sort promises\<close>

locale order_sort =
  fixes sort_actions :: "Action list \<Rightarrow> Action list"
  assumes permutes: "mset (sort_actions as) = mset as"
    and ascending: "sorted (map order_of (sort_actions as))"
begin

lemma keeps_length: "length (sort_actions as) = length as"
  by (metis permutes size_mset)

lemma keeps_set: "set (sort_actions as) = set as"
  by (metis permutes set_mset_mset)

lemma lower_order_first:
  assumes "i < j" "j < length as"
  shows "order_of (sort_actions as ! i) \<le> order_of (sort_actions as ! j)"
  using sorted_nth_mono [OF ascending [of as], of i j] assms by (simp add: keeps_length)

end

lemma compare_order_less: "compare_order a b < 0 \<longleftrightarrow> order_of a < order_of b"
  by (simp add: compare_order_def go_compare_def)

lemma mset_move_left [simp]: "mset (move_left cmp x ys) = add_mset x (mset ys)"
  by (induction cmp x ys rule: move_left.induct) auto

lemma mset_insertion_sort [simp]: "mset (insertion_sort cmp xs) = mset xs"
proof -
  have "mset (fold (move_left cmp) xs ys) = mset xs + mset ys" for ys
    by (induction xs arbitrary: ys) auto
  then show ?thesis by (simp add: insertion_sort_def)
qed

text \<open>The sorted part read from its last element on is descending.\<close>

lemma move_left_sorted:
  assumes "sorted_wrt (\<ge>) (map order_of ys)"
  shows "sorted_wrt (\<ge>) (map order_of (move_left compare_order x ys))"
proof -
  have set: "set (move_left cmp x ys) = insert x (set ys)" for cmp and x :: Action and ys
    using mset_move_left [of cmp x ys] by (metis set_mset_add_mset_insert set_mset_mset)
  show ?thesis
    using assms by (induction ys) (auto simp: compare_order_less set)
qed

text \<open>Equal elements stay in their order.\<close>

lemma move_left_stable:
  assumes "sorted_wrt (\<ge>) (map order_of ys)"
  shows "filter (\<lambda>a. order_of a = k) (move_left compare_order x ys) =
    filter (\<lambda>a. order_of a = k) (x # ys)"
  using assms by (induction ys) (auto simp: compare_order_less filter_empty_conv)

lemma insertion_sort_inv:
  assumes "sorted_wrt (\<ge>) (map order_of ys)"
  shows "sorted_wrt (\<ge>) (map order_of (fold (move_left compare_order) xs ys)) \<and>
    filter (\<lambda>a. order_of a = k) (fold (move_left compare_order) xs ys) =
    rev (filter (\<lambda>a. order_of a = k) xs) @ filter (\<lambda>a. order_of a = k) ys"
  using assms
proof (induction xs arbitrary: ys)
  case (Cons x xs)
  from Cons.IH [OF move_left_sorted [OF Cons.prems, of x]] move_left_stable [OF Cons.prems, of k x]
  show ?case by simp
qed simp

lemma insertion_sort_sorted: "sorted (map order_of (insertion_sort compare_order as))"
  using insertion_sort_inv [of "[]" as 0]
  by (simp add: insertion_sort_def rev_map [symmetric] sorted_wrt_rev)

lemma insertion_sort_stable:
  "filter (\<lambda>a. order_of a = k) (insertion_sort compare_order as) = filter (\<lambda>a. order_of a = k) as"
  using insertion_sort_inv [of "[]" as k] by (simp add: insertion_sort_def rev_filter [symmetric])

interpretation short_list: order_sort "insertion_sort compare_order"
  by unfold_locales (simp_all add: insertion_sort_sorted)

text \<open>The documented behaviour of the sort for long lists is enough for the whole.\<close>

lemma SortFunc_order_sort:
  assumes "order_sort (long compare_order)"
  shows "order_sort (SortFunc long compare_order)"
  using assms short_list.order_sort_axioms by (auto simp: order_sort_def SortFunc_def)

section \<open>What the builders build\<close>

lemma WithActionsList_eq:
  "WithActionsList as s = s\<lparr>actions := actions s @ map (\<lambda>v. WithHeader (WithName (Name v) v)) as\<rparr>"
  by (induction as arbitrary: s) (simp_all add: WithActionsList_def)

lemma WithActions_eq:
  "WithActions m s = s\<lparr>actions := actions s @ map (\<lambda>(k, v). WithHeader (WithName k v)) m\<rparr>"
  by (induction m arbitrary: s) (auto simp: WithActions_def split_beta)

lemma seeder_WithAuth_Ok:
  "seeder_WithAuth am s = Ok s' \<Longrightarrow>
     \<exists>ac. NewAuth am = Ok ac \<and> s' = s\<lparr>authInstructions := am, rest := (rest s)\<lparr>auth_map := Some ac\<rparr>\<rparr>"
  by (auto simp: seeder_WithAuth_def WithAuth_def map_ok_iff)

lemma order_of_named [simp]: "order_of (WithHeader (WithName n a)) = order_of a"
  by (simp add: order_of_def WithHeader_def WithName_def)

text \<open>The visiting order of the map only permutes the actions.\<close>

lemma WithActions_mset:
  assumes "same_map m m'"
  shows "mset (actions (WithActions m s)) = mset (actions (WithActions m' s))"
proof -
  have "distinct m" "distinct m'" "set m = set m'"
    using assms by (auto simp: same_map_def is_map_def distinct_map)
  then have "mset m = mset m'" by (simp add: set_eq_iff_mset_eq_distinct [symmetric])
  then show ?thesis by (simp add: WithActions_eq)
qed

text \<open>A sorted list is determined by its elements where no two have the same order.\<close>

lemma sorted_unique:
  assumes "mset xs = mset ys" "sorted (map order_of xs)" "sorted (map order_of ys)"
    "inj_on order_of (set xs)"
  shows "xs = ys"
proof -
  have "mset (map order_of xs) = mset (map order_of ys)" using assms(1) by simp
  then have "map order_of xs = map order_of ys"
    using assms(2,3) by (metis properties_for_sort)
  moreover have "inj_on order_of (set xs \<union> set ys)"
    using assms(1,4) by (metis Un_absorb set_mset_mset)
  ultimately show ?thesis using map_inj_on by blast
qed

end
