(* ===== verification/Behaviours.thy ===== *)
theory Behaviours
  imports Readiness
begin

text \<open>
  What single strategies and REST operations do: consequences of the plans for one
  strategy, what templating leaves in the process environment, which header a credential
  becomes, how a response turns into an error, and which runtime variables a response sets.
\<close>

section \<open>Single strategies\<close>

lemma run_plan_first:
  "run_plan (Send m k) es = Some b \<Longrightarrow> \<exists>v es'. es = (m, v) # es' \<and> run_plan (k v) es' = Some b"
  by (cases es) (auto split: if_splits)

lemma run_plan_stop: "run_plan (Stop b) es = Some b' \<longleftrightarrow> es = [] \<and> b' = b"
  by (cases es) auto

lemma run_plan_last: "run_plan (Send m finish) es = Some b \<Longrightarrow> \<exists>v. es = [(m, v)] \<and> (b \<longleftrightarrow> (\<exists>s. v = Success s))"
  by (drule run_plan_first, elim exE conjE, rename_tac v es', case_tac v) (auto simp: run_plan_stop)

text \<open>
  PUT/POST falls back on POST exactly where its PUT is answered with a status from 300 to
  499; a server error, a broken connection and a success end it after one call.
\<close>

theorem PutPost_falls_back:
  assumes "snd (PutPost X c) \<noteq> Panic"
  shows "\<exists>v es. events (fst (PutPost X c)) = events c @ (''PUT'', v) # es \<and>
    (if v = Rejected then \<exists>w. es = [(''POST'', w)] \<and> (is_ok (snd (PutPost X c)) \<longleftrightarrow> (\<exists>s. w = Success s))
     else es = [] \<and> (is_ok (snd (PutPost X c)) \<longleftrightarrow> (\<exists>s. v = Success s)))"
proof -
  obtain es where e: "events (fst (PutPost X c)) = events c @ es"
    "run_plan plan_PutPost es = Some (is_ok (snd (PutPost X c)))"
    by (rule put_post.call_list [OF assms])
  from run_plan_first [OF e(2) [unfolded plan_PutPost_def]] obtain v es' where
    v: "es = (''PUT'', v) # es'" "run_plan (on_rejected last_post v) es' = Some (is_ok (snd (PutPost X c)))"
    by blast
  show ?thesis
  proof (cases v)
    case Rejected
    with v(2) have "run_plan (Send ''POST'' finish) es' = Some (is_ok (snd (PutPost X c)))"
      by (simp add: last_post_def)
    from run_plan_last [OF this] e(1) v(1) Rejected show ?thesis by auto
  qed (use e(1) v in \<open>auto simp: run_plan_stop\<close>)
qed

text \<open>
  FIND/POST never updates an item it finds: where the lookup yields a value and
  postIsPut is not set, the GET is the only call and the strategy succeeds.
\<close>

theorem FindPost_found:
  assumes "get X (get_filled X c) = (c1, Ok s)" "lookup X (snd c) s = Some i" "i \<noteq> []"
    "\<not> PostIsPut (snd c)"
  shows "FindPost X c = (c1, Ok ())"
proof -
  have fr: "frame_rel c c1" by (rule after_get_frame(1) [OF assms(1)])
  have "find_in X s c1 = (c1, Ok i)"
    using assms(2) frame_lookup [OF fr, where X = X] by (simp add: find_in_Ok)
  moreover have "\<not> PostIsPut (snd c1)" using assms(4) frame_PostIsPut [OF fr] by simp
  ultimately show ?thesis
    using assms(1,3) by (simp add: FindPost_def get_filled_def [symmetric])
qed

text \<open>
  The fallback of FIND/DELETE/POST after a rejected GET runs the lookup on an empty
  body.  Where an expression is given and the path engine rejects the empty document, the
  strategy fails without the POST it means to fall back on.
\<close>

theorem FindDeletePost_no_fallback:
  assumes "get X (get_filled X c) = (c1, Fail (Diag d))" "dProceedFallback d"
    "FindByJsonPathExpr (snd c) \<noteq> []" "xJSONPath X [] (FindByJsonPathExpr (snd c)) = Inl e"
  shows "FindDeletePost X c = (c1, Fail (Plain e))"
proof -
  have fr: "frame_rel c c1" by (rule after_get_frame(1) [OF assms(1)])
  have "FindByJsonPathExpr (snd c1) = FindByJsonPathExpr (snd c)" using frame_fields [OF fr] by simp
  moreover have "unescaped_body [] = []" by code_simp
  ultimately have "find_in X [] c1 = (c1, Fail (Plain e))"
    using assms(3,4) by (simp add: find_in_def FindPathByExpression_def findPathByExpression_def)
  moreover have "get_or_proceed X (get_filled X c) = (c1, Ok [])"
    using assms(1,2) by (simp add: get_or_proceed_def)
  ultimately show ?thesis by (simp add: FindDeletePost_def get_filled_def [symmetric])
qed

text \<open>
  C29: An id found in a response goes into the next URL as it is.  Where the URL with it does
  not parse, FIND/PUT/POST follows the nil request: the process panics.
\<close>

theorem bad_id_panics:
  assumes "get X (get_filled X c) = (c1, Ok s)" "lookup X (snd c) s = Some i" "i \<noteq> []"
    "\<not> url_ok (put_url ((snd c)\<lparr>foundId := i\<rparr>))"
  shows "snd (FindPutPost X c) = Panic"
proof -
  have fr: "frame_rel c c1" by (rule after_get_frame(1) [OF assms(1)])
  have "find_in X s c1 = (c1, Ok i)"
    using assms(2) frame_lookup [OF fr, where X = X] by (simp add: find_in_Ok)
  moreover have "put_url (snd (set_foundId i c1)) = put_url ((snd c)\<lparr>foundId := i\<rparr>)"
    using frame_fields [OF fr] by (simp add: put_url_def set_foundId_def with_id_def)
  then obtain t where "parse_url (put_url (snd (set_foundId i c1))) = Inl t"
    using assms(4) by (cases "parse_url (put_url ((snd c)\<lparr>foundId := i\<rparr>))") (auto simp: url_ok_def)
  then have "new_request m (put_url (snd (set_foundId i c1))) b = Inl t" for m b
    by (simp add: new_request_Inl)
  then have "snd (put X (set_foundId i c1)) = Panic"
    by (simp add: put_def put_url_def [symmetric] send_body_def do_call_def)
  ultimately show ?thesis
    using assms(1,3) by (simp add: FindPutPost_def get_filled_def [symmetric])
qed

section \<open>Templating and the environment\<close>

definition valid_var :: "string \<times> any \<Rightarrow> bool" where
  "valid_var kv \<longleftrightarrow> fst kv \<noteq> [] \<and> CHR ''='' \<notin> set (fst kv) \<and> CHR 0x00 \<notin> set (fst kv) \<and>
     CHR 0x00 \<notin> set (sprint (snd kv))"

lemma Setenv_valid: "valid_var (k, v) \<Longrightarrow> Setenv k (sprint v) e = e(k \<mapsto> sprint v)"
  by (auto simp: valid_var_def Setenv_def)

lemma set_variables_other: "k \<notin> fst ` set m \<Longrightarrow> set_variables m e k = e k"
  by (induction m arbitrary: e) (auto simp: set_variables_def Setenv_def)

lemma set_variables_valid:
  "is_map m \<Longrightarrow> map_of m k = Some v \<Longrightarrow> valid_var (k, v) \<Longrightarrow> set_variables m e k = Some (sprint v)"
proof (induction m arbitrary: e)
  case (Cons kv m)
  obtain k' v' where kv: "kv = (k', v')" by force
  have step: "set_variables ((k', v') # m) e = set_variables m (Setenv k' (sprint v') e)" for e
    by (simp add: set_variables_def)
  show ?case
  proof (cases "k = k'")
    case True
    with Cons.prems kv have "v' = v" "k \<notin> fst ` set m" by (auto simp: is_map_def)
    then show ?thesis
      unfolding kv step using True Cons.prems(3) by (simp add: set_variables_other Setenv_valid)
  next
    case False
    with Cons kv show ?thesis by (simp add: step is_map_def kv)
  qed
qed simp

text \<open>
  C30: Templating writes the action's variables, overridden by the runtime variables, into the
  environment of the process, where they stay: an entry of either is readable there by any
  later templating, of any action, under its name; no variable is ever unset.
\<close>

theorem templating_leaks:
  assumes "is_map (runtimeVars (fst c))" "Variables (snd c) = Some vars" "is_map vars"
    "map_of (runtimeVars (fst c)) k = Some v \<or> map_of (runtimeVars (fst c)) k = None \<and> map_of vars k = Some v"
    "valid_var (k, v)"
  shows "env (fst (fill_template X t c)) k = Some (sprint v) \<and>
    dom (env (fst c)) \<subseteq> dom (env (fst (fill_template X t c))) \<and>
    (\<exists>vs. Variables (snd (fill_template X t c)) = Some vs \<and> map_of vs k = Some v)"
proof -
  obtain r a where c: "c = (r, a)" by force
  have rv: "is_map (copy_RuntimeVars r)" "map_of (copy_RuntimeVars r) = map_of (runtimeVars r)"
    using assms(1) is_map_mput_all [of "[]" "runtimeVars r"]
    by (simp_all add: copy_RuntimeVars_def map_of_mput_all c is_map_Nil)
  have tv: "is_map (template_vars (Variables a) r)"
    "map_of (template_vars (Variables a) r) = map_of vars ++ map_of (runtimeVars r)"
    using assms(2,3) rv by (simp_all add: template_vars_def c map_of_mput_all)
  then have k: "map_of (template_vars (Variables a) r) k = Some v"
    using assms(4) by (auto simp: c map_add_def)
  have "template_env (Variables a) r k = Some (sprint v)"
    unfolding template_env_def by (rule set_variables_valid [OF tv(1) k assms(5)])
  then show ?thesis
    using k assms(2) dom_template_env by (simp add: c fill_template_eq)
qed

section \<open>The Authorization header\<close>

text \<open>
  C31: With basic authentication the header sent is \<^verbatim>\<open>Basic\<close> and a text from which base64
  decoding gives back user and password; the header replaces any the action supplied.
\<close>

theorem basic_auth_roundtrip:
  assumes "auth_map r = Some am" "map_of am (AuthMapRef a) = Some e" "authStrategy e = Basic"
    "basicCred e = Some b" "aHeader a = Some h"
  shows "\<exists>a' h'. setAuthHeader X (r, a) = ((r, a'), Ok ()) \<and> aHeader a' = Some h' \<and>
    (\<exists>t. hvalues ''Authorization'' h' = [''Basic '' @ t] \<and>
       base64_decode t = Some (baUsername b @ '':'' @ baPassword b))"
  using assms
  by (simp add: setAuthHeader_def Let_def set_basic_auth_def hvalues_hset base64_decode_encode)

text \<open>
  A custom token request that fails is only logged: the call goes on, as if it had succeeded,
  with a header of the empty name in place of the credential.
\<close>

lemma failed_token_goes_on:
  assumes "auth_map r = Some am" "map_of am (AuthMapRef a) = Some cam"
    and "authStrategy cam = CustomToToken" "customToToken cam = Some cf"
    and "Token (xJSONPath X) (client r) (net r, cf) = ((n, cf'), Fail e)"
  shows "\<exists>r'. net r' = n \<and> client r' = client r \<and>
    setAuthHeader X (r, a) =
      ((r', a\<lparr>aHeader := map_option (hset [] '' '') (aHeader a)\<rparr>), Ok ())"
  using assms auth_types_distinct
  by (auto simp: setAuthHeader_def set_custom_def set_header_def zero_token_response_def)

section \<open>From a response to an error\<close>

lemma handle_response_error:
  assumes "handle_response X d resp c = (c', Fail e)"
  shows "c' = c \<and>
    ((\<exists>t. rsBody resp = Some (Unreadable t) \<and>
        e = Diag (WithMessage ''unable to read the body'' (WithStatus (rsStatus resp) d))) \<or>
     (\<exists>s. rsBody resp = Some (Readable s) \<and> 299 < rsStatus resp \<and>
        e = Diag (status_diagnostic (rsStatus resp) s (WithStatus (rsStatus resp) d))))"
  using assms
  by (cases "rsBody resp"; cases "the (rsBody resp)")
    (auto simp: handle_response_def body_of_def Let_def split: if_splits)

text \<open>What the diagnostic of a failed call says of the answer.\<close>

fun describes :: "Diagnostic \<Rightarrow> string + response \<Rightarrow> bool" where
  "describes d (Inl t) \<longleftrightarrow> dStatus d = 999 \<and> dIsFatal d \<and> \<not> dProceedFallback d"
| "describes d (Inr resp) \<longleftrightarrow> dStatus d = rsStatus resp \<and>
     (case rsBody resp of
        Some (Readable s) \<Rightarrow> 299 < rsStatus resp \<and> dMessage d = s \<and> \<not> dIsFatal d \<and>
          (dProceedFallback d \<longleftrightarrow> rsStatus resp < 500)
      | _ \<Rightarrow> dIsFatal d \<and> \<not> dProceedFallback d)"

text \<open>
  C32: The error of a call says how it may be followed: a status from 300 to 499 allows the
  next verb and is not fatal, one from 500 is neither, no response (status 999) or an
  unreadable body is fatal; every error names the action and is logged with its request.
\<close>

theorem send_errors:
  assumes "do_send X (base_diagnostic rq a) rq (r, a) = (c', Fail e)"
  shows "\<exists>d ans. e = Diag d \<and> dName d = aName a \<and> describes d ans \<and>
    nCalls (net (fst c')) = nCalls (net r) @
      [\<lparr>cPurpose = ForAction, cRequest = rq\<lparr>rqHeader := header_of a\<rparr>, cAnswer = ans\<rparr>]"
proof -
  obtain f where f: "client r = Some f"
    using assms by (cases "client r") (simp_all add: do_send_def client_do_def)
  let ?rq = "rq\<lparr>rqHeader := header_of a\<rparr>"
  let ?log = "\<lambda>ans. nCalls (net r) @ [\<lparr>cPurpose = ForAction, cRequest = ?rq, cAnswer = ans\<rparr>]"
  obtain w ans where ans: "f (nWorld (net r)) ?rq = (w, ans)" by force
  show ?thesis
  proof (cases ans)
    case (Inl t)
    with assms have c': "c' = (r\<lparr>net := \<lparr>nWorld = w, nCalls = ?log ans\<rparr>\<rparr>, a)"
      and e: "e = network_failure (base_diagnostic rq a) (Plain t)"
      by (simp_all add: do_send_def client_do_def f ans)
    have "nCalls (net (fst c')) = ?log ans" by (simp add: c')
    moreover have "\<exists>d. e = Diag d \<and> dName d = aName a \<and> describes d ans"
      by (simp add: e Inl base_diagnostic_def network_failure_def diag_with)
    ultimately show ?thesis by blast
  next
    case (Inr resp)
    with assms have h: "handle_response X (base_diagnostic rq a) resp
        (r\<lparr>net := \<lparr>nWorld = w, nCalls = ?log ans\<rparr>\<rparr>, a) = (c', Fail e)"
      by (simp add: do_send_def client_do_def f ans)
    from handle_response_error [OF h] have "nCalls (net (fst c')) = ?log ans" by simp
    moreover from handle_response_error [OF h, THEN conjunct2]
    have "\<exists>d. e = Diag d \<and> dName d = aName a \<and> describes d ans"
      by (elim disjE exE conjE)
        (simp_all add: Inr base_diagnostic_def status_diagnostic_def diag_with Let_def)
    ultimately show ?thesis by blast
  qed
qed

section \<open>Runtime variables\<close>

lemma store_found_map:
  "map_of (runtimeVars (store_found X resp (k, e) r)) k' =
     (if k' = k \<and> fst (FindPathByExpression X resp e) \<noteq> []
      then Some (AStr (fst (FindPathByExpression X resp e))) else map_of (runtimeVars r) k')"
  by (auto simp: store_found_def SetRuntimeVar_def Let_def)

lemma fold_store_found:
  "is_map m \<Longrightarrow> map_of (runtimeVars (fold (store_found X resp) m r)) k =
     (case map_of m k of
        None \<Rightarrow> map_of (runtimeVars r) k
      | Some e \<Rightarrow>
          if fst (FindPathByExpression X resp e) \<noteq> []
          then Some (AStr (fst (FindPathByExpression X resp e))) else map_of (runtimeVars r) k)"
proof (induction m arbitrary: r)
  case (Cons ke m)
  obtain k1 e1 where ke: "ke = (k1, e1)" by force
  with Cons.prems have "is_map m" "map_of m k1 = None"
    by (auto simp: is_map_def map_of_eq_None_iff)
  with Cons.IH [of "store_found X resp ke r"] show ?case
    by (auto simp: ke store_found_map split: option.splits)
qed simp

text \<open>
  C33: A successful response sets exactly the runtime variables whose expression finds a value
  in it, each to that value, and leaves every other one alone, in whatever order the map of
  expressions is visited.
\<close>

theorem runtime_vars_captured:
  assumes "RuntimeVars (snd c) = Some m" "is_map m" "same_map m m'"
  shows "map_of (runtimeVars (fst (findRuntimeVars X resp c))) k =
      (case map_of m k of
         None \<Rightarrow> map_of (runtimeVars (fst c)) k
       | Some e \<Rightarrow>
           if fst (FindPathByExpression X resp e) \<noteq> []
           then Some (AStr (fst (FindPathByExpression X resp e))) else map_of (runtimeVars (fst c)) k) \<and>
    map_of (runtimeVars (fst (findRuntimeVars X resp (fst c, (snd c)\<lparr>RuntimeVars := Some m'\<rparr>)))) k =
      map_of (runtimeVars (fst (findRuntimeVars X resp c))) k"
proof -
  obtain r a where c: "c = (r, a)" by force
  have "is_map m'" "map_of m' = map_of m"
    using assms(3) same_map_map_of [of m m'] by (simp_all add: same_map_def)
  then show ?thesis
    using assms(1,2) fold_store_found [of m X resp r k] fold_store_found [of m' X resp r k]
    unfolding c fst_conv snd_conv by (simp add: findRuntimeVars_def)
qed

end
