(* ===== verification/Seeding.thy ===== *)
theory Seeding
  imports Seeder Behaviours
begin

text \<open>
  The contract of \<^verbatim>\<open>StrategyRestSeeder.Execute\<close>.  The abstract seeder \<open>seeds\<close> knows the plan
  of each action, counts the error messages and stops where FailFast says so; the loop of
  the code refines it, and the properties are read off the abstract seeder.
\<close>

section \<open>The plans of the strategy table\<close>

definition plan_table :: "('w ext \<Rightarrow> Action \<Rightarrow> plan) gomap" where
  "plan_table =
     [(PUT, \<lambda>X a. Send ''PUT'' finish), (POST, \<lambda>X a. last_post), (PUT_POST, \<lambda>X a. plan_PutPost),
      (GET_PUT_POST, \<lambda>X. plan_GetPutPost), (FIND_PUT_POST, plan_FindPutPost),
      (FIND_POST, plan_FindPost), (GET_POST, \<lambda>X. plan_GetPost),
      (FIND_DELETE_POST, plan_FindDeletePost), (FIND_PATCH_POST, plan_FindPatchPost)]"

definition plan_of :: "'w ext \<Rightarrow> Action \<Rightarrow> plan option" where
  "plan_of X a = map_option (\<lambda>p. p X a) (map_of plan_table (Strategy a))"

lemma map_of_list_all2:
  "list_all2 (\<lambda>x y. fst x = fst y \<and> R (snd x) (snd y)) xs ys \<Longrightarrow>
     rel_option R (map_of xs k) (map_of ys k)"
  by (induction rule: list_all2_induct) auto

lemma tables_match:
  "list_all2 (\<lambda>x y. fst x = fst y \<and> safe_strategy (snd x) (snd y)) strategy_table plan_table"
  unfolding strategy_table_def plan_table_def strategy_funcs
  by (intro list_all2_Cons [THEN iffD2] conjI list_all2_Nil [THEN iffD2];
      (unfold fst_conv snd_conv)?;
      (rule refl TrueI get_post.safe_strategy_axioms find_post.safe_strategy_axioms find_put_post.safe_strategy_axioms
        find_patch_post.safe_strategy_axioms find_delete_post.safe_strategy_axioms get_put_post.safe_strategy_axioms
        put_only.safe_strategy_axioms post_only.safe_strategy_axioms put_post.safe_strategy_axioms))

lemma table_contract:
  assumes "map_of strategy_table st = Some fn"
  shows "\<exists>p. map_of plan_table st = Some p \<and> safe_strategy fn p"
proof -
  have "rel_option safe_strategy (Some fn) (map_of plan_table st)"
    unfolding assms [symmetric] by (rule map_of_list_all2 [OF tables_match])
  then show ?thesis by (simp add: option_rel_Some1)
qed

lemma table_domain:
  "map_of (strategy_table :: 'w StrategyFunc gomap) st = None \<longleftrightarrow>
   map_of (plan_table :: ('w ext \<Rightarrow> Action \<Rightarrow> plan) gomap) st = None"
proof -
  have "rel_option safe_strategy (map_of (strategy_table :: 'w StrategyFunc gomap) st)
      (map_of (plan_table :: ('w ext \<Rightarrow> Action \<Rightarrow> plan) gomap) st)"
    by (rule map_of_list_all2 [OF tables_match])
  then show ?thesis
    by (cases "map_of (strategy_table :: 'w StrategyFunc gomap) st";
        cases "map_of (plan_table :: ('w ext \<Rightarrow> Action \<Rightarrow> plan) gomap) st") simp_all
qed

text \<open>A plan does not look at what the configuration manager replaces.\<close>

lemma plan_of_replaced [simp]:
  "plan_of X (a\<lparr>PatchPayloadTemplate := t, PayloadTemplate := u, Variables := v\<rparr>) = plan_of X a"
proof -
  let ?b = "a\<lparr>PatchPayloadTemplate := t, PayloadTemplate := u, Variables := v\<rparr>"
  have g: "get_url_ok ?b = get_url_ok a" and l: "lookup X ?b = lookup X a"
    by (simp_all add: get_url_ok_def get_url_def lookup_def fun_eq_iff)
  have f: "found_or X ?b = found_or X a"
    by (simp add: found_or_def fun_eq_iff l)
  have "plan_GetPost ?b = plan_GetPost a" "plan_FindPost X ?b = plan_FindPost X a"
    "plan_FindPutPost X ?b = plan_FindPutPost X a" "plan_FindPatchPost X ?b = plan_FindPatchPost X a"
    "plan_FindDeletePost X ?b = plan_FindDeletePost X a" "plan_GetPutPost ?b = plan_GetPutPost a"
    by (simp_all add: plan_defs after_get_def g f)
  then show ?thesis
    by (simp add: plan_of_def plan_table_def)
qed

section \<open>The abstract seeder\<close>

text \<open>
  \<open>seeds P ff mgr n as es m\<close>: starting with n messages, the actions send es and leave m
  messages.  After an action with any message so far, the n messages are counted again, with
  the new ones: one if the strategy fails, one if the configuration manager does.
\<close>

definition new_messages :: "bool \<Rightarrow> nat \<Rightarrow> bool \<Rightarrow> nat \<Rightarrow> bool" where
  "new_messages mgr n ok new \<longleftrightarrow>
     (\<exists>k. k \<le> (if mgr then 1 else 0) \<and> new = n + k + (if ok then 0 else 1))"

inductive seeds ::
  "(Action \<Rightarrow> plan option) \<Rightarrow> bool \<Rightarrow> bool \<Rightarrow> nat \<Rightarrow> Action list \<Rightarrow> event list \<Rightarrow> nat \<Rightarrow> bool"
  for P ff mgr where
  seeds_done: "seeds P ff mgr n [] [] n"
| seeds_unknown: "seeds P ff mgr n (a # as) es m" if "P a = None" "seeds P ff mgr n as es m"
| seeds_next: "seeds P ff mgr n (a # as) (es @ es') m"
    if "P a = Some p" "run_plan p es = Some ok" "new_messages mgr n ok new"
      "new = 0 \<or> \<not> ff" "seeds P ff mgr (n + new) as es' m"
| seeds_stop: "seeds P ff mgr n (a # as) es (n + new)"
    if "P a = Some p" "run_plan p es = Some ok" "new_messages mgr n ok new" "0 < new" "ff"

inductive_cases seeds_NilE: "seeds P ff mgr n [] es m"
inductive_cases seeds_ConsE: "seeds P ff mgr n (a # as) es m"
inductive_simps seeds_Nil [simp]: "seeds P ff mgr n [] es m"

definition seeder_events :: "('w, 'o) StrategyRestSeeder \<Rightarrow> event list" where
  "seeder_events s = events (rest s, zero_action)"

text \<open>The calls for actions in the log of a network.\<close>

definition net_events :: "'w net \<Rightarrow> event list" where
  "net_events n = map event_of (filter (\<lambda>x. cPurpose x = ForAction) (nCalls n))"

lemma seeder_events_net: "seeder_events s = net_events (net (rest s))"
  by (simp add: seeder_events_def net_events_def events_def action_calls_def)

lemma seeder_events_eq: "events (rest s, a) = seeder_events s"
  unfolding seeder_events_def by (rule events_snd)

section \<open>One action\<close>

definition rest_frame :: "'w rest \<Rightarrow> 'w rest \<Rightarrow> bool" where
  "rest_frame r r' \<longleftrightarrow> client r' = client r \<and> auth_view r' = auth_view r"

lemma rest_frame_refl [simp]: "rest_frame r r"
  by (simp add: rest_frame_def)

lemma rest_frame_trans: "rest_frame r r' \<Longrightarrow> rest_frame r' r'' \<Longrightarrow> rest_frame r r''"
  by (simp add: rest_frame_def)

lemma frame_rest: "frame_rel c c' \<Longrightarrow> rest_frame (fst c) (fst c')"
  by (simp add: frame_rel_def rest_frame_def)

text \<open>Only the REST state of a seeder changes while it runs.\<close>

definition same_seeder :: "('w, 'o) StrategyRestSeeder \<Rightarrow> ('w, 'o) StrategyRestSeeder \<Rightarrow> bool" where
  "same_seeder s s' \<longleftrightarrow> s' = s\<lparr>rest := rest s'\<rparr> \<and> rest_frame (rest s) (rest s')"

lemma same_seeder_refl [simp]: "same_seeder s s"
  by (simp add: same_seeder_def)

lemma same_seeder_trans: "same_seeder s s' \<Longrightarrow> same_seeder s' s'' \<Longrightarrow> same_seeder s s''"
  unfolding same_seeder_def using rest_frame_trans
  by (cases s; cases s'; cases s'') auto

lemma same_seeder_fields:
  assumes "same_seeder s s'"
  shows "sStrategy s' = sStrategy s" "configManager s' = configManager s" "sOptions s' = sOptions s"
    "configManagerOptions s' = configManagerOptions s" "actions s' = actions s"
    "authInstructions s' = authInstructions s"
  using assms unfolding same_seeder_def by (cases s; cases s'; simp)+

lemma set_world_same [simp]: "same_seeder s (set_world w s)"
  by (simp add: same_seeder_def set_world_def rest_frame_def)

lemma set_world_events [simp]: "seeder_events (set_world w s) = seeder_events s"
  by (simp add: seeder_events_def set_world_def events_def action_calls_def)

text \<open>The copy of an action, up to what the configuration manager replaces.\<close>

definition same_entry :: "Action \<Rightarrow> Action \<Rightarrow> bool" where
  "same_entry a b \<longleftrightarrow>
     (\<exists>t u v. b = a\<lparr>PatchPayloadTemplate := t, PayloadTemplate := u, Variables := v\<rparr>)"

lemma same_entry_refl [simp]: "same_entry a a"
  unfolding same_entry_def
  by (rule exI [of _ "PatchPayloadTemplate a"], rule exI [of _ "PayloadTemplate a"],
      rule exI [of _ "Variables a"]) simp

lemma same_entry_plan: "same_entry a b \<Longrightarrow> plan_of X b = plan_of X a"
  by (auto simp: same_entry_def)

lemma same_entry_strategy: "same_entry a b \<Longrightarrow> Strategy b = Strategy a"
  by (auto simp: same_entry_def)

lemma replace_action:
  assumes "configManagerReplaceAction L cm (s, a, sh) = ((s', a', sh'), out)"
  shows "same_seeder s s' \<and> seeder_events s' = seeder_events s \<and> same_entry a a'"
proof -
  have "same_entry a (a\<lparr>PatchPayloadTemplate := t, PayloadTemplate := u, Variables := v\<rparr>)" for t u v
    unfolding same_entry_def by blast
  then show ?thesis
    using assms by (auto simp: configManagerReplaceAction_def
        split: option.splits prod.splits sum.splits)
qed

lemma run_strategy_follows:
  assumes fn: "map_of strategy_table (Strategy a) = Some fn"
    and run: "run_strategy L fn (s, a, sh) = ((s', a', sh'), out)" "out \<noteq> Panic"
  shows "same_seeder s s' \<and> sh' = sh \<and> same_config a a' \<and>
    (\<exists>p es. plan_of (xRest L) a = Some p \<and> seeder_events s' = seeder_events s @ es \<and>
       run_plan p es = Some (is_ok out))"
proof -
  from table_contract [OF fn] obtain p where p: "map_of plan_table (Strategy a) = Some p"
    and st: "strategy fn p" using safe_strategy.axioms(1) by blast
  obtain r where r: "fn (xRest L) (rest s, a) = ((r, a'), out)" and s': "s' = s\<lparr>rest := r\<rparr>" "sh' = sh"
    using run(1) by (auto simp: run_strategy_def split: prod.splits)
  have fr: "frame_rel (rest s, a) (r, a')"
    using strategy.run_frame [OF st, of "(rest s, a)" "xRest L"] r by simp
  have "conforms (p (xRest L) a) (rest s, a) ((r, a'), out)"
    using strategy.run_follows [OF st, of "xRest L" "(rest s, a)"] r by simp
  then obtain es where "events (r, a') = events (rest s, a) @ es"
      "run_plan (p (xRest L) a) es = Some (is_ok out)"
    using run(2) by (auto simp: conforms_def)
  then have "seeder_events s' = seeder_events s @ es \<and> run_plan (p (xRest L) a) es = Some (is_ok out)"
    using seeder_events_eq [of s a] seeder_events_eq [of s' a'] s' by simp
  moreover have "same_seeder s s'" "same_config a a'" "plan_of (xRest L) a = Some (p (xRest L) a)"
    using s' frame_rest [OF fr] frame_same_config [OF fr] p
    by (simp_all add: same_seeder_def plan_of_def)
  ultimately show ?thesis using s' by blast
qed

lemma gather_Ok:
  "gather errs res = (s, Ok err) \<Longrightarrow>
     \<exists>out. res = (s, out) \<and> out \<noteq> Panic \<and> err = errs @ (case out of Fail e \<Rightarrow> [e] | _ \<Rightarrow> [])"
  by (auto simp: gather_def split: prod.splits res.splits)

lemma performAction_follows:
  assumes fn: "map_of strategy_table (Strategy a) = Some fn"
    and run: "performAction L fn errs (s, a, sh) = ((s', a', sh'), Ok err)"
  shows "same_seeder s s' \<and>
    (\<exists>p es ok. plan_of (xRest L) a = Some p \<and> seeder_events s' = seeder_events s @ es \<and>
       run_plan p es = Some ok \<and> new_messages (configManager s \<noteq> None) (length errs) ok (length err))"
proof -
  obtain s1 a1 sh1 err1 where m: "(case configManager s of None \<Rightarrow> ((s, a, sh), Ok errs)
      | Some cm \<Rightarrow> gather errs (configManagerReplaceAction L cm (s, a, sh))) = ((s1, a1, sh1), Ok err1)"
    and g: "gather err1 (run_strategy L fn (s1, a1, sh1)) = ((s', a', sh'), Ok err)"
    using run by (auto simp: performAction_def andThen_Ok_iff)
  have mid: "same_seeder s s1 \<and> seeder_events s1 = seeder_events s \<and> same_entry a a1 \<and>
      (\<exists>k \<le> (if configManager s \<noteq> None then 1 else 0). length err1 = length errs + k)"
  proof (cases "configManager s")
    case None
    with m show ?thesis by simp
  next
    case (Some cm)
    with m have "gather errs (configManagerReplaceAction L cm (s, a, sh)) = ((s1, a1, sh1), Ok err1)"
      by simp
    from gather_Ok [OF this] obtain out where
      "configManagerReplaceAction L cm (s, a, sh) = ((s1, a1, sh1), out)"
      "err1 = errs @ (case out of Fail e \<Rightarrow> [e] | _ \<Rightarrow> [])" by blast
    with replace_action [OF this(1)] Some show ?thesis by (auto split: res.splits)
  qed
  from gather_Ok [OF g] obtain out where out: "run_strategy L fn (s1, a1, sh1) = ((s', a', sh'), out)"
    "out \<noteq> Panic" "err = err1 @ (case out of Fail e \<Rightarrow> [e] | _ \<Rightarrow> [])" by blast
  have fn1: "map_of strategy_table (Strategy a1) = Some fn"
    using fn mid same_entry_strategy [of a a1] by simp
  note f = run_strategy_follows [OF fn1 out(1,2)]
  have "same_seeder s s'" using f mid same_seeder_trans [of s s1 s'] by simp
  moreover have "plan_of (xRest L) a1 = plan_of (xRest L) a" "seeder_events s1 = seeder_events s"
    using mid same_entry_plan [of a a1] by simp_all
  then have "\<exists>p es. plan_of (xRest L) a = Some p \<and>
      seeder_events s' = seeder_events s @ es \<and> run_plan p es = Some (is_ok out)"
    using f by simp
  moreover have "new_messages (configManager s \<noteq> None) (length errs) (is_ok out) (length err)"
  proof -
    obtain k where "k \<le> (if configManager s \<noteq> None then 1 else 0)" "length err1 = length errs + k"
      using mid by blast
    moreover have "length err = length err1 + (if is_ok out then 0 else 1)"
      using out(2,3) by (cases out) simp_all
    ultimately show ?thesis unfolding new_messages_def by (intro exI [of _ k]) simp
  qed
  ultimately show ?thesis by blast
qed

section \<open>The loop refines the abstract seeder\<close>

text \<open>
  The loop of Execute refines the abstract seeder: the calls it makes are those of the
  plans of its actions, one action after the other, unknown strategies are passed over, and
  the number of messages it gathers is the abstract one.  Everything in the seeder but its
  REST state is kept.
\<close>

lemma run_actions_same:
  assumes "run_actions L s errs as = (s', Ok (as', errs'))" "sStrategy s = strategy_table"
  shows "same_seeder s s' \<and> length as' = length as \<and>
    (\<exists>es. seeder_events s' = seeder_events s @ es \<and>
       seeds (plan_of (xRest L)) (FailFast (sOptions s)) (configManager s \<noteq> None)
         (length errs) as es (length errs'))"
  using assms
proof (induction L s errs as arbitrary: s' as' errs' rule: run_actions.induct)
  case (1 L s errs)
  then show ?case by simp
next
  case (2 L s errs a as)
  show ?case
  proof (cases "map_of (sStrategy s) (Strategy a)")
    case None
    with "2.prems"(1) obtain r where r: "run_actions L s errs as = (s', Ok r)"
        "as' = a # fst r" "errs' = snd r"
      by (auto simp: andThen_Ok_iff)
    have "plan_of (xRest L) a = None"
      using None "2.prems"(2) by (simp add: plan_of_def table_domain)
    with "2.IH"(1) [OF None, of s' "fst r" "snd r"] r "2.prems"(2) show ?thesis
      by (auto intro: seeds_unknown)
  next
    case (Some fn)
    then have fn: "map_of strategy_table (Strategy a) = Some fn" using "2.prems"(2) by simp
    obtain t out where t: "performAction L fn errs (s, a, True) = (t, out)"
      by (cases "performAction L fn errs (s, a, True)")
    obtain s1 a1 sh where "t = (s1, a1, sh)" by (cases t)
    with t have p: "performAction L fn errs (s, a, True) = ((s1, a1, sh), out)" by simp
    with "2.prems"(1) Some obtain err where out: "out = Ok err"
      by (cases out) auto
    from performAction_follows [OF fn p [unfolded out]] obtain q es ok where
      q: "same_seeder s s1" "plan_of (xRest L) a = Some q" "seeder_events s1 = seeder_events s @ es"
        "run_plan q es = Some ok" "new_messages (configManager s \<noteq> None) (length errs) ok (length err)"
      by blast
    note same1 = same_seeder_fields [OF q(1)]
    show ?thesis
    proof (cases "err \<noteq> [] \<and> FailFast (sOptions s)")
      case True
      with "2.prems"(1) Some p out have "s' = s1" "as' = write_back a (s1, a1, sh) # as" "errs' = errs @ err"
        by auto
      moreover have "seeds (plan_of (xRest L)) (FailFast (sOptions s)) (configManager s \<noteq> None)
          (length errs) (a # as) es (length errs + length err)"
        using True by (intro seeds_stop [where P = "plan_of (xRest L)", OF q(2,4,5)]) simp_all
      ultimately show ?thesis using q(1,3) by simp
    next
      case False
      with "2.prems"(1) Some p out obtain r where
        r: "run_actions L s1 (errs @ err) as = (s', Ok r)" "as' = write_back a (s1, a1, sh) # fst r"
          "errs' = snd r"
        by (auto simp: andThen_Ok_iff)
      from "2.IH"(2) [OF Some p [symmetric] out False, of s' "fst r" "snd r"] r same1 "2.prems"(2)
      obtain es' where ih: "same_seeder s1 s'" "length (fst r) = length as"
        "seeder_events s' = seeder_events s1 @ es'"
        "seeds (plan_of (xRest L)) (FailFast (sOptions s)) (configManager s \<noteq> None)
           (length errs + length err) as es' (length errs')"
        by auto
      have "length err = 0 \<or> \<not> FailFast (sOptions s)" using False by simp
      from seeds_next [where P = "plan_of (xRest L)", OF q(2,4,5) this ih(4)]
      have "seeds (plan_of (xRest L)) (FailFast (sOptions s)) (configManager s \<noteq> None)
          (length errs) (a # as) (es @ es') (length errs')" .
      with same_seeder_trans [OF q(1) ih(1)] ih(2,3) q(3) r(2) show ?thesis by auto
    qed
  qed
qed

section \<open>Consequences for the abstract seeder\<close>

text \<open>What one action did: its calls, and whether its strategy succeeded, if it has one.\<close>

definition ran :: "(Action \<Rightarrow> plan option) \<Rightarrow> Action \<Rightarrow> event list \<times> bool option \<Rightarrow> bool" where
  "ran P a r \<longleftrightarrow>
     (case P a of
        None \<Rightarrow> r = ([], None)
      | Some p \<Rightarrow> run_plan p (fst r) = snd r \<and> snd r \<noteq> None)"

definition calls_of :: "(event list \<times> bool option) list \<Rightarrow> event list" where
  "calls_of rs = concat (map fst rs)"

lemma calls_of_simps [simp]: "calls_of [] = []" "calls_of (r # rs) = fst r @ calls_of rs"
  by (simp_all add: calls_of_def)

text \<open>The messages after the actions: those so far are doubled by every action that ran.\<close>

fun messages :: "nat \<Rightarrow> bool option list \<Rightarrow> nat" where
  "messages n [] = n"
| "messages n (None # oks) = messages n oks"
| "messages n (Some ok # oks) = messages (2 * n + (if ok then 0 else 1)) oks"

lemma messages_grow: "n \<le> messages n oks"
proof (induction n oks rule: messages.induct)
  case (3 n ok oks)
  then show ?case by simp
qed simp_all

lemma messages_zero: "messages n oks = 0 \<longleftrightarrow> n = 0 \<and> Some False \<notin> set oks"
  by (induction n oks rule: messages.induct) auto

lemma messages_failing: "messages n (replicate k (Some False)) + 1 = 2 ^ k * (n + 1)"
  by (induction k arbitrary: n) (simp_all add: algebra_simps)

lemma new_messages_alone [simp]:
  "new_messages False n ok new \<longleftrightarrow> new = n + (if ok then 0 else 1)"
  by (auto simp: new_messages_def)

lemma seeds_grow: "seeds P ff mgr n as es m \<Longrightarrow> n \<le> m"
  by (induction rule: seeds.induct) simp_all

lemma seeds_success:
  "seeds P ff mgr n as es m \<Longrightarrow> m = 0 \<Longrightarrow>
     \<exists>rs. list_all2 (ran P) as rs \<and> es = calls_of rs \<and> (\<forall>r \<in> set rs. snd r \<noteq> Some False)"
proof (induction rule: seeds.induct)
  case (seeds_done n)
  then show ?case by simp
next
  case (seeds_unknown a n as es m)
  then obtain rs where "list_all2 (ran P) as rs \<and> es = calls_of rs \<and> (\<forall>r \<in> set rs. snd r \<noteq> Some False)"
    by blast
  moreover have "ran P a ([], None)" using seeds_unknown.hyps(1) by (simp add: ran_def)
  ultimately show ?case by (intro exI [of _ "([], None) # rs"]) simp
next
  case (seeds_next a p es ok n new as es' m)
  from seeds_grow [OF seeds_next.hyps(5)] seeds_next.prems have "n + new = 0" by simp
  with seeds_next.hyps(3) have ok by (auto simp: new_messages_def split: if_splits)
  then have "ran P a (es, Some True)" using seeds_next.hyps(1,2) by (simp add: ran_def)
  moreover obtain rs where "list_all2 (ran P) as rs \<and> es' = calls_of rs \<and> (\<forall>r \<in> set rs. snd r \<noteq> Some False)"
    using seeds_next by blast
  ultimately show ?case by (intro exI [of _ "(es, Some True) # rs"]) simp
next
  case (seeds_stop a p es ok n new as)
  then show ?case by simp
qed

lemma messages_mono: "n \<le> n' \<Longrightarrow> messages n oks \<le> messages n' oks"
  by (induction n oks arbitrary: n' rule: messages.induct) simp_all

text \<open>
  Without FailFast every action runs; the configuration manager can only add messages.
\<close>

lemma seeds_all:
  "seeds P ff mgr n as es m \<Longrightarrow> \<not> ff \<Longrightarrow>
     \<exists>rs. list_all2 (ran P) as rs \<and> es = calls_of rs \<and> messages n (map snd rs) \<le> m \<and>
       (\<not> mgr \<longrightarrow> m = messages n (map snd rs))"
proof (induction rule: seeds.induct)
  case (seeds_done n)
  then show ?case by simp
next
  case (seeds_unknown a n as es m)
  then obtain rs where "list_all2 (ran P) as rs" "es = calls_of rs" "messages n (map snd rs) \<le> m"
    "\<not> mgr \<longrightarrow> m = messages n (map snd rs)"
    by blast
  moreover have "ran P a ([], None)" using seeds_unknown.hyps(1) by (simp add: ran_def)
  ultimately show ?case by (intro exI [of _ "([], None) # rs"]) simp
next
  case (seeds_next a p es ok n new as es' m)
  have "ran P a (es, Some ok)" using seeds_next.hyps(1,2) by (simp add: ran_def)
  moreover obtain rs where "list_all2 (ran P) as rs" "es' = calls_of rs"
    "messages (n + new) (map snd rs) \<le> m" "\<not> mgr \<longrightarrow> m = messages (n + new) (map snd rs)"
    using seeds_next by blast
  moreover have "2 * n + (if ok then 0 else 1) \<le> n + new"
    "\<not> mgr \<Longrightarrow> n + new = 2 * n + (if ok then 0 else 1)"
    using seeds_next.hyps(3) by (auto simp: new_messages_def)
  ultimately show ?case
    using messages_mono [of "2 * n + (if ok then 0 else 1)" "n + new" "map snd rs"]
    by (intro exI [of _ "(es, Some ok) # rs"]) auto
next
  case (seeds_stop a p es ok n new as)
  then show ?case by simp
qed

text \<open>With FailFast the first failure is the last action.\<close>

lemma seeds_fail_fast:
  "seeds P ff mgr n as es m \<Longrightarrow> ff \<Longrightarrow> n = 0 \<Longrightarrow> 0 < m \<Longrightarrow>
     \<exists>before a later rs seg p ok. as = before @ a # later \<and> es = calls_of rs @ seg \<and>
       list_all2 (ran P) before rs \<and> (\<forall>r \<in> set rs. snd r \<noteq> Some False) \<and>
       P a = Some p \<and> run_plan p seg = Some ok \<and> m \<le> 2 \<and> (\<not> mgr \<longrightarrow> \<not> ok \<and> m = 1)"
proof (induction rule: seeds.induct)
  case (seeds_done n)
  then show ?case by simp
next
  case (seeds_unknown a n as es m)
  then obtain before b later rs seg p ok where ih: "as = before @ b # later" "es = calls_of rs @ seg"
      "list_all2 (ran P) before rs" "\<forall>r \<in> set rs. snd r \<noteq> Some False"
      "P b = Some p" "run_plan p seg = Some ok" "m \<le> 2" "\<not> mgr \<longrightarrow> \<not> ok \<and> m = 1"
    by blast
  moreover have "ran P a ([], None)" using seeds_unknown.hyps(1) by (simp add: ran_def)
  ultimately show ?case
    by (intro exI [of _ "a # before"] exI [of _ b] exI [of _ later] exI [of _ "([], None) # rs"]
        exI [of _ seg] exI [of _ p] exI [of _ ok]) simp
next
  case (seeds_next a p es ok n new as es' m)
  then have new: "new = 0" "n + new = 0" by simp_all
  with seeds_next.hyps(3) have ok by (simp add: new_messages_def split: if_splits)
  with seeds_next.hyps(1,2) have "ran P a (es, Some True)" by (simp add: ran_def)
  moreover obtain before b later rs seg q ok' where ih: "as = before @ b # later" "es' = calls_of rs @ seg"
      "list_all2 (ran P) before rs" "\<forall>r \<in> set rs. snd r \<noteq> Some False"
      "P b = Some q" "run_plan q seg = Some ok'" "m \<le> 2" "\<not> mgr \<longrightarrow> \<not> ok' \<and> m = 1"
    using seeds_next new(2) by blast
  ultimately show ?case
    by (intro exI [of _ "a # before"] exI [of _ b] exI [of _ later] exI [of _ "(es, Some True) # rs"]
        exI [of _ seg] exI [of _ q] exI [of _ ok']) simp
next
  case (seeds_stop a p es ok n new as)
  then have "n + new \<le> 2" "\<not> mgr \<longrightarrow> \<not> ok \<and> n + new = 1"
    by (auto simp: new_messages_def split: if_splits)
  with seeds_stop.hyps(1,2) show ?case
    by (intro exI [of _ "[]"] exI [of _ a] exI [of _ as] exI [of _ "[]"] exI [of _ es] exI [of _ p]
        exI [of _ ok]) simp
qed

section \<open>Execute\<close>

text \<open>What the documentation of \<^verbatim>\<open>slices.SortFunc\<close> says of its result.\<close>

definition documented_sort :: "('w, 'o) lib \<Rightarrow> bool" where
  "documented_sort L \<longleftrightarrow>
     (\<forall>as. mset (xLongSort L compare_order as) = mset as \<and>
           sorted (map order_of (xLongSort L compare_order as)))"

definition in_order :: "('w, 'o) lib \<Rightarrow> ('w, 'o) StrategyRestSeeder \<Rightarrow> Action list" where
  "in_order L s = SortFunc (xLongSort L) compare_order (actions s)"

lemma in_order_sorted:
  assumes "documented_sort L"
  shows "mset (in_order L s) = mset (actions s)" "sorted (map order_of (in_order L s))"
proof -
  have "order_sort (SortFunc (xLongSort L) compare_order)"
    using assms by (intro SortFunc_order_sort) (simp add: documented_sort_def order_sort_def)
  then show "mset (in_order L s) = mset (actions s)" "sorted (map order_of (in_order L s))"
    by (simp_all add: in_order_def order_sort_def)
qed

lemma in_order_stable:
  "length (actions s) \<le> 12 \<Longrightarrow>
     filter (\<lambda>a. order_of a = k) (in_order L s) = filter (\<lambda>a. order_of a = k) (actions s)"
  by (simp add: in_order_def SortFunc_def insertion_sort_stable)

lemma replaceAuthTokens_keeps:
  assumes "replaceAuthTokens L s = (s1, out)"
  shows "s1 = s\<lparr>rest := rest s1\<rparr> \<and> seeder_events s1 = seeder_events s"
  using assms
  by (auto simp: replaceAuthTokens_def WithAuth_def map_ok_iff set_world_def seeder_events_def events_def
      action_calls_def split: option.splits prod.splits sum.splits res.splits if_splits)

lemma seeder_fields:
  assumes "s1 = s\<lparr>rest := r\<rparr>"
  shows "sStrategy s1 = sStrategy s" "configManager s1 = configManager s" "sOptions s1 = sOptions s"
    "actions s1 = actions s"
  using assms by simp_all

lemma final_error_cases:
  "final_error errs \<noteq> Panic" "final_error errs = Ok u \<longleftrightarrow> errs = []"
  by (auto simp: final_error_def)

lemma performAction_not_Fail: "snd (performAction L fn errs t) \<noteq> Fail e"
  by (auto simp: performAction_def gather_def andThen_def split: option.splits prod.splits res.splits)

lemma run_actions_not_Fail: "snd (run_actions L s errs as) \<noteq> Fail e"
proof (induction L s errs as rule: run_actions.induct)
  case (2 L s errs a as)
  show ?case
  proof (cases "map_of (sStrategy s) (Strategy a)")
    case None
    with "2.IH"(1) [OF None] show ?thesis
      by (cases "run_actions L s errs as"; cases "snd (run_actions L s errs as)") simp_all
  next
    case (Some fn)
    obtain t out where p: "performAction L fn errs (s, a, True) = (t, out)"
      by (cases "performAction L fn errs (s, a, True)")
    show ?thesis
    proof (cases out)
      case (Ok err)
      show ?thesis
      proof (cases "err \<noteq> [] \<and> FailFast (sOptions s)")
        case False
        from "2.IH"(2) [OF Some p [symmetric] Ok False] show ?thesis
          by (cases "run_actions L (fst t) (errs @ err) as";
              cases "snd (run_actions L (fst t) (errs @ err) as)") (auto simp: Some p Ok)
      qed (simp add: Some p Ok)
    next
      case (Fail e')
      with performAction_not_Fail [of L fn errs "(s, a, True)" e'] p show ?thesis by simp
    qed (simp add: Some p)
  qed
qed simp

text \<open>Execute, once the auth map is there, is the loop over the sorted actions.\<close>

lemma Execute_loop:
  assumes "Execute L s = (s', out)" "out \<noteq> Panic" "sStrategy s = strategy_table"
    "replaceAuthTokens L s = (s1, Ok u)"
  obtains es errs where "seeder_events s' = seeder_events s @ es" "out = final_error errs"
    "seeds (plan_of (xRest L)) (FailFast (sOptions s)) (configManager s \<noteq> None) 0 (in_order L s) es (length errs)"
proof -
  let ?s = "s1\<lparr>actions := in_order L s\<rparr>"
  have keep: "s1 = s\<lparr>rest := rest s1\<rparr>" "seeder_events s1 = seeder_events s"
    using replaceAuthTokens_keeps [OF assms(4)] by simp_all
  note f = seeder_fields [OF keep(1)]
  have l: "in_order L s1 = in_order L s" using f by (simp add: in_order_def)
  have ex: "andThen (run_actions L ?s [] (in_order L s)) (\<lambda>s2 r. (s2\<lparr>actions := fst r\<rparr>, final_error (snd r)))
      = (s', out)"
    using assms(1) l by (simp add: Execute_def assms(4) Let_def in_order_def)
  obtain s2 o2 where r: "run_actions L ?s [] (in_order L s) = (s2, o2)"
    by (cases "run_actions L ?s [] (in_order L s)")
  have "\<exists>as errs. o2 = Ok (as, errs)"
    using ex r assms(2) run_actions_not_Fail [of L ?s "[]" "in_order L s"] by (cases o2) auto
  then obtain as errs where o2: "o2 = Ok (as, errs)" by blast
  have "sStrategy ?s = strategy_table" using f assms(3) by simp
  from run_actions_same [OF r [unfolded o2] this] obtain es where
    "seeder_events s2 = seeder_events ?s @ es"
    "seeds (plan_of (xRest L)) (FailFast (sOptions ?s)) (configManager ?s \<noteq> None) 0 (in_order L s) es (length errs)"
    by auto
  moreover have "seeder_events ?s = seeder_events s" using keep(2) by (simp add: seeder_events_def)
  moreover have "s' = s2\<lparr>actions := as\<rparr>" "out = final_error errs" using ex r o2 by simp_all
  ultimately show ?thesis
    using f by (intro that [of es errs]) (simp_all add: seeder_events_def)
qed

lemma Execute_Ok:
  assumes "documented_sort L" "sStrategy s = strategy_table" "Execute L s = (s', Ok ())"
  shows "\<exists>as rs. mset as = mset (actions s) \<and> sorted (map order_of as) \<and>
    list_all2 (ran (plan_of (xRest L))) as rs \<and> (\<forall>r \<in> set rs. snd r \<noteq> Some False) \<and>
    seeder_events s' = seeder_events s @ calls_of rs"
proof -
  obtain s1 u where r: "replaceAuthTokens L s = (s1, Ok u)"
    using assms(3) by (auto simp: Execute_def andThen_Ok_iff)
  obtain es errs where e: "seeder_events s' = seeder_events s @ es" "Ok () = final_error errs"
    "seeds (plan_of (xRest L)) (FailFast (sOptions s)) (configManager s \<noteq> None) 0 (in_order L s) es (length errs)"
    by (rule Execute_loop [OF assms(3) _ assms(2) r]) auto
  have "length errs = 0" using e(2) final_error_cases(2) [of errs "()"] by simp
  from seeds_success [OF e(3) this] in_order_sorted [OF assms(1), of s] e(1) show ?thesis by blast
qed

text \<open>Whatever comes of a run, what it called stays in the log.\<close>

lemma Execute_grows:
  assumes "Execute L s = (s', out)" "out \<noteq> Panic" "sStrategy s = strategy_table"
  shows "extends (seeder_events s) (seeder_events s')"
proof -
  obtain s1 o1 where r: "replaceAuthTokens L s = (s1, o1)" by (cases "replaceAuthTokens L s")
  show ?thesis
  proof (cases o1)
    case (Ok u)
    from Execute_loop [OF assms r [unfolded Ok]] show ?thesis by (metis extends_append)
  next
    case (Fail e)
    with r assms(1) replaceAuthTokens_keeps [OF r] show ?thesis by (simp add: Execute_def)
  qed (use r assms(1,2) in \<open>simp add: Execute_def\<close>)
qed

section \<open>Properties\<close>


text \<open>
  Every strategy of the table keeps client, auth entries and the configuration of its
  action, and makes at most three calls.
\<close>

theorem table_strategies:
  assumes "map_of strategy_table st = Some fn" "snd (fn X c) \<noteq> Panic"
  shows "client (fst (fst (fn X c))) = client (fst c) \<and>
    auth_view (fst (fst (fn X c))) = auth_view (fst c) \<and>
    same_config (snd c) (snd (fst (fn X c))) \<and>
    length (events (fst (fn X c))) \<le> length (events c) + 3"
proof -
  from table_contract [OF assms(1)] obtain p where "strategy fn p"
    using safe_strategy.axioms(1) by blast
  from strategy.keeps_settings [OF this, where X = X and c = c] strategy.at_most_three [OF this assms(2)]
  show ?thesis by blast
qed

text \<open>
  C2: Execute reports success only where every action ran and succeeded: in ascending order
  of their order field (999 where there is none), the actions of the seeder make the calls
  of their plans, one after the other and no others, each plan ends in success, and only
  actions with an unknown strategy make no call.
\<close>

theorem Execute_success:
  assumes "documented_sort L" "sStrategy s = strategy_table" "Execute L s = (s', Ok ())"
  shows "\<exists>as rs. mset as = mset (actions s) \<and> sorted (map order_of as) \<and>
    list_all2 (ran (plan_of (xRest L))) as rs \<and> (\<forall>r \<in> set rs. snd r \<noteq> Some False) \<and>
    seeder_events s' = seeder_events s @ calls_of rs"
  using assms by (rule Execute_Ok)

text \<open>
  C4: Without FailFast every action runs, in ascending order, whatever happened before it,
  once the placeholders of the auth map are replaced.  Execute returns an error where some
  strategy failed, and, without a configuration manager, only there.
\<close>

theorem Execute_all_run:
  assumes "documented_sort L" "sStrategy s = strategy_table" "is_ok (snd (replaceAuthTokens L s))"
    "\<not> FailFast (sOptions s)" "Execute L s = (s', out)" "out \<noteq> Panic"
  shows "\<exists>as rs. mset as = mset (actions s) \<and> sorted (map order_of as) \<and>
    list_all2 (ran (plan_of (xRest L))) as rs \<and>
    seeder_events s' = seeder_events s @ calls_of rs \<and>
    (Some False \<in> snd ` set rs \<longrightarrow> \<not> is_ok out) \<and>
    (configManager s = None \<and> Some False \<notin> snd ` set rs \<longrightarrow> is_ok out)"
proof -
  obtain s1 u where r: "replaceAuthTokens L s = (s1, Ok u)"
    using assms(3) by (cases "replaceAuthTokens L s"; cases "snd (replaceAuthTokens L s)") auto
  obtain es errs where e: "seeder_events s' = seeder_events s @ es" "out = final_error errs"
    "seeds (plan_of (xRest L)) (FailFast (sOptions s)) (configManager s \<noteq> None) 0 (in_order L s) es (length errs)"
    by (rule Execute_loop [OF assms(5,6,2) r])
  from seeds_all [OF e(3) assms(4)] obtain rs where rs: "list_all2 (ran (plan_of (xRest L))) (in_order L s) rs"
    "es = calls_of rs" "messages 0 (map snd rs) \<le> length errs"
    "configManager s = None \<longrightarrow> length errs = messages 0 (map snd rs)" by auto
  have "is_ok out \<longleftrightarrow> errs = []" using e(2) by (auto simp: final_error_def)
  then have "Some False \<in> snd ` set rs \<longrightarrow> \<not> is_ok out"
    "configManager s = None \<and> Some False \<notin> snd ` set rs \<longrightarrow> is_ok out"
    using rs(3,4) messages_zero [of 0 "map snd rs"] by auto
  with rs(1,2) e(1) in_order_sorted [OF assms(1), of s] show ?thesis by blast
qed



lemma run_actions_unknown:
  "\<forall>a \<in> set as. map_of (sStrategy s) (Strategy a) = None \<Longrightarrow>
     run_actions L s errs as = (s, Ok (as, errs))"
  by (induction as) simp_all

text \<open>
  An action whose strategy is not in the table, FIND/DELETE among them, is passed over
  in silence: with only such actions Execute makes no call and reports success.
\<close>

theorem Execute_unknown:
  assumes "sStrategy s = strategy_table" "configManager s = None"
    "\<forall>a \<in> set (actions s). Strategy a \<notin> {PUT, POST, PUT_POST, GET_PUT_POST, FIND_PUT_POST,
       FIND_POST, GET_POST, FIND_DELETE_POST, FIND_PATCH_POST}"
    "documented_sort L"
  shows "Execute L s = (s\<lparr>actions := in_order L s\<rparr>, Ok ())"
proof -
  have "map_of (sStrategy s) (Strategy a) = None" if "a \<in> set (actions s)" for a
    using that assms(1,3) by (auto simp: strategy_table_def)
  moreover have "set (in_order L s) = set (actions s)"
    using in_order_sorted(1) [OF assms(4), of s] by (metis set_mset_mset)
  ultimately show ?thesis
    using assms(1,2)
    by (simp add: Execute_def replaceAuthTokens_def Let_def in_order_def [symmetric]
        run_actions_unknown final_error_def)
qed

text \<open>
  What a run leaves of the seeder: with no configuration manager its settings, client
  and auth entries (up to cached tokens) are those it started with.
\<close>

theorem run_actions_keeps:
  assumes "run_actions L s errs as = (s', Ok (as', errs'))" "sStrategy s = strategy_table"
  shows "s' = s\<lparr>rest := rest s'\<rparr> \<and> client (rest s') = client (rest s) \<and>
    auth_view (rest s') = auth_view (rest s) \<and> length as' = length as"
  using run_actions_same [OF assms] by (simp add: same_seeder_def rest_frame_def)

section \<open>Execute returns\<close>

lemma ready_same_rest: "rest_frame r r' \<Longrightarrow> ready X (r, a) \<Longrightarrow> ready X (r', a)"
  by (auto simp: ready_def can_call_def client_ready_def auth_entry_def rest_frame_def)

text \<open>
  A strategy of the table, run on an action that is ready, does not panic: it makes the
  calls of its plan, three at most, and reports what the plan says.
\<close>

theorem table_total:
  assumes "map_of strategy_table (Strategy (snd c)) = Some fn" "ready X c"
  shows "\<exists>p es. plan_of X (snd c) = Some p \<and> events (fst (fn X c)) = events c @ es \<and>
    run_plan p es = Some (is_ok (snd (fn X c))) \<and> snd (fn X c) \<noteq> Panic \<and> length es \<le> 3"
proof -
  from table_contract [OF assms(1)] obtain p where p: "map_of plan_table (Strategy (snd c)) = Some p"
    and st: "safe_strategy fn p" by blast
  obtain es where "events (fst (fn X c)) = events c @ es"
    "run_plan (p X (snd c)) es = Some (is_ok (snd (fn X c)))" "length es \<le> 3"
    by (rule safe_strategy.total [OF st assms(2)])
  with p safe_strategy.no_panic [OF st assms(2)] show ?thesis by (auto simp: plan_of_def)
qed

lemma ready_same_entry:
  assumes "same_entry a b" "ready X (r, a)"
  shows "ready X (r, b)"
proof -
  from assms(1) obtain t u v where
    b: "b = a\<lparr>PatchPayloadTemplate := t, PayloadTemplate := u, Variables := v\<rparr>"
    unfolding same_entry_def by blast
  then have "foundId b = foundId a" "lookup X b = lookup X a" "id_ok b = id_ok a" "post_url b = post_url a"
    "auth_entry r b = auth_entry r a" "aHeader b = aHeader a"
    by (simp_all add: lookup_def id_ok_def post_url_def put_url_def patch_url_def delete_url_def
        with_id_def auth_entry_def fun_eq_iff)
  with assms(2) show ?thesis by (simp add: ready_def can_call_def)
qed

text \<open>A manager is followed through its options.\<close>

definition manager_ready :: "('w, 'o) StrategyRestSeeder \<Rightarrow> bool" where
  "manager_ready s \<longleftrightarrow> (configManager s = None \<or> configManagerOptions s \<noteq> None)"

lemma manager_ready_same: "same_seeder s s' \<Longrightarrow> manager_ready s' = manager_ready s"
  unfolding same_seeder_def manager_ready_def by (cases s; cases s') simp

lemma replaced_total:
  assumes "manager_ready s"
  obtains s1 a1 sh1 err1 where
    "(case configManager s of None \<Rightarrow> ((s, a, sh), Ok errs)
      | Some cm \<Rightarrow> gather errs (configManagerReplaceAction L cm (s, a, sh))) = ((s1, a1, sh1), Ok err1)"
    "same_seeder s s1" "same_entry a a1"
proof (cases "configManager s")
  case None
  then show ?thesis by (intro that [of s a sh errs]) simp_all
next
  case (Some cm)
  obtain s1 a1 sh1 out where r: "configManagerReplaceAction L cm (s, a, sh) = ((s1, a1, sh1), out)"
    by (metis prod.collapse)
  have "out \<noteq> Panic"
    using assms Some r
    by (auto simp: manager_ready_def configManagerReplaceAction_def split: option.splits prod.splits sum.splits)
  then obtain err1 where "gather errs ((s1, a1, sh1), out) = ((s1, a1, sh1), Ok err1)"
    by (cases out) (simp_all add: gather_def)
  with Some r replace_action [OF r] show ?thesis by (intro that [of s1 a1 sh1 err1]) simp_all
qed

lemma performAction_total:
  assumes "map_of strategy_table (Strategy a) = Some fn" "ready (xRest L) (rest s, a)" "manager_ready s"
  shows "snd (performAction L fn errs (s, a, sh)) \<noteq> Panic"
proof -
  obtain s1 a1 sh1 err1 where m: "(case configManager s of None \<Rightarrow> ((s, a, sh), Ok errs)
      | Some cm \<Rightarrow> gather errs (configManagerReplaceAction L cm (s, a, sh))) = ((s1, a1, sh1), Ok err1)"
    "same_seeder s s1" "same_entry a a1"
    by (rule replaced_total [OF assms(3)])
  have "rest_frame (rest s) (rest s1)" using m(2) unfolding same_seeder_def by blast
  from ready_same_entry [OF m(3) ready_same_rest [OF this assms(2)]]
  have rd: "ready (xRest L) (rest s1, a1)" .
  obtain p where "safe_strategy fn p" using table_contract [OF assms(1)] by blast
  from safe_strategy.no_panic [OF this rd]
  obtain c out where "fn (xRest L) (rest s1, a1) = (c, out)" "out \<noteq> Panic"
    by (cases "fn (xRest L) (rest s1, a1)") auto
  with m(1) show ?thesis
    by (cases c; cases out) (auto simp: performAction_def gather_def run_strategy_def)
qed

lemma run_actions_total:
  assumes "sStrategy s = strategy_table" "manager_ready s"
    "\<forall>a \<in> set as. ready (xRest L) (rest s, a)"
  shows "snd (run_actions L s errs as) \<noteq> Panic"
  using assms
proof (induction L s errs as rule: run_actions.induct)
  case (2 L s errs a as)
  show ?case
  proof (cases "map_of (sStrategy s) (Strategy a)")
    case None
    with "2.IH"(1) [OF None] "2.prems" show ?thesis by (simp add: snd_andThen_Panic_iff)
  next
    case (Some fn)
    then have fn: "map_of strategy_table (Strategy a) = Some fn" using "2.prems"(1) by simp
    obtain t out where t: "performAction L fn errs (s, a, True) = (t, out)"
      by (cases "performAction L fn errs (s, a, True)")
    obtain s1 a1 sh where s1: "t = (s1, a1, sh)" by (cases t)
    have "out \<noteq> Panic"
      using performAction_total [OF fn _ "2.prems"(2), of L errs True] "2.prems"(3) t by simp
    moreover have "out \<noteq> Fail e" for e
      using performAction_not_Fail [of L fn errs "(s, a, True)" e] t by simp
    ultimately obtain err where out: "out = Ok err" by (cases out) auto
    have same: "same_seeder s s1" using performAction_follows [OF fn] t s1 out by blast
    have rd: "\<forall>a \<in> set as. ready (xRest L) (rest s1, a)"
      using "2.prems"(3) same ready_same_rest [of "rest s" "rest s1"] by (auto simp: same_seeder_def)
    show ?thesis
    proof (cases "err \<noteq> [] \<and> FailFast (sOptions s)")
      case True
      then show ?thesis using Some t out by simp
    next
      case False
      from "2.IH"(2) [OF Some t [symmetric] out False] rd same_seeder_fields [OF same] "2.prems" s1
        manager_ready_same [OF same]
      have "snd (run_actions L s1 (errs @ err) as) \<noteq> Panic" by simp
      then show ?thesis using Some t out False s1 by (auto simp: snd_andThen_Panic_iff)
    qed
  qed
qed simp

text \<open>
  C5: Execute returns, with or without an error, and never panics, where the placeholders of
  the auth map are replaced, every action is ready with what that left of the auth entries,
  and a configuration manager has its options; it then has run as FailFast says.
\<close>

theorem Execute_returns:
  assumes "documented_sort L" "sStrategy s = strategy_table" "manager_ready s"
    "replaceAuthTokens L s = (s1, Ok ())"
    "\<forall>a \<in> set (actions s). ready (xRest L) (rest s1, a)"
  shows "\<exists>s' out. Execute L s = (s', out) \<and> (out = Ok () \<or> (\<exists>t. out = Fail (Plain t)))"
proof -
  have keep: "s1 = s\<lparr>rest := rest s1\<rparr>" using replaceAuthTokens_keeps [OF assms(4)] by simp
  note f = seeder_fields [OF keep]
  let ?s = "s1\<lparr>actions := in_order L s\<rparr>"
  have l: "in_order L s1 = in_order L s" using f by (simp add: in_order_def)
  have "set (in_order L s) = set (actions s)"
    using in_order_sorted(1) [OF assms(1), of s] by (metis set_mset_mset)
  moreover have "configManagerOptions s1 = configManagerOptions s"
    by (subst keep) simp
  then have "manager_ready ?s" "sStrategy ?s = strategy_table"
    using assms(2,3) f by (simp_all add: manager_ready_def)
  ultimately have "snd (run_actions L ?s [] (in_order L s)) \<noteq> Panic"
    using assms(5) by (intro run_actions_total) simp_all
  moreover have "snd (run_actions L ?s [] (in_order L s)) \<noteq> Fail e" for e
    by (rule run_actions_not_Fail)
  ultimately obtain s2 q where "run_actions L ?s [] (in_order L s) = (s2, Ok q)"
    by (cases "run_actions L ?s [] (in_order L s)"; cases "snd (run_actions L ?s [] (in_order L s))") auto
  then show ?thesis
    by (simp add: Execute_def assms(4) Let_def in_order_def [symmetric] l final_error_def)
qed

text \<open>
  C34: The order of a run is the documented one where no two actions share an order value: it
  does not depend on the order in which Go visits the map of actions.
\<close>

theorem map_order_irrelevant:
  assumes "documented_sort L" "same_map m m'"
    "\<forall>p \<in> set m. \<forall>q \<in> set m. order_of (snd p) = order_of (snd q) \<longrightarrow> p = q"
  shows "in_order L (WithActions m (s\<lparr>actions := []\<rparr>)) = in_order L (WithActions m' (s\<lparr>actions := []\<rparr>))"
proof (rule sorted_unique)
  let ?n = "\<lambda>(k, v). WithHeader (WithName k v)"
  have eq: "mset (actions (WithActions m (s\<lparr>actions := []\<rparr>))) = mset (actions (WithActions m' (s\<lparr>actions := []\<rparr>)))"
    by (rule WithActions_mset [OF assms(2)])
  then show "mset (in_order L (WithActions m (s\<lparr>actions := []\<rparr>))) = mset (in_order L (WithActions m' (s\<lparr>actions := []\<rparr>)))"
    by (simp add: in_order_sorted(1) [OF assms(1)])
  have acts: "actions (WithActions m (s\<lparr>actions := []\<rparr>)) = map ?n m" by (simp add: WithActions_eq)
  have "set (in_order L (WithActions m (s\<lparr>actions := []\<rparr>))) = set (map ?n m)"
    unfolding acts [symmetric] by (rule mset_eq_setD [OF in_order_sorted(1) [OF assms(1)]])
  moreover have "inj_on order_of (?n ` set m)"
    using assms(3) by (fastforce simp: inj_on_def)
  ultimately show "inj_on order_of (set (in_order L (WithActions m (s\<lparr>actions := []\<rparr>))))" by simp
qed (rule in_order_sorted(2) [OF assms(1)])+

end
