(* ===== verification/Samples.thy ===== *)
theory Samples
  imports Seeding
begin

text \<open>
  Concrete configurations the properties are applied to: third-party parts that do the
  least (a template engine that changes nothing, a path engine that takes the whole
  document for the value), servers given by their answers, and small actions.
\<close>

section \<open>Third-party parts\<close>

definition sample_ext :: "unit ext" where
  "sample_ext = \<lparr>xEnvsubst = (\<lambda>e t. (t, None)), xJSONPath = whole_number,
     xClientToken = (\<lambda>w c. (w, Inl ''no token'')),
     xPasswordToken = (\<lambda>w c u p. (w, Inl ''no token''))\<rparr>"

text \<open>A server that answers each method with a status and a body.\<close>

definition answer :: "int \<Rightarrow> string \<Rightarrow> string + response" where
  "answer status text = Inr \<lparr>rsStatus = status, rsBody = Some (Readable text)\<rparr>"

definition server :: "(string \<Rightarrow> string + response) \<Rightarrow> unit client" where
  "server f w rq = (w, f (rqMethod rq))"

definition rejecting_put :: "unit client" where
  "rejecting_put = server (\<lambda>m. if m = ''PUT'' then answer 404 ''none'' else answer 200 ''42'')"

definition broken_server :: "unit client" where
  "broken_server = server (\<lambda>m. answer 500 ''down'')"

definition sample_lib :: "unit client \<Rightarrow> (unit, unit) lib" where
  "sample_lib c = \<lparr>xRest = sample_ext, xHttpClient = c,
     xAuthJson = (\<lambda>cm opts w am. (w, Inr am)), xActionJson = (\<lambda>cm opts w a. (w, Inr a)),
     xLongSort = insertion_sort\<rparr>"

lemma sample_lib_sorts: "documented_sort (sample_lib c)"
  by (simp add: documented_sort_def sample_lib_def insertion_sort_sorted)

section \<open>Actions\<close>

definition sample_action :: "string \<Rightarrow> string \<Rightarrow> int option \<Rightarrow> Action" where
  "sample_action name st ord = zero_action\<lparr>Name := name, Strategy := st, Order := ord,
     Endpoint := ''/v'', AuthMapRef := ''b''\<rparr>"

definition no_env :: environ where
  "no_env = (\<lambda>k. None)"

definition sample_seeder :: "unit client \<Rightarrow> bool \<Rightarrow> Action list \<Rightarrow> (unit, unit) StrategyRestSeeder" where
  "sample_seeder c ff as =
     (case WithAuthFromList [example_basic] (New (sample_lib c) empty_net no_env) of
        Ok s \<Rightarrow> WithOptions \<lparr>FailFast = ff\<rparr> (WithActionsList as s)
      | _ \<Rightarrow> New (sample_lib c) empty_net no_env)"

definition three_actions :: "Action list" where
  "three_actions = [sample_action ''last'' POST None, sample_action ''second'' PUT_POST (Some 2),
     sample_action ''first'' POST (Some 1)]"

lemma sample_auth: "\<exists>ac. NewAuth (auth_map_of_list [example_basic]) = Ok ac"
  by (simp add: NewAuth_Ok_iff auth_map_of_list_def example_basic_def complete_config_def auth_types)

lemma sample_seeder_fields:
  "sStrategy (sample_seeder c ff as) = strategy_table"
  "configManager (sample_seeder c ff as) = None"
  "FailFast (sOptions (sample_seeder c ff as)) = ff"
  "actions (sample_seeder c ff as) = map (\<lambda>v. WithHeader (WithName (Name v) v)) as"
proof -
  obtain ac where "NewAuth (auth_map_of_list [example_basic]) = Ok ac" using sample_auth by blast
  then show "sStrategy (sample_seeder c ff as) = strategy_table"
    "configManager (sample_seeder c ff as) = None"
    "FailFast (sOptions (sample_seeder c ff as)) = ff"
    "actions (sample_seeder c ff as) = map (\<lambda>v. WithHeader (WithName (Name v) v)) as"
    by (simp_all add: sample_seeder_def WithAuthFromList_def seeder_WithAuth_def WithAuth_def
        New_def WithOptions_def WithActionsList_eq)
qed

lemma run_pair: "snd m = y \<Longrightarrow> m = (fst m, y)"
  by (cases m) simp

lemma ok_pair: "is_ok m \<Longrightarrow> \<exists>a b. m = Ok (a, b)"
  by (cases m) auto

lemma ok_length: "map_ok (length \<circ> snd) m = Ok n \<Longrightarrow> \<exists>a b. m = Ok (a, b) \<and> length b = n"
  by (cases m) auto

lemma is_fail: "\<not> is_ok m \<Longrightarrow> m \<noteq> Panic \<Longrightarrow> \<exists>e. m = Fail e"
  by (cases m) auto

text \<open>One action, with the REST state a seeder would have.\<close>

definition sample_conf :: "unit client \<Rightarrow> Action \<Rightarrow> unit conf" where
  "sample_conf c a =
     ((WithClient c (NewSeederImpl empty_net no_env))\<lparr>auth_map := Some example_auth\<rparr>, WithHeader a)"

definition sample_put_post :: "unit conf" where
  "sample_put_post = sample_conf rejecting_put (sample_action ''a'' PUT_POST None)"

end
