(* ===== verification/Sample_Runs.thy ===== *)
theory Sample_Runs
  imports Samples
begin

text \<open>The properties of the seeder applied to the sample runs.\<close>

theorem table_strategies_witness:
  "length (events (fst (PutPost sample_ext sample_put_post))) \<le> 3"
proof -
  have "map_of strategy_table PUT_POST = Some (PutPostStrategyFunc :: unit StrategyFunc)"
    by (simp add: strategy_table_def strategy_types)
  moreover have "snd (PutPostStrategyFunc sample_ext sample_put_post) \<noteq> Panic" by code_simp
  ultimately have "length (events (fst (PutPostStrategyFunc sample_ext sample_put_post)))
      \<le> length (events sample_put_post) + 3"
    by (rule table_strategies [THEN conjunct2, THEN conjunct2, THEN conjunct2])
  moreover have "events sample_put_post = []" by code_simp
  ultimately show ?thesis by (simp add: PutPostStrategyFunc_def)
qed

section \<open>Execute\<close>

text \<open>Each sample run is evaluated once: its calls, and how it ended.\<close>

definition summary :: "(unit, unit) StrategyRestSeeder \<times> unit outcome \<Rightarrow> event list \<times> bool \<times> bool" where
  "summary r = (case r of (s, out) \<Rightarrow> (seeder_events s, is_ok out, is_panic out))"

lemma is_ok_unit: "is_ok out \<longleftrightarrow> out = Ok ()" "is_panic out \<longleftrightarrow> out = Panic"
  by (cases out; simp)+

lemma summary_eq:
  "summary r = (es, ok, pa) \<longleftrightarrow>
     seeder_events (fst r) = es \<and> (snd r = Ok () \<longleftrightarrow> ok) \<and> (snd r = Panic \<longleftrightarrow> pa)"
  by (cases r) (auto simp: summary_def is_ok_unit)

lemma run_rejecting:
  "summary (Execute (sample_lib rejecting_put) (sample_seeder rejecting_put False three_actions)) =
     ([(''POST'', Success ''42''), (''PUT'', Rejected), (''POST'', Success ''42''),
       (''POST'', Success ''42'')], True, False)"
  by code_simp

lemma run_broken:
  "summary (Execute (sample_lib broken_server) (sample_seeder broken_server False three_actions)) =
     ([(''POST'', ServerError), (''PUT'', ServerError), (''POST'', ServerError)], False, False)"
  by code_simp

lemma run_broken_fast:
  "summary (Execute (sample_lib broken_server) (sample_seeder broken_server True three_actions)) =
     ([(''POST'', ServerError)], False, False)"
  by code_simp

lemma loop_broken:
  "map_ok (\<lambda>q. (length (fst q), length (snd q)))
     (snd (run_actions (sample_lib broken_server) (sample_seeder broken_server False three_actions) []
        (map (\<lambda>v. WithHeader (WithName (Name v) v)) three_actions))) = Ok (3, 7)"
  by code_simp

lemma no_calls_yet: "seeder_events (sample_seeder c ff as) = []"
proof -
  obtain ac where "NewAuth (auth_map_of_list [example_basic]) = Ok ac" using sample_auth by blast
  then show ?thesis
    by (simp add: sample_seeder_def WithAuthFromList_def seeder_WithAuth_def WithAuth_def New_def
        WithOptions_def WithActionsList_eq seeder_events_net WithClient_def NewSeederImpl_def empty_net_def
        net_events_def)
qed

theorem Execute_success_witness:
  "\<exists>as rs. mset as = mset (actions (sample_seeder rejecting_put False three_actions)) \<and>
     sorted (map order_of as) \<and> list_all2 (ran (plan_of sample_ext)) as rs \<and>
     calls_of rs = [(''POST'', Success ''42''), (''PUT'', Rejected), (''POST'', Success ''42''),
       (''POST'', Success ''42'')]"
proof -
  let ?s = "sample_seeder rejecting_put False three_actions"
  let ?r = "Execute (sample_lib rejecting_put) ?s"
  note run = run_rejecting [unfolded summary_eq]
  then have "snd ?r = Ok ()" by blast
  then have "?r = (fst ?r, Ok ())" by (rule run_pair)
  from Execute_success [OF sample_lib_sorts sample_seeder_fields(1) this]
  obtain as rs where e: "mset as = mset (actions ?s)" "sorted (map order_of as)"
    "list_all2 (ran (plan_of (xRest (sample_lib rejecting_put)))) as rs"
    "seeder_events (fst ?r) = seeder_events ?s @ calls_of rs" by blast
  note run [THEN conjunct1]
  moreover have "seeder_events ?s = []" by (rule no_calls_yet)
  moreover have "xRest (sample_lib rejecting_put) = sample_ext" by (simp add: sample_lib_def)
  ultimately show ?thesis using e by auto
qed

theorem Execute_all_run_witness:
  "\<exists>as rs. sorted (map order_of as) \<and> list_all2 (ran (plan_of sample_ext)) as rs \<and>
     calls_of rs = [(''POST'', ServerError), (''PUT'', ServerError), (''POST'', ServerError)] \<and>
     Some False \<in> snd ` set rs"
proof -
  let ?s = "sample_seeder broken_server False three_actions"
  let ?r = "Execute (sample_lib broken_server) ?s"
  note run = run_broken [unfolded summary_eq]
  then have bad: "\<not> is_ok (snd ?r)" "snd ?r \<noteq> Panic" by (simp_all add: is_ok_unit)
  have "\<not> FailFast (sOptions ?s)" by (simp add: sample_seeder_fields)
  moreover have "is_ok (snd (replaceAuthTokens (sample_lib broken_server) ?s))"
    by (simp add: replaceAuthTokens_def sample_seeder_fields)
  ultimately obtain as rs where e: "sorted (map order_of as)"
    "list_all2 (ran (plan_of (xRest (sample_lib broken_server)))) as rs"
    "seeder_events (fst ?r) = seeder_events ?s @ calls_of rs"
    "Some False \<notin> snd ` set rs \<Longrightarrow> is_ok (snd ?r)"
    using Execute_all_run [OF sample_lib_sorts sample_seeder_fields(1) _ _ prod.collapse [symmetric] bad(2)]
      sample_seeder_fields(2) by metis
  note run [THEN conjunct1]
  moreover have "seeder_events ?s = []" by (rule no_calls_yet)
  moreover have "xRest (sample_lib broken_server) = sample_ext" by (simp add: sample_lib_def)
  ultimately show ?thesis using e bad(1) by auto
qed



theorem Execute_unknown_witness:
  "snd (Execute (sample_lib broken_server)
     (sample_seeder broken_server True [sample_action ''gone'' FIND_DELETE None])) = Ok ()"
proof -
  let ?s = "sample_seeder broken_server True [sample_action ''gone'' FIND_DELETE None]"
  have "\<forall>a \<in> set (actions ?s). Strategy a \<notin> {PUT, POST, PUT_POST, GET_PUT_POST, FIND_PUT_POST,
      FIND_POST, GET_POST, FIND_DELETE_POST, FIND_PATCH_POST}"
    by (simp add: sample_seeder_fields sample_action_def WithHeader_def WithName_def strategy_types)
  from Execute_unknown [OF sample_seeder_fields(1,2) this sample_lib_sorts] show ?thesis by simp
qed

theorem run_actions_keeps_witness:
  "\<exists>r as' errs. run_actions (sample_lib broken_server) (sample_seeder broken_server False three_actions) []
       (actions (sample_seeder broken_server False three_actions)) =
     ((sample_seeder broken_server False three_actions)\<lparr>rest := r\<rparr>, Ok (as', errs)) \<and> length as' = 3"
proof -
  let ?s = "sample_seeder broken_server False three_actions"
  let ?r = "run_actions (sample_lib broken_server) ?s [] (actions ?s)"
  have "is_ok (snd ?r)" using loop_broken by (auto simp: sample_seeder_fields map_ok_iff)
  from ok_pair [OF this] obtain as' errs where sn: "snd ?r = Ok (as', errs)" by blast
  have r: "?r = (fst ?r, Ok (as', errs))" by (rule run_pair [OF sn])
  from run_actions_keeps [OF r sample_seeder_fields(1)]
  have k: "fst ?r = ?s\<lparr>rest := rest (fst ?r)\<rparr>" "length as' = length (actions ?s)" by blast+
  have "length as' = 3" unfolding k(2) by (simp add: sample_seeder_fields three_actions_def)
  have "?r = (?s\<lparr>rest := rest (fst ?r)\<rparr>, Ok (as', errs))"
    by (rule trans [OF r]) (rule arg_cong [OF k(1)])
  from conjI [OF this \<open>length as' = 3\<close>] show ?thesis by (intro exI)
qed

section \<open>Readiness and order\<close>

lemma sample_ready:
  assumes "a \<in> set (actions (sample_seeder rejecting_put False three_actions))"
  shows "ready sample_ext (rest (sample_seeder rejecting_put False three_actions), a)"
proof -
  let ?r = "rest (sample_seeder rejecting_put False three_actions)"
  have "map_option (map (\<lambda>(k, e). (k, authStrategy e, basicCred e \<noteq> None))) (auth_map ?r) = Some [(''b'', Basic, True)]"
    by code_simp
  then obtain e where am: "auth_map ?r = Some [(''b'', e)]" "authStrategy e = Basic" "basicCred e \<noteq> None"
    by auto
  have "map_option (\<lambda>f. ()) (client ?r) = Some ()" by code_simp
  have cl: "client ?r = Some rejecting_put"
    using sample_auth by (auto simp: sample_seeder_def WithAuthFromList_def seeder_WithAuth_def WithAuth_def New_def
        WithOptions_def WithActionsList_eq sample_lib_def WithClient_def)
  have body: "rsBody resp \<noteq> None" if "rejecting_put w rq = (w', Inr resp)" for w rq w' resp
    using that by (auto simp: rejecting_put_def server_def answer_def split: if_splits)
  have v: "url_ok ''/v''"
  proof -
    have "case parse_url ''/v'' of Inl t \<Rightarrow> False | Inr u \<Rightarrow> True" by code_simp
    then show ?thesis by (auto simp: url_ok_def split: sum.splits)
  qed
  have "a \<in> (\<lambda>v. WithHeader (WithName (Name v) v)) ` set three_actions"
    using assms by (simp add: sample_seeder_fields)
  then have a: "Endpoint a = ''/v''" "PostEndpointSuffix a = None" "PutEndpointSuffix a = None"
    "PatchEndpointSuffix a = None" "DeleteEndpointSuffix a = None" "foundId a = []"
    "FindByJsonPathExpr a = []" "AuthMapRef a = ''b''" "aHeader a \<noteq> None"
    by (auto simp: three_actions_def sample_action_def WithHeader_def WithName_def zero_action_def)
  have "client_ready ?r" using cl body by (simp add: client_ready_def)
  moreover have "entry_ready sample_ext (forget_token e)"
    using am by (simp add: entry_ready_def forget_token_def auth_types)
  moreover have "auth_entry ?r a = Some (forget_token e)"
    using am a by (simp add: auth_entry_def auth_view_def)
  moreover have "id_ok a []" "url_ok (post_url a)"
    using v a by (simp_all add: id_ok_def post_url_def put_url_def patch_url_def delete_url_def
        with_suffix_def with_id_def)
  moreover have "lookup sample_ext a s = Some []" for s
    using a by (simp add: lookup_def FindPathByExpression_def)
  ultimately show ?thesis using a by (simp add: ready_def can_call_def)
qed

theorem Execute_returns_witness:
  "\<exists>s' out. Execute (sample_lib rejecting_put) (sample_seeder rejecting_put False three_actions) = (s', out) \<and>
     (out = Ok () \<or> (\<exists>t. out = Fail (Plain t)))"
proof -
  let ?s = "sample_seeder rejecting_put False three_actions"
  have "\<forall>a \<in> set (actions ?s). ready (xRest (sample_lib rejecting_put)) (rest ?s, a)"
    using sample_ready by (simp add: sample_lib_def)
  moreover have "manager_ready ?s" "replaceAuthTokens (sample_lib rejecting_put) ?s = (?s, Ok ())"
    by (simp_all add: manager_ready_def replaceAuthTokens_def sample_seeder_fields)
  ultimately show ?thesis
    by (intro Execute_returns [OF sample_lib_sorts sample_seeder_fields(1)]) assumption+
qed

definition two_entries :: "Action gomap" where
  "two_entries = [(''x'', sample_action ''x'' POST (Some 2)), (''y'', sample_action ''y'' PUT (Some 1))]"

theorem map_order_irrelevant_witness:
  "in_order (sample_lib rejecting_put) (WithActions two_entries ((sample_seeder rejecting_put False [])\<lparr>actions := []\<rparr>)) =
     in_order (sample_lib rejecting_put) (WithActions (rev two_entries) ((sample_seeder rejecting_put False [])\<lparr>actions := []\<rparr>))"
proof (rule map_order_irrelevant [OF sample_lib_sorts])
  show "same_map two_entries (rev two_entries)" by (auto simp: same_map_def two_entries_def)
  show "\<forall>p \<in> set two_entries. \<forall>q \<in> set two_entries. order_of (snd p) = order_of (snd q) \<longrightarrow> p = q"
    by (auto simp: two_entries_def order_of_def sample_action_def)
qed

end
