(* ===== verification/Secrets.thy ===== *)
theory Secrets
  imports Seeding
begin

text \<open>
  The configuration manager in a run of \<^verbatim>\<open>StrategyRestSeeder.Execute\<close>: placeholders in the
  auth map are replaced before anything else, those of an action just before its strategy
  runs.  The lemmas follow both replacements through the loop, where they succeed and where
  they fail.
\<close>

section \<open>Replacing the placeholders of one action\<close>

lemma set_world_id [simp]: "set_world (nWorld (net (rest s))) s = s"
  by (simp add: set_world_def)

text \<open>A manager that cannot replace anything, and touches nothing of the outside world.\<close>

definition unavailable :: "('w, 'o) lib \<Rightarrow> ('w, 'o) StrategyRestSeeder \<Rightarrow> bool" where
  "unavailable L s \<longleftrightarrow>
     (case (configManager s, configManagerOptions s) of
        (Some cm, Some opts) \<Rightarrow> \<forall>w a. \<exists>e. xActionJson L cm opts w a = (w, Inl e)
      | _ \<Rightarrow> False)"

lemma unavailable_rest [simp]: "unavailable L (s\<lparr>rest := r\<rparr>) = unavailable L s"
  by (simp add: unavailable_def)

lemma unavailable_performAction:
  assumes "unavailable L s"
  obtains e where "performAction L fn errs (s, a, sh) = gather (errs @ [e]) (run_strategy L fn (s, a, sh))"
proof -
  obtain cm opts where c: "configManager s = Some cm" "configManagerOptions s = Some opts"
    "\<forall>w a. \<exists>e. xActionJson L cm opts w a = (w, Inl e)"
    using assms by (auto simp: unavailable_def split: option.splits)
  then obtain e where "xActionJson L cm opts (nWorld (net (rest s))) a = (nWorld (net (rest s)), Inl e)"
    by blast
  with c(2) obtain d where d: "configManagerReplaceAction L cm (s, a, sh) = ((s, a, sh), Fail d)"
    by (simp add: configManagerReplaceAction_def)
  have "gather errs ((s, a, sh), Fail d) = ((s, a, sh), Ok (errs @ [d]))" by (simp add: gather_def)
  with c(1) d show ?thesis by (intro that [of d]) (simp add: performAction_def)
qed

lemma without_performAction:
  "configManager s = None \<Longrightarrow>
     performAction L fn errs (s, a, sh) = gather errs (run_strategy L fn (s, a, sh))"
  by (simp add: performAction_def)

text \<open>Without its manager the strategy does the same.\<close>

lemma run_strategy_without:
  "run_strategy L fn (s\<lparr>configManager := m\<rparr>, a, sh) =
     (case run_strategy L fn (s, a, sh) of
        ((s', a', sh'), out) \<Rightarrow> ((s'\<lparr>configManager := m\<rparr>, a', sh'), out))"
  by (simp add: run_strategy_def split: prod.split)

lemma run_strategy_seeder:
  "run_strategy L fn (s, a, sh) = ((s', a', sh'), out) \<Longrightarrow> s' = s\<lparr>rest := rest s'\<rparr> \<and> sh' = sh"
  by (auto simp: run_strategy_def split: prod.splits)

lemma actions_without:
  "s\<lparr>configManager := m, actions := as\<rparr> = s\<lparr>actions := as, configManager := m\<rparr>"
  by (cases s) simp

section \<open>The loop with a manager that replaces nothing\<close>

definition same_outcome ::
  "bool \<Rightarrow> (Action list \<times> go_error list) outcome \<Rightarrow> (Action list \<times> go_error list) outcome \<Rightarrow> bool" where
  "same_outcome idle o1 o2 \<longleftrightarrow>
     (case (o1, o2) of
        (Ok (as1, e1), Ok (as2, e2)) \<Rightarrow> as1 = as2 \<and> (e1 = [] \<longrightarrow> idle)
      | (Panic, Panic) \<Rightarrow> True
      | _ \<Rightarrow> False)"

lemma run_actions_raw:
  assumes "unavailable L s" "\<not> FailFast (sOptions s)"
    "run_actions L s errs as = (s1, o1)"
    "run_actions L (s\<lparr>configManager := None\<rparr>) errs' as = (s2, o2)"
  shows "s2 = s1\<lparr>configManager := None\<rparr> \<and>
    same_outcome (errs = [] \<and> (\<forall>a \<in> set as. map_of (sStrategy s) (Strategy a) = None)) o1 o2"
  using assms
proof (induction as arbitrary: s errs errs' s1 o1 s2 o2)
  case Nil
  then show ?case by (auto simp: same_outcome_def)
next
  case (Cons a as)
  let ?t = "s\<lparr>configManager := None\<rparr>"
  show ?case
  proof (cases "map_of (sStrategy s) (Strategy a)")
    case None
    obtain u1 p1 where r1: "run_actions L s errs as = (u1, p1)" by (cases "run_actions L s errs as")
    obtain u2 p2 where r2: "run_actions L ?t errs' as = (u2, p2)" by (cases "run_actions L ?t errs' as")
    from Cons.IH [OF Cons.prems(1,2) r1 r2] Cons.prems(3,4) show ?thesis
      by (cases p1; cases p2) (auto simp: None r1 r2 same_outcome_def)
  next
    case (Some fn)
    obtain e where e: "performAction L fn errs (s, a, True) = gather (errs @ [e]) (run_strategy L fn (s, a, True))"
      by (rule unavailable_performAction [OF Cons.prems(1)])
    obtain s' a' sh out where r: "run_strategy L fn (s, a, True) = ((s', a', sh), out)"
      by (metis prod_cases3 surj_pair)
    have t: "performAction L fn errs' (?t, a, True) =
        gather errs' ((s'\<lparr>configManager := None\<rparr>, a', sh), out)"
      using without_performAction [of ?t] run_strategy_without [of L fn None s a True] r by simp
    from run_strategy_seeder [OF r] obtain rr where s': "s' = s\<lparr>rest := rr\<rparr>" by blast
    have next_one: ?thesis if "performAction L fn errs (s, a, True) = ((s', a', sh), Ok f1)"
      "performAction L fn errs' (?t, a, True) = ((s'\<lparr>configManager := None\<rparr>, a', sh), Ok f2)"
      "f1 \<noteq> []" for f1 f2
    proof -
      obtain u1 p1 where r1: "run_actions L s' (errs @ f1) as = (u1, p1)"
        by (cases "run_actions L s' (errs @ f1) as")
      obtain u2 p2 where r2: "run_actions L (s'\<lparr>configManager := None\<rparr>) (errs' @ f2) as = (u2, p2)"
        by (cases "run_actions L (s'\<lparr>configManager := None\<rparr>) (errs' @ f2) as")
      have "unavailable L s'" "\<not> FailFast (sOptions s')" using Cons.prems(1,2) s' by simp_all
      from Cons.IH [OF this r1 r2] Cons.prems(2-4) that Some r1 r2 show ?thesis
        by (cases p1; cases p2) (auto simp: same_outcome_def write_back_def)
    qed
    show ?thesis
    proof (cases out)
      case (Ok u)
      then show ?thesis using next_one e t r by (simp add: gather_def)
    next
      case (Fail d)
      then show ?thesis using next_one e t r by (simp add: gather_def)
    next
      case Panic
      then show ?thesis using Cons.prems(3,4) Some e t r by (auto simp: gather_def same_outcome_def)
    qed
  qed
qed

section \<open>The loop where every placeholder is replaced\<close>

text \<open>An action up to its headers, which a strategy fills in place.\<close>

definition stripped :: "Action \<Rightarrow> Action" where
  "stripped a = a\<lparr>aHeader := None\<rparr>"


lemma replaced_not_shared:
  assumes "performAction L fn [] (s, a, True) = ((s', a', sh), Ok [])" "configManager s = Some cm"
  shows "\<not> sh"
proof -
  obtain s1 a1 sh1 err1 where
    g: "gather [] (configManagerReplaceAction L cm (s, a, True)) = ((s1, a1, sh1), Ok err1)"
    "gather err1 (run_strategy L fn (s1, a1, sh1)) = ((s', a', sh), Ok [])"
    using assms by (auto simp: performAction_def andThen_Ok_iff)
  from gather_Ok [OF g(2)] have err1: "err1 = []" and sh: "sh = sh1"
    by (auto dest: run_strategy_seeder)
  from gather_Ok [OF g(1)] obtain out where
    c: "configManagerReplaceAction L cm (s, a, True) = ((s1, a1, sh1), out)" "out \<noteq> Panic"
      "err1 = [] @ (case out of Fail e \<Rightarrow> [e] | _ \<Rightarrow> [])" by blast
  then have "is_ok out" using err1 by (cases out) simp_all
  with c(1) have "\<not> sh1"
    by (auto simp: configManagerReplaceAction_def split: option.splits prod.splits sum.splits)
  with sh show ?thesis by simp
qed

lemma stripped_write_back: "\<not> sh \<Longrightarrow> stripped (write_back a (s, a', sh)) = stripped a"
  by (simp add: stripped_def write_back_def)

lemma run_actions_stripped:
  assumes "run_actions L s [] as = (s', Ok (as', []))" "sStrategy s = strategy_table"
    "configManager s \<noteq> None"
  shows "map stripped as' = map stripped as"
  using assms
proof (induction as arbitrary: s as')
  case (Cons a as)
  show ?case
  proof (cases "map_of (sStrategy s) (Strategy a)")
    case None
    with Cons.prems(1) obtain r where "run_actions L s [] as = (s', Ok (r, []))" "as' = a # r"
      by (auto simp: andThen_Ok_iff)
    with Cons.IH [OF _ Cons.prems(2,3)] show ?thesis by simp
  next
    case (Some fn)
    obtain s1 a1 sh out where p: "performAction L fn [] (s, a, True) = ((s1, a1, sh), out)"
      by (metis prod_cases3 surj_pair)
    from Cons.prems(1) Some p obtain err where out: "out = Ok err" by (cases out) auto
    have fn: "map_of strategy_table (Strategy a) = Some fn" using Some Cons.prems(2) by simp
    have same: "same_seeder s s1" using performAction_follows [OF fn p [unfolded out]] by simp
    have err: "err = []"
    proof (rule ccontr)
      assume "err \<noteq> []"
      moreover have "length e \<le> length e'" if "run_actions L s1 e bs = (s2, Ok (bs', e'))" for e bs s2 bs' e'
        using run_actions_same [OF that] seeds_grow same_seeder_fields(1) [OF same] Cons.prems(2) by fastforce
      moreover have "\<exists>r. run_actions L s1 err as = (s', Ok (r, []))"
        using Cons.prems(1) Some p out \<open>err \<noteq> []\<close> by (auto simp: andThen_Ok_iff split: if_splits)
      ultimately show False by fastforce
    qed
    with Cons.prems(1) Some p out obtain r where
      r: "run_actions L s1 [] as = (s', Ok (r, []))" "as' = write_back a (s1, a1, sh) # r"
      by (auto simp: andThen_Ok_iff)
    obtain cm where "configManager s = Some cm" using Cons.prems(3) by blast
    from replaced_not_shared [OF p [unfolded out err] this]
    have "stripped (write_back a (s1, a1, sh)) = stripped a" by (rule stripped_write_back)
    moreover have "map stripped r = map stripped as"
      using Cons.IH [OF r(1)] same_seeder_fields [OF same] Cons.prems(2,3) by simp
    ultimately show ?thesis using r(2) by simp
  qed
qed simp

section \<open>Properties\<close>



text \<open>
  The placeholders of the auth map come first: where the manager cannot replace
  them, has no options, or leaves an unknown strategy, Execute makes no call for an action.
\<close>

theorem auth_secrets_first:
  assumes "snd (replaceAuthTokens L s) \<noteq> Ok ()"
  shows "snd (Execute L s) = snd (replaceAuthTokens L s) \<and>
    seeder_events (fst (Execute L s)) = seeder_events s \<and> actions (fst (Execute L s)) = actions s"
proof -
  obtain s1 out where r: "replaceAuthTokens L s = (s1, out)" by (cases "replaceAuthTokens L s")
  from replaceAuthTokens_keeps [OF r] have "s1 = s\<lparr>rest := rest s1\<rparr>" "seeder_events s1 = seeder_events s"
    by simp_all
  then have "actions s1 = actions s" "seeder_events s1 = seeder_events s" using seeder_fields(4) by metis+
  with r assms show ?thesis by (cases out) (simp_all add: Execute_def)
qed

end
