(* ===== verification/Sample_Secrets.thy ===== *)
theory Sample_Secrets
  imports Secrets Samples
begin

text \<open>The properties of \<open>Secrets\<close> applied to a small run with a configuration manager.\<close>

definition secret_action :: Action where
  "secret_action = (sample_action ''one'' POST None)\<lparr>PayloadTemplate := ''AWSSECRETS#/pw''\<rparr>"

text \<open>Two managers: one replaces the payload of every action, one has no access.\<close>

definition managed_lib :: "(Action \<Rightarrow> string + Action) \<Rightarrow> (unit, unit) lib" where
  "managed_lib f = (sample_lib rejecting_put)\<lparr>xActionJson := (\<lambda>cm opts w a. (w, f a))\<rparr>"

definition managed_seeder :: "(unit, unit) StrategyRestSeeder" where
  "managed_seeder = WithConfigManager (Some (\<lambda>w t opts. (w, Inr t)))
     (WithConfigManagerOptions () (sample_seeder rejecting_put False [secret_action]))"

definition resolved :: "Action \<Rightarrow> string + Action" where
  "resolved a = Inr (a\<lparr>PayloadTemplate := ''hunter2''\<rparr>)"

definition denied :: "Action \<Rightarrow> string + Action" where
  "denied a = Inl ''denied''"

definition sent :: "(unit, unit) StrategyRestSeeder \<Rightarrow> string option list" where
  "sent s = map (rqBody \<circ> cRequest) (nCalls (net (rest s)))"

definition no_vault :: "(unit, unit) lib" where
  "no_vault = (sample_lib rejecting_put)\<lparr>xAuthJson := (\<lambda>cm opts w am. (w, Inl ''denied''))\<rparr>"

lemma managed_fields:
  "sStrategy managed_seeder = strategy_table" "configManager managed_seeder \<noteq> None"
  "\<not> FailFast (sOptions managed_seeder)"
  "PayloadTemplate (stripped a) = PayloadTemplate a"
  by (simp_all add: managed_seeder_def WithConfigManager_def WithConfigManagerOptions_def
      sample_seeder_fields stripped_def)

lemma sent_net: "net (rest s) = net (rest t) \<Longrightarrow> sent s = sent t"
  by (simp add: sent_def)

lemma managed_run:
  "sent (fst (Execute (managed_lib denied) (managed_seeder\<lparr>configManager := None\<rparr>))) =
     [Some ''AWSSECRETS#/pw'']"
  by code_simp

lemma resolved_run:
  "map_ok (\<lambda>u. sent (fst (Execute (managed_lib resolved) managed_seeder)))
     (snd (Execute (managed_lib resolved) managed_seeder)) = Ok [Some ''hunter2'']"
  by code_simp

lemma managed_auth:
  "replaceAuthTokens (managed_lib f) managed_seeder = (managed_seeder, Ok ())"
proof -
  obtain ac where "NewAuth (auth_map_of_list [example_basic]) = Ok ac" using sample_auth by blast
  then show ?thesis
    by (simp add: managed_seeder_def sample_seeder_def WithAuthFromList_def seeder_WithAuth_def
        WithAuth_def New_def WithOptions_def WithActionsList_eq WithConfigManager_def
        WithConfigManagerOptions_def replaceAuthTokens_def managed_lib_def sample_lib_def set_world_def)
qed



theorem auth_secrets_first_witness:
  "(\<exists>t. snd (Execute no_vault managed_seeder) = Fail (Plain t)) \<and>
   seeder_events (fst (Execute no_vault managed_seeder)) = []"
proof -
  have "case snd (replaceAuthTokens no_vault managed_seeder) of Fail (Plain t) \<Rightarrow> True | _ \<Rightarrow> False"
    by code_simp
  then have f: "\<exists>t. snd (replaceAuthTokens no_vault managed_seeder) = Fail (Plain t)"
    by (simp split: res.splits go_error.splits)
  then have "snd (replaceAuthTokens no_vault managed_seeder) \<noteq> Ok ()" by auto
  moreover have "seeder_events managed_seeder = []" by code_simp
  ultimately show ?thesis using auth_secrets_first [of no_vault managed_seeder] f by simp
qed

end
