(* ===== verification/RstService.thy ===== *)
theory RstService
  imports Seeding
begin

text \<open>
  The custom resource (\<^verbatim>\<open>apis/reststrategy/v1alpha1/types.go\<close>) and the service that runs it
  (\<^verbatim>\<open>controller/pkg/rstservice/rstservice.go\<close>).  Of the object's metadata the fields the
  code reads are kept.  The lists of the spec become maps; the order in which Go visits
  the map of actions is the parameter \<open>visit\<close>.
\<close>

section \<open>The resource\<close>

record SeederConfig =
  scName :: string
  scAction :: Action

record ApiAuthConfig =
  aaName :: string
  aaAuth :: AuthConfig

record StrategySpec =
  specAuth :: "ApiAuthConfig list"
  specSeeders :: "SeederConfig list"

record StrategyStatus =
  stMessage :: string

record RestStrategy =
  rsNamespace :: string
  rsName :: string
  rsResourceVersion :: string
  rsGeneration :: int
  rsSpec :: StrategySpec
  rsStatusBlock :: StrategyStatus

definition zero_RestStrategy :: RestStrategy where
  "zero_RestStrategy = \<lparr>rsNamespace = [], rsName = [], rsResourceVersion = [], rsGeneration = 0,
     rsSpec = \<lparr>specAuth = [], specSeeders = []\<rparr>, rsStatusBlock = \<lparr>stMessage = []\<rparr>\<rparr>"

section \<open>The service\<close>

definition rst_New ::
  "('w, 'o) lib \<Rightarrow> 'w client \<Rightarrow> 'w net \<Rightarrow> environ \<Rightarrow> ('w, 'o) StrategyRestSeeder" where
  "rst_New L rc n e = WithRestClient rc (New L n e)"

definition sortActions :: "SeederConfig list \<Rightarrow> Action gomap" where
  "sortActions seeders = fold (\<lambda>v. mput (scName v) (scAction v)) seeders []"

definition sortAuth :: "ApiAuthConfig list \<Rightarrow> AuthMap" where
  "sortAuth auths = fold (\<lambda>v. mput (aaName v) (aaAuth v)) auths []"

definition rst_Execute ::
  "('w, 'o) lib \<Rightarrow> (Action gomap \<Rightarrow> Action gomap) \<Rightarrow> StrategySpec \<Rightarrow> ('w, 'o) StrategyRestSeeder
   \<Rightarrow> ('w, 'o) StrategyRestSeeder \<times> unit outcome" where
  "rst_Execute L visit spec s0 =
     (let s = WithActions (visit (sortActions (specSeeders spec))) s0 in
      (case seeder_WithAuth (sortAuth (specAuth spec)) s of
         Ok s' \<Rightarrow> Execute L s'
       | Fail e \<Rightarrow> (s, Fail e)
       | Panic \<Rightarrow> (s, Panic)))"

text \<open>A run of the service, whatever comes of it, only adds to the calls of the network.\<close>

lemma rst_Execute_grows:
  assumes "rst_Execute L visit spec (rst_New L rc n e) = (s', out)" "out \<noteq> Panic"
  shows "extends (net_events n) (seeder_events s')"
proof -
  let ?s = "WithActions (visit (sortActions (specSeeders spec))) (rst_New L rc n e)"
  have new: "seeder_events ?s = net_events n" "sStrategy ?s = strategy_table"
    by (simp_all add: WithActions_eq rst_New_def WithRestClient_def New_def WithClient_def
        NewSeederImpl_def seeder_events_net)
  show ?thesis
  proof (cases "seeder_WithAuth (sortAuth (specAuth spec)) ?s")
    case (Ok s1)
    from seeder_WithAuth_Ok [OF this] obtain ac where
      "s1 = ?s\<lparr>authInstructions := sortAuth (specAuth spec), rest := (rest ?s)\<lparr>auth_map := Some ac\<rparr>\<rparr>"
      by blast
    then have "seeder_events s1 = net_events n" "sStrategy s1 = strategy_table"
      using new by (simp_all add: seeder_events_net)
    moreover have "Execute L s1 = (s', out)" using assms(1) Ok by (simp add: rst_Execute_def Let_def)
    ultimately show ?thesis using Execute_grows [of L s1 s' out] assms(2) by simp
  qed (use assms new in \<open>auto simp: rst_Execute_def Let_def\<close>)
qed

section \<open>From lists to maps\<close>

definition last_with :: "('a \<Rightarrow> string) \<Rightarrow> ('a \<Rightarrow> 'b) \<Rightarrow> 'a list \<Rightarrow> string \<Rightarrow> 'b option" where
  "last_with key val xs k = map_of (rev (map (\<lambda>x. (key x, val x)) xs)) k"

lemma fold_mput:
  "map_of (fold (\<lambda>x. mput (key x) (val x)) xs m) =
     map_of m ++ map_of (rev (map (\<lambda>x. (key x, val x)) xs))"
  by (induction xs arbitrary: m) (auto simp: fun_eq_iff map_add_def split: option.splits)

lemma is_map_fold_mput: "is_map m \<Longrightarrow> is_map (fold (\<lambda>x. mput (key x) (val x)) xs m)"
  by (induction xs arbitrary: m) simp_all

lemma dom_fold_mput: "fst ` set (fold (\<lambda>x. mput (key x) (val x)) xs m) = fst ` set m \<union> key ` set xs"
proof -
  have "dom (map_of (fold (\<lambda>x. mput (key x) (val x)) xs m)) = dom (map_of m) \<union> key ` set xs"
    by (auto simp: fold_mput dom_map_of_conv_image_fst image_image)
  then show ?thesis by (simp add: dom_map_of_conv_image_fst)
qed

text \<open>
  The service runs one action per name: of several entries with one name only the last
  is kept, the earlier ones are dropped without a word, and no other is lost.
\<close>

theorem sortActions_last:
  "is_map (sortActions ss) \<and> map_of (sortActions ss) k = last_with scName scAction ss k \<and>
   fst ` set (sortActions ss) = scName ` set ss \<and>
   length (sortActions ss) = card (scName ` set ss)"
proof -
  have m: "is_map (sortActions ss)"
    unfolding sortActions_def by (rule is_map_fold_mput) (simp add: is_map_def)
  have d: "fst ` set (sortActions ss) = scName ` set ss"
    by (simp add: sortActions_def dom_fold_mput)
  have "length (sortActions ss) = card (set (map fst (sortActions ss)))"
    using m by (metis distinct_card is_map_def length_map)
  then show ?thesis using m d by (simp add: sortActions_def fold_mput last_with_def)
qed

text \<open>What the documentation of a Go map promises of a \<^verbatim>\<open>range\<close> loop over it.\<close>

definition visits_all :: "(Action gomap \<Rightarrow> Action gomap) \<Rightarrow> bool" where
  "visits_all visit \<longleftrightarrow> (\<forall>m. is_map m \<longrightarrow> same_map m (visit m))"

lemma visits_mset:
  assumes "visits_all visit" "is_map m"
  shows "mset (visit m) = mset m"
proof -
  have "is_map (visit m)" "set (visit m) = set m"
    using assms by (auto simp: visits_all_def same_map_def)
  moreover from this assms(2) have "distinct (visit m)" "distinct m"
    by (auto simp: is_map_def distinct_map)
  ultimately show ?thesis by (simp add: set_eq_iff_mset_eq_distinct [symmetric])
qed

text \<open>
  A successful run of the service has made, for each name of the spec, the calls of the
  last entry with that name, in ascending order; no call is made for an earlier entry.
\<close>

theorem rst_Execute_success:
  assumes "documented_sort L" "visits_all visit"
    "rst_Execute L visit spec (rst_New L rc n e) = (s', Ok ())"
  shows "\<exists>as rs. mset as = mset (map (\<lambda>(k, v). WithHeader (WithName k v)) (sortActions (specSeeders spec))) \<and>
    sorted (map order_of as) \<and> list_all2 (ran (plan_of (xRest L))) as rs \<and>
    (\<forall>r \<in> set rs. snd r \<noteq> Some False) \<and> seeder_events s' = net_events n @ calls_of rs"
proof -
  let ?m = "sortActions (specSeeders spec)"
  let ?s = "WithActions (visit ?m) (rst_New L rc n e)"
  from assms(3) obtain s1 where s1: "seeder_WithAuth (sortAuth (specAuth spec)) ?s = Ok s1"
    "Execute L s1 = (s', Ok ())"
    by (auto simp: rst_Execute_def Let_def split: res.splits)
  from seeder_WithAuth_Ok [OF s1(1)] obtain ac where
    ac: "s1 = ?s\<lparr>authInstructions := sortAuth (specAuth spec), rest := (rest ?s)\<lparr>auth_map := Some ac\<rparr>\<rparr>"
    by blast
  have st: "sStrategy s1 = strategy_table" "seeder_events s1 = net_events n"
    "actions s1 = map (\<lambda>(k, v). WithHeader (WithName k v)) (visit ?m)"
    by (simp_all add: ac WithActions_eq rst_New_def WithRestClient_def New_def WithClient_def
        NewSeederImpl_def seeder_events_net)
  have "mset (visit ?m) = mset ?m" using sortActions_last by (intro visits_mset [OF assms(2)]) blast
  then have "mset (actions s1) = mset (map (\<lambda>(k, v). WithHeader (WithName k v)) ?m)"
    by (simp add: st)
  with Execute_Ok [OF assms(1) st(1) s1(2)] st(2) show ?thesis by auto
qed

end
