(* ===== verification/Runner.thy ===== *)
theory Runner
  imports Seeding
begin

text \<open>
  What the users of the seeder share: each runs the actions of a file or a resource, reports
  an outcome, and is run again, by a resync, a requeue or a second call.  The contract of
  one such run is a locale; what it gives for a run of runs is proved once, inside it.
\<close>

section \<open>One complete run\<close>

definition complete_calls :: "(Action \<Rightarrow> plan option) \<Rightarrow> Action multiset \<Rightarrow> event list \<Rightarrow> bool" where
  "complete_calls P wanted seg \<longleftrightarrow>
     (\<exists>as rs. mset as = wanted \<and> sorted (map order_of as) \<and> list_all2 (ran P) as rs \<and>
        (\<forall>r \<in> set rs. snd r \<noteq> Some False) \<and> seg = calls_of rs)"

lemma complete_calls_none [simp]: "complete_calls P {#} []"
  unfolding complete_calls_def by (intro exI [of _ "[]"]) simp

section \<open>A run of runs\<close>

text \<open>
  Before each run something outside may change the state; what each run started from and
  how it ended is kept.
\<close>

fun history ::
  "('s \<Rightarrow> 's \<times> unit outcome) \<Rightarrow> ('s \<Rightarrow> 's) list \<Rightarrow> 's \<Rightarrow> 's \<times> ('s \<times> unit outcome) list" where
  "history run [] s = (s, [])"
| "history run (f # fs) s =
     (case run (f s) of (s', out) \<Rightarrow>
      case history run fs s' of (t, h) \<Rightarrow> (t, (f s, out) # h))"

lemma history_length: "history run fs s = (t, h) \<Longrightarrow> length h = length fs"
  by (induction fs arbitrary: s t h) (auto split: prod.splits)

section \<open>The contract\<close>

text \<open>
  \<open>wants\<close> are the actions the state asks for and \<open>calls\<close> the calls it has logged; the laws
  hold of states that are \<open>sound\<close>.
\<close>

locale resource_runner =
  fixes run :: "'s \<Rightarrow> 's \<times> unit outcome"
    and calls :: "'s \<Rightarrow> event list"
    and plans :: "Action \<Rightarrow> plan option"
    and wants :: "'s \<Rightarrow> Action multiset"
    and sound :: "'s \<Rightarrow> bool"
  assumes adds: "sound s \<Longrightarrow> snd (run s) \<noteq> Panic \<Longrightarrow> extends (calls s) (calls (fst (run s)))"
    and complete: "sound s \<Longrightarrow> snd (run s) = Ok () \<Longrightarrow>
      \<exists>seg. complete_calls plans (wants s) seg \<and> calls (fst (run s)) = calls s @ seg"
begin

lemma one_run:
  assumes "run s = (s', out)" "sound s" "out \<noteq> Panic"
  shows "\<exists>seg. (out = Ok () \<longrightarrow> complete_calls plans (wants s) seg) \<and> calls s' = calls s @ seg"
proof (cases "out = Ok ()")
  case True
  with complete [OF assms(2)] assms(1) show ?thesis by auto
next
  case False
  with adds [OF assms(2)] assms(1,3) show ?thesis by (auto simp: extends_def)
qed

text \<open>
  The log of a run of runs is made of one segment per run, and the segment of each success
  is a complete run of what was wanted when it started.
\<close>

lemma each_success_ran:
  assumes "history run fs s = (t, h)" "\<forall>f \<in> set fs. \<forall>u. calls (f u) = calls u"
    "\<forall>(u, out) \<in> set h. sound u \<and> out \<noteq> Panic"
  shows "\<exists>segs. list_all2 (\<lambda>(u, out) seg. out = Ok () \<longrightarrow> complete_calls plans (wants u) seg) h segs \<and>
    calls t = calls s @ concat segs"
  using assms
proof (induction fs arbitrary: s t h)
  case Nil
  then show ?case by (intro exI [of _ "[]"]) simp
next
  case (Cons f fs)
  obtain s' out where r: "run (f s) = (s', out)" by (cases "run (f s)")
  obtain t' h' where h: "history run fs s' = (t', h')" by (cases "history run fs s'")
  have e: "t = t'" "h = (f s, out) # h'" using Cons.prems(1) r h by simp_all
  obtain seg where seg: "out = Ok () \<longrightarrow> complete_calls plans (wants (f s)) seg"
    "calls s' = calls (f s) @ seg"
    using one_run [OF r] Cons.prems(3) e(2) by auto
  obtain segs where
    "list_all2 (\<lambda>(u, out) seg. out = Ok () \<longrightarrow> complete_calls plans (wants u) seg) h' segs"
    "calls t' = calls s' @ concat segs"
    using Cons.IH [OF h] Cons.prems(2,3) e(2) by auto
  then show ?case using seg Cons.prems(2) e by (intro exI [of _ "seg # segs"]) simp
qed

end

section \<open>The seeder\<close>

text \<open>Execute itself: what it wants are its actions.\<close>

interpretation seeder_runs: resource_runner "Execute L" seeder_events "plan_of (xRest L)"
  "\<lambda>s. mset (actions s)" "\<lambda>s. documented_sort L \<and> sStrategy s = strategy_table" for L
proof (unfold_locales, goal_cases)
  case (1 s)
  then show ?case using Execute_grows [of L s "fst (Execute L s)" "snd (Execute L s)"] by simp
next
  case (2 s)
  then have "Execute L s = (fst (Execute L s), Ok ())" by (simp add: prod_eq_iff)
  from Execute_Ok [OF _ _ this] 2 show ?case unfolding complete_calls_def by blast
qed

end
