(* ===== verification/Controller.thy ===== *)
theory Controller
  imports RstService Runner
begin

text \<open>
  \<^verbatim>\<open>controller/internal/k8s/controller.go\<close>: the controller's event handlers, which put keys
  on a work queue, and its worker, which takes them off and runs the service.

  The work queue, the API server and the event recorder are outside: their methods are
  commands the controller issues, kept in the order issued in the logs of the state.  The
  lister, the key functions of \<^verbatim>\<open>client-go\<close> and the configuration manager are parameters.
  The error \<^verbatim>\<open>updateStatus\<close> returns is dropped by its callers, and here too.
\<close>

section \<open>State\<close>

datatype item = Key string | NotAString string

datatype queue_command = Add string | AddRateLimited string | Forget item | Done item

datatype lister_error = NotFound string | OtherError string

fun lister_text :: "lister_error \<Rightarrow> string" where
  "lister_text (NotFound t) = t"
| "lister_text (OtherError t) = t"

record kube_event =
  evObject :: RestStrategy
  evType :: string
  evReason :: string
  evMessage :: string

record 'w controller =
  cNet :: "'w net"
  cEnv :: environ
  cQueue :: "queue_command list"
  cStatusUpdates :: "RestStrategy list"
  cEvents :: "kube_event list"
  cHandled :: "string list"

datatype kube_object = Resource RestStrategy | OtherObject string

record ('w, 'o) cluster =
  clLib :: "('w, 'o) lib"
  clRestClient :: "'w client"
  clVisit :: "Action gomap \<Rightarrow> Action gomap"
  clSplitKey :: "string \<Rightarrow> (string \<times> string) option"
  clObjectKey :: "kube_object \<Rightarrow> string + string"
  clGet :: "'w \<Rightarrow> string \<Rightarrow> string \<Rightarrow> lister_error + RestStrategy"
  clUpdateStatus :: "'w \<Rightarrow> RestStrategy \<Rightarrow> 'w \<times> (string + unit)"
  clSpecJson :: "('w, 'o) CMRetrieve \<Rightarrow> 'o \<Rightarrow> 'w \<Rightarrow> StrategySpec \<Rightarrow> 'w \<times> (string + StrategySpec)"
  clRetrieve :: "('w, 'o) CMRetrieve"
  clConfig :: 'o
  clResyncPeriod :: int

text \<open>The builders that set a field; the one for the logger is left out with the logging.\<close>

definition Controller_WithRestClient ::
  "'w client \<Rightarrow> ('w, 'o) cluster \<Rightarrow> ('w, 'o) cluster" where
  "Controller_WithRestClient rc C = C\<lparr>clRestClient := rc\<rparr>"

definition Controller_WithConfigManager ::
  "('w, 'o) CMRetrieve \<times> 'o \<Rightarrow> ('w, 'o) cluster \<Rightarrow> ('w, 'o) cluster" where
  "Controller_WithConfigManager v C = C\<lparr>clRetrieve := fst v, clConfig := snd v\<rparr>"

text \<open>\<^verbatim>\<open>utilruntime.HandleError\<close> and one more command for the queue.\<close>

definition handle_error :: "string \<Rightarrow> 'w controller \<Rightarrow> 'w controller" where
  "handle_error t s = s\<lparr>cHandled := cHandled s @ [t]\<rparr>"

definition issue :: "queue_command \<Rightarrow> 'w controller \<Rightarrow> 'w controller" where
  "issue q s = s\<lparr>cQueue := cQueue s @ [q]\<rparr>"

definition kube_world :: "'w \<Rightarrow> 'w controller \<Rightarrow> 'w controller" where
  "kube_world w s = s\<lparr>cNet := (cNet s)\<lparr>nWorld := w\<rparr>\<rparr>"

section \<open>Syncing one resource\<close>

definition updateStatus ::
  "('w, 'o) cluster \<Rightarrow> RestStrategy \<Rightarrow> string \<Rightarrow> 'w controller \<Rightarrow> 'w controller" where
  "updateStatus C rs message s =
     (let su = rs\<lparr>rsStatusBlock := \<lparr>stMessage = message\<rparr>\<rparr> in
      (case clUpdateStatus C (nWorld (cNet s)) su of
         (w, res) \<Rightarrow> (kube_world w s)\<lparr>cStatusUpdates := cStatusUpdates s @ [su]\<rparr>))"

definition record_event ::
  "RestStrategy \<Rightarrow> string \<Rightarrow> string \<Rightarrow> string \<Rightarrow> 'w controller \<Rightarrow> 'w controller" where
  "record_event rs ty reason message s =
     s\<lparr>cEvents := cEvents s @
        [\<lparr>evObject = rs, evType = ty, evReason = reason, evMessage = message\<rparr>]\<rparr>"

definition SuccessSynced :: string where "SuccessSynced = ''Synced''"
definition ErrSync :: string where "ErrSync = ''Failed''"
definition MessageResourceSynced :: string where
  "MessageResourceSynced = ''RestStrategy successfully executed''"

text \<open>The service works on a fresh seeder; the network and the environment outlive it.\<close>

definition run_service ::
  "('w, 'o) cluster \<Rightarrow> StrategySpec \<Rightarrow> 'w controller \<Rightarrow> 'w controller \<times> unit outcome" where
  "run_service C spec s =
     (case rst_Execute (clLib C) (clVisit C) spec
         (rst_New (clLib C) (clRestClient C) (cNet s) (cEnv s)) of
        (srs, out) \<Rightarrow> (s\<lparr>cNet := net (rest srs), cEnv := env (rest srs)\<rparr>, out))"

definition report_result ::
  "('w, 'o) cluster \<Rightarrow> RestStrategy \<Rightarrow> 'w controller \<times> unit outcome \<Rightarrow> 'w controller \<times> unit outcome" where
  "report_result C rs res =
     (case res of
        (s, Fail e) \<Rightarrow>
          (record_event rs ''Warning'' ErrSync (err_text e) (updateStatus C rs (err_text e) s), Ok ())
      | (s, Ok u) \<Rightarrow>
          (record_event rs ''Normal'' SuccessSynced MessageResourceSynced
             (updateStatus C rs MessageResourceSynced s), Ok ())
      | (s, Panic) \<Rightarrow> (s, Panic))"

definition syncHandler ::
  "('w, 'o) cluster \<Rightarrow> string \<Rightarrow> 'w controller \<Rightarrow> 'w controller \<times> unit outcome" where
  "syncHandler C key s =
     (case clSplitKey C key of
        None \<Rightarrow> (handle_error (''invalid resource key: '' @ key) s, Ok ())
      | Some (namespace, name) \<Rightarrow>
          (case clGet C (nWorld (cNet s)) namespace name of
             Inl (NotFound t) \<Rightarrow>
               (handle_error (''reststrategy '' @ [squote] @ key @ [squote] @ '' in work queue no longer exists'') s,
                Ok ())
           | Inl (OtherError t) \<Rightarrow> (s, Fail (Plain t))
           | Inr rs \<Rightarrow>
               (case clSpecJson C (clRetrieve C) (clConfig C) (nWorld (cNet s)) (rsSpec rs) of
                  (w, Inl e) \<Rightarrow> (kube_world w s, Ok ())
                | (w, Inr spec) \<Rightarrow> report_result C rs (run_service C spec (kube_world w s)))))"

section \<open>The worker\<close>

text \<open>
  The deferred \<^verbatim>\<open>Done\<close> runs however the block ends, a panic included, which then goes on.
\<close>

definition process_item ::
  "('w, 'o) cluster \<Rightarrow> item \<Rightarrow> 'w controller \<Rightarrow> 'w controller \<times> unit outcome" where
  "process_item C obj s =
     (case obj of
        NotAString t \<Rightarrow>
          (handle_error (''expected string in workqueue but got '' @ t) (issue (Forget obj) s), Ok ())
      | Key key \<Rightarrow>
          (case syncHandler C key s of
             (s', Fail e) \<Rightarrow>
               (issue (AddRateLimited key) s',
                Fail (Plain (''error syncing '' @ [squote] @ key @ [squote] @ newline @ newline @
                  ''equeuing: '' @ err_text e)))
           | (s', Ok u) \<Rightarrow> (issue (Forget obj) s', Ok ())
           | (s', Panic) \<Rightarrow> (s', Panic)))"

text \<open>What \<^verbatim>\<open>Get\<close> returned: None after shutdown.  The result says whether to go on.\<close>

definition processNextWorkItem ::
  "('w, 'o) cluster \<Rightarrow> item option \<Rightarrow> 'w controller \<Rightarrow> 'w controller \<times> bool outcome" where
  "processNextWorkItem C got s =
     (case got of
        None \<Rightarrow> (s, Ok False)
      | Some obj \<Rightarrow>
          (case process_item C obj s of (s', out) \<Rightarrow>
             let s'' = issue (Done obj) s' in
             (case out of
                Ok u \<Rightarrow> (s'', Ok True)
              | Fail e \<Rightarrow> (handle_error (err_text e) s'', Ok True)
              | Panic \<Rightarrow> (s'', Panic))))"

text \<open>\<^verbatim>\<open>runWorker\<close> over what the queue hands out before its shutdown.\<close>

fun runWorker ::
  "('w, 'o) cluster \<Rightarrow> item list \<Rightarrow> 'w controller \<Rightarrow> 'w controller \<times> unit outcome" where
  "runWorker C [] s =
     (case processNextWorkItem C None s of (s', out) \<Rightarrow> (s', map_ok (\<lambda>b. ()) out))"
| "runWorker C (obj # objs) s =
     (case processNextWorkItem C (Some obj) s of
        (s', Ok b) \<Rightarrow> if b then runWorker C objs s' else (s', Ok ())
      | (s', Fail e) \<Rightarrow> (s', Fail e)
      | (s', Panic) \<Rightarrow> (s', Panic))"

section \<open>Event handlers\<close>

definition enqueue :: "('w, 'o) cluster \<Rightarrow> kube_object \<Rightarrow> 'w controller \<Rightarrow> 'w controller" where
  "enqueue C obj s =
     (case clObjectKey C obj of
        Inl e \<Rightarrow> handle_error e s
      | Inr key \<Rightarrow> issue (Add key) s)"

definition createCustomResource ::
  "('w, 'o) cluster \<Rightarrow> kube_object \<Rightarrow> 'w controller \<Rightarrow> 'w controller" where
  "createCustomResource C new s =
     (case new of Resource rs \<Rightarrow> enqueue C (Resource rs) s | OtherObject t \<Rightarrow> s)"

text \<open>Go's \<^verbatim>\<open>%\<close> takes the sign of the dividend and panics for a zero divisor.\<close>

definition go_rem :: "int \<Rightarrow> int \<Rightarrow> int option" where
  "go_rem x y = (if y = 0 then None else Some (sgn x * (\<bar>x\<bar> mod \<bar>y\<bar>)))"

text \<open>The hour and minute of \<^verbatim>\<open>time.Now()\<close> are arguments.\<close>

definition doPeriodResync :: "('w, 'o) cluster \<Rightarrow> int \<Rightarrow> int \<Rightarrow> bool outcome" where
  "doPeriodResync C hour minute =
     (case go_rem hour (clResyncPeriod C) of
        None \<Rightarrow> Panic
      | Some r \<Rightarrow> Ok (r = 0 \<and> minute = 0))"

definition versionsDiffer :: "RestStrategy \<Rightarrow> RestStrategy \<Rightarrow> bool" where
  "versionsDiffer new old \<longleftrightarrow>
     rsResourceVersion old \<noteq> rsResourceVersion new \<and> rsGeneration old \<noteq> rsGeneration new"

definition as_resource :: "kube_object \<Rightarrow> RestStrategy" where
  "as_resource obj = (case obj of Resource rs \<Rightarrow> rs | OtherObject t \<Rightarrow> zero_RestStrategy)"

definition updateCustomResource ::
  "('w, 'o) cluster \<Rightarrow> int \<Rightarrow> int \<Rightarrow> kube_object \<Rightarrow> kube_object \<Rightarrow> 'w controller
   \<Rightarrow> 'w controller \<times> unit outcome" where
  "updateCustomResource C hour minute old new s =
     (case doPeriodResync C hour minute of
        Ok resync \<Rightarrow>
          (if resync \<or> versionsDiffer (as_resource new) (as_resource old) then enqueue C new s else s,
           Ok ())
      | Fail e \<Rightarrow> (s, Fail e)
      | Panic \<Rightarrow> (s, Panic))"

definition deleteRestStrategyCustomResource ::
  "('w, 'o) cluster \<Rightarrow> kube_object \<Rightarrow> 'w controller \<Rightarrow> 'w controller" where
  "deleteRestStrategyCustomResource C obj s = s"

section \<open>The queue protocol\<close>

lemma issue_fields [simp]:
  "cQueue (issue q s) = cQueue s @ [q]" "cStatusUpdates (issue q s) = cStatusUpdates s"
  "cEvents (issue q s) = cEvents s" "cNet (issue q s) = cNet s" "cHandled (issue q s) = cHandled s"
  by (simp_all add: issue_def)

lemma quiet_helpers [simp]:
  "cQueue (handle_error t s) = cQueue s" "cQueue (kube_world w s) = cQueue s"
  "cQueue (updateStatus C rs m s) = cQueue s" "cQueue (record_event rs ty re m s) = cQueue s"
  "cStatusUpdates (handle_error t s) = cStatusUpdates s" "cStatusUpdates (kube_world w s) = cStatusUpdates s"
  "cEvents (handle_error t s) = cEvents s" "cEvents (kube_world w s) = cEvents s"
  "cNet (handle_error t s) = cNet s" "nCalls (cNet (kube_world w s)) = nCalls (cNet s)"
  by (simp_all add: handle_error_def kube_world_def updateStatus_def record_event_def Let_def
      split: prod.split)

lemma run_service_keeps:
  "cQueue (fst (run_service C spec s)) = cQueue s"
  "cStatusUpdates (fst (run_service C spec s)) = cStatusUpdates s"
  "cEvents (fst (run_service C spec s)) = cEvents s"
  by (simp_all add: run_service_def split: prod.split)

lemma net_events_world [simp]: "net_events (cNet (kube_world w s)) = net_events (cNet s)"
  by (simp add: net_events_def)

lemma run_service_Ok:
  assumes "documented_sort (clLib C)" "visits_all (clVisit C)" "snd (run_service C spec s) = Ok ()"
  shows "\<exists>as rs. mset as = mset (map (\<lambda>(k, v). WithHeader (WithName k v)) (sortActions (specSeeders spec))) \<and>
    sorted (map order_of as) \<and> list_all2 (ran (plan_of (xRest (clLib C)))) as rs \<and>
    (\<forall>r \<in> set rs. snd r \<noteq> Some False) \<and>
    net_events (cNet (fst (run_service C spec s))) = net_events (cNet s) @ calls_of rs"
proof -
  obtain srs out where r: "rst_Execute (clLib C) (clVisit C) spec
      (rst_New (clLib C) (clRestClient C) (cNet s) (cEnv s)) = (srs, out)" by force
  with assms(3) have out: "out = Ok ()" by (simp add: run_service_def)
  have "net_events (cNet (fst (run_service C spec s))) = seeder_events srs"
    using r by (simp add: run_service_def seeder_events_net)
  with rst_Execute_success [OF assms(1,2) r [unfolded out]] show ?thesis by simp
qed

lemma run_service_grows:
  assumes "snd (run_service C spec s) \<noteq> Panic"
  shows "extends (net_events (cNet s)) (net_events (cNet (fst (run_service C spec s))))"
proof -
  obtain srs out where r: "rst_Execute (clLib C) (clVisit C) spec
      (rst_New (clLib C) (clRestClient C) (cNet s) (cEnv s)) = (srs, out)" by force
  with assms rst_Execute_grows [OF r] show ?thesis by (simp add: run_service_def seeder_events_net)
qed

text \<open>The service is one of the runners: for a spec it wants the last entry of each name.\<close>

interpretation service_runs: resource_runner "run_service C spec" "\<lambda>s. net_events (cNet s)"
  "plan_of (xRest (clLib C))"
  "\<lambda>s. mset (map (\<lambda>(k, v). WithHeader (WithName k v)) (sortActions (specSeeders spec)))"
  "\<lambda>s. documented_sort (clLib C) \<and> visits_all (clVisit C)" for C spec
proof (unfold_locales, goal_cases)
  case (1 s)
  then show ?case by (intro run_service_grows)
next
  case (2 s)
  then show ?case using run_service_Ok [of C spec s] unfolding complete_calls_def by blast
qed

lemma report_result_net [simp]:
  "net_events (cNet (fst (report_result C rs (s, out)))) = net_events (cNet s)"
  by (cases out) (simp_all add: report_result_def record_event_def updateStatus_def Let_def split: prod.split)

lemma report_result_queue: "cQueue (fst (report_result C rs (s, out))) = cQueue s"
  by (cases out) (simp_all add: report_result_def)

lemma syncHandler_queue: "cQueue (fst (syncHandler C key s)) = cQueue s"
proof -
  have "cQueue (fst (report_result C rs (run_service C spec t))) = cQueue t" for rs spec t
    using report_result_queue [of C rs "fst (run_service C spec t)" "snd (run_service C spec t)"]
    by (simp add: run_service_keeps)
  then show ?thesis
    by (auto simp: syncHandler_def split: option.split prod.split sum.split lister_error.split)
qed

lemma queue_protocol_key:
  "cQueue (fst (processNextWorkItem C (Some (Key key)) s)) = cQueue s @
     (case snd (syncHandler C key s) of
        Ok u \<Rightarrow> [Forget (Key key)] | Fail e \<Rightarrow> [AddRateLimited key] | Panic \<Rightarrow> []) @ [Done (Key key)]"
proof -
  obtain s' out where h: "syncHandler C key s = (s', out)" by (cases "syncHandler C key s")
  have "cQueue s' = cQueue s" using syncHandler_queue [of C key s] h by simp
  then show ?thesis by (cases out) (simp_all add: processNextWorkItem_def process_item_def h)
qed


text \<open>
  A key is put back for another attempt only where the lister failed with something
  other than not-found: a resource whose run fails, one that is gone and a malformed key
  are all taken off the queue for good.
\<close>

theorem retry_only_lister:
  "(\<exists>e. snd (syncHandler C key s) = Fail e) \<longleftrightarrow>
     (\<exists>namespace name t. clSplitKey C key = Some (namespace, name) \<and>
        clGet C (nWorld (cNet s)) namespace name = Inl (OtherError t))"
proof -
  have "snd (report_result C rs res) \<noteq> Fail e" for rs res e
    by (cases res; cases "snd res") (auto simp: report_result_def)
  then show ?thesis
    by (auto simp: syncHandler_def split: option.split prod.split sum.split lister_error.split)
qed

text \<open>What a sync tells the API server about the run it made.\<close>

definition result_message :: "unit outcome \<Rightarrow> string" where
  "result_message out = (case out of Fail e \<Rightarrow> err_text e | _ \<Rightarrow> MessageResourceSynced)"

definition result_event :: "RestStrategy \<Rightarrow> unit outcome \<Rightarrow> kube_event" where
  "result_event rs out =
     \<lparr>evObject = rs, evType = (case out of Fail e \<Rightarrow> ''Warning'' | _ \<Rightarrow> ''Normal''),
      evReason = (case out of Fail e \<Rightarrow> ErrSync | _ \<Rightarrow> SuccessSynced), evMessage = result_message out\<rparr>"

lemma report_result_logs:
  assumes "out \<noteq> Panic"
  shows "report_result C rs (s, out) = (fst (report_result C rs (s, out)), Ok ()) \<and>
    cStatusUpdates (fst (report_result C rs (s, out))) =
      cStatusUpdates s @ [rs\<lparr>rsStatusBlock := \<lparr>stMessage = result_message out\<rparr>\<rparr>] \<and>
    cEvents (fst (report_result C rs (s, out))) = cEvents s @ [result_event rs out]"
  using assms
  by (cases out) (auto simp: report_result_def record_event_def updateStatus_def Let_def
      result_message_def result_event_def kube_world_def split: prod.splits)

text \<open>
  C10: A sync that runs the service reports it once: one status update, which changes nothing
  but the message, and one event, both with the error of the run or the fixed success
  message.  Where the secrets cannot be replaced nothing is run and nothing is reported.
\<close>

theorem sync_reports:
  assumes "clSplitKey C key = Some (namespace, name)"
    "clGet C (nWorld (cNet s)) namespace name = Inr rs"
    "clSpecJson C (clRetrieve C) (clConfig C) (nWorld (cNet s)) (rsSpec rs) = (w, res)"
  shows "case res of
      Inl e \<Rightarrow> syncHandler C key s = (kube_world w s, Ok ())
    | Inr spec \<Rightarrow>
        (let out = snd (run_service C spec (kube_world w s)) in
         out = Panic \<and> snd (syncHandler C key s) = Panic \<or>
         out \<noteq> Panic \<and> snd (syncHandler C key s) = Ok () \<and>
         cStatusUpdates (fst (syncHandler C key s)) =
           cStatusUpdates s @ [rs\<lparr>rsStatusBlock := \<lparr>stMessage = result_message out\<rparr>\<rparr>] \<and>
         cEvents (fst (syncHandler C key s)) = cEvents s @ [result_event rs out])"
proof (cases res)
  case (Inl e)
  with assms show ?thesis by (simp add: syncHandler_def)
next
  case (Inr spec)
  obtain t out where r: "run_service C spec (kube_world w s) = (t, out)"
    by (cases "run_service C spec (kube_world w s)")
  have sync: "syncHandler C key s = report_result C rs (t, out)"
    using assms Inr r by (simp add: syncHandler_def)
  have keep: "cStatusUpdates t = cStatusUpdates s" "cEvents t = cEvents s"
    using run_service_keeps(2,3) [of C spec "kube_world w s"] r by simp_all
  show ?thesis
  proof (cases "out = Panic")
    case True
    then show ?thesis by (simp add: Inr r sync report_result_def)
  next
    case False
    from report_result_logs [OF this, of C rs t] keep False show ?thesis
      by (auto simp: Inr r sync dest: arg_cong [where f = snd])
  qed
qed

fun closed_by_done :: "item list \<Rightarrow> queue_command list \<Rightarrow> bool" where
  "closed_by_done [] cmds \<longleftrightarrow> cmds = []"
| "closed_by_done (obj # objs) cmds \<longleftrightarrow>
     (\<exists>c rest'. (c = Forget obj \<or> (\<exists>key. obj = Key key \<and> c = AddRateLimited key)) \<and>
        cmds = c # Done obj # rest' \<and> closed_by_done objs rest')"

lemma process_result:
  "snd (processNextWorkItem C (Some obj) s) = Ok b \<Longrightarrow> b \<and>
     (\<exists>c. cQueue (fst (processNextWorkItem C (Some obj) s)) = cQueue s @ [c, Done obj] \<and>
        (c = Forget obj \<or> (\<exists>key. obj = Key key \<and> c = AddRateLimited key)))"
proof -
  assume ok: "snd (processNextWorkItem C (Some obj) s) = Ok b"
  have b: b
    using ok by (auto simp: processNextWorkItem_def Let_def split: prod.splits res.splits)
  show ?thesis
  proof (cases obj)
    case (Key key)
    have "snd (syncHandler C key s) \<noteq> Panic"
      using ok Key by (auto simp: processNextWorkItem_def process_item_def Let_def split: prod.splits res.splits)
    then show ?thesis
      using b queue_protocol_key [of C key s] Key by (cases "snd (syncHandler C key s)") auto
  next
    case (NotAString t)
    then show ?thesis using b by (simp add: processNextWorkItem_def process_item_def)
  qed
qed

text \<open>
  The worker takes every item the queue hands out, in order, issuing for each its block
  of commands, and stops at the shutdown of the queue, unless a sync panics.
\<close>

theorem runWorker_blocks:
  "snd (runWorker C objs s) = Panic \<or>
   snd (runWorker C objs s) = Ok () \<and>
   (\<exists>cmds. cQueue (fst (runWorker C objs s)) = cQueue s @ cmds \<and> closed_by_done objs cmds)"
proof (induction objs arbitrary: s)
  case Nil
  then show ?case by (simp add: processNextWorkItem_def)
next
  case (Cons obj objs)
  obtain s' out where p: "processNextWorkItem C (Some obj) s = (s', out)"
    by (cases "processNextWorkItem C (Some obj) s")
  show ?case
  proof (cases out)
    case (Ok b)
    with process_result [of C obj s b] p obtain c where
      c: "b" "cQueue s' = cQueue s @ [c, Done obj]"
        "c = Forget obj \<or> (\<exists>key. obj = Key key \<and> c = AddRateLimited key)" by auto
    from Cons.IH [of s'] show ?thesis
    proof (elim disjE conjE exE)
      fix cmds assume ih: "snd (runWorker C objs s') = Ok ()"
        "cQueue (fst (runWorker C objs s')) = cQueue s' @ cmds" "closed_by_done objs cmds"
      then have "closed_by_done (obj # objs) (c # Done obj # cmds)" using c(3) by simp
      then show ?thesis using p Ok c ih by (intro disjI2 conjI exI [of _ "c # Done obj # cmds"]) simp_all
    qed (simp add: p Ok c)
  next
    case (Fail e)
    then show ?thesis
      using p by (auto simp: processNextWorkItem_def Let_def split: prod.splits res.splits)
  qed (simp add: p)
qed

section \<open>What the handlers enqueue\<close>

text \<open>
  An update is enqueued exactly where both its resource version and its generation
  changed, or at a full hour that the resync period divides; a period of zero makes every
  update panic.
\<close>

theorem update_enqueues:
  assumes "0 \<le> hour" "clObjectKey C new = Inr key"
  shows "case updateCustomResource C hour minute old new s of
      (s', Ok u) \<Rightarrow> clResyncPeriod C \<noteq> 0 \<and>
        s' = (if clResyncPeriod C dvd hour \<and> minute = 0 \<or>
                 rsResourceVersion (as_resource old) \<noteq> rsResourceVersion (as_resource new) \<and>
                 rsGeneration (as_resource old) \<noteq> rsGeneration (as_resource new)
              then s\<lparr>cQueue := cQueue s @ [Add key]\<rparr> else s)
    | (s', Fail e) \<Rightarrow> False
    | (s', Panic) \<Rightarrow> clResyncPeriod C = 0 \<and> s' = s"
proof (cases "clResyncPeriod C = 0")
  case True
  then show ?thesis by (simp add: updateCustomResource_def doPeriodResync_def go_rem_def)
next
  case False
  have "sgn hour * (\<bar>hour\<bar> mod \<bar>clResyncPeriod C\<bar>) = 0 \<longleftrightarrow> clResyncPeriod C dvd hour"
    by (auto simp: sgn_if dvd_eq_mod_eq_0 [symmetric])
  then show ?thesis
    using False assms(2)
    by (auto simp: updateCustomResource_def doPeriodResync_def go_rem_def versionsDiffer_def
        enqueue_def issue_def)
qed

text \<open>
  C19: The controller does not wake itself: the update its own status report causes (same
  generation, whatever the resource version) is not enqueued, but at the resync minute.
\<close>

theorem no_self_trigger:
  assumes "clResyncPeriod C \<noteq> 0" "\<not> (clResyncPeriod C dvd hour \<and> minute = 0)" "0 \<le> hour"
    "su = rs\<lparr>rsStatusBlock := \<lparr>stMessage = m\<rparr>, rsResourceVersion := v\<rparr>"
  shows "updateCustomResource C hour minute (Resource rs) (Resource su) s = (s, Ok ())"
proof -
  have "sgn hour * (\<bar>hour\<bar> mod \<bar>clResyncPeriod C\<bar>) = 0 \<longleftrightarrow> clResyncPeriod C dvd hour"
    by (auto simp: sgn_if dvd_eq_mod_eq_0 [symmetric])
  then show ?thesis
    using assms by (auto simp: updateCustomResource_def doPeriodResync_def go_rem_def
        versionsDiffer_def as_resource_def)
qed

section \<open>From the key to the calls\<close>

text \<open>
  A resource reported as synced is in place: where the run of the service succeeds, the
  sync has made, for each name in the spec (with its secrets replaced), the calls of the
  last entry of that name, each plan ending in success, in ascending order.
\<close>

theorem sync_runs_actions:
  assumes "documented_sort (clLib C)" "visits_all (clVisit C)"
    "clSplitKey C key = Some (namespace, name)"
    "clGet C (nWorld (cNet s)) namespace name = Inr rs"
    "clSpecJson C (clRetrieve C) (clConfig C) (nWorld (cNet s)) (rsSpec rs) = (w, Inr spec)"
    "snd (run_service C spec (kube_world w s)) = Ok ()"
  shows "\<exists>as rs. mset as = mset (map (\<lambda>(k, v). WithHeader (WithName k v)) (sortActions (specSeeders spec))) \<and>
    sorted (map order_of as) \<and> list_all2 (ran (plan_of (xRest (clLib C)))) as rs \<and>
    (\<forall>r \<in> set rs. snd r \<noteq> Some False) \<and>
    net_events (cNet (fst (syncHandler C key s))) = net_events (cNet s) @ calls_of rs"
proof -
  obtain t o' where t: "run_service C spec (kube_world w s) = (t, o')" by force
  have "net_events (cNet (fst (syncHandler C key s))) = net_events (cNet t)"
    using assms(3-5) t by (simp add: syncHandler_def)
  with run_service_Ok [OF assms(1,2,6)] t show ?thesis by simp
qed

end
