(* ===== verification/Reconciler.thy ===== *)
theory Reconciler
  imports Runner "HOL-Library.Word"
begin

text \<open>
  The kubebuilder controller: \<^verbatim>\<open>kubebuilder-controller/controllers/reststrategy_controller.go\<close>
  and the resource of \<^verbatim>\<open>kubebuilder-controller/api/v1alpha1/reststrategy_types.go\<close>.  The API
  server's Get and status update are parameters that may change the world; a Get that
  fails leaves the object as it was, the zero value.  A \<^verbatim>\<open>time.Duration\<close> is 64 bits wide.
\<close>

section \<open>The resource\<close>

record KbStrategySpec =
  kbAuth :: "AuthConfig list"
  kbSeeders :: "Action list"

record KbRestStrategy =
  kbNamespace :: string
  kbName :: string
  kbSpec :: KbStrategySpec
  kbMessage :: string

definition zero_KbRestStrategy :: KbRestStrategy where
  "zero_KbRestStrategy = \<lparr>kbNamespace = [], kbName = [],
     kbSpec = \<lparr>kbAuth = [], kbSeeders = []\<rparr>, kbMessage = []\<rparr>"

type_synonym duration = "64 word"

definition Minute :: duration where "Minute = 60000000000"
definition Second :: duration where "Second = 1000000000"

section \<open>Reconcile\<close>

record ('w, 'o) RestStrategyReconciler =
  rcLib :: "('w, 'o) lib"
  rcGet :: "'w \<Rightarrow> string \<Rightarrow> string \<Rightarrow> string + KbRestStrategy"
  rcUpdateStatus :: "'w \<Rightarrow> KbRestStrategy \<Rightarrow> 'w \<times> (string + unit)"
  rcConfigManager :: "('w, 'o) CMRetrieve"
  rcConfigManagerConfig :: "'o option"
  rcResyncPeriod :: int

record 'w manager =
  mNet :: "'w net"
  mEnv :: environ
  mUpdates :: "KbRestStrategy list"

record request_name =
  rqNamespace :: string
  rqName :: string

definition update_status ::
  "('w, 'o) RestStrategyReconciler \<Rightarrow> KbRestStrategy \<Rightarrow> 'w manager \<Rightarrow> 'w manager" where
  "update_status R spec s =
     (case rcUpdateStatus R (nWorld (mNet s)) spec of
        (w, res) \<Rightarrow> s\<lparr>mNet := (mNet s)\<lparr>nWorld := w\<rparr>, mUpdates := mUpdates s @ [spec]\<rparr>)"

definition SuccessMessage :: "request_name \<Rightarrow> string" where
  "SuccessMessage req =
     ''successfully synced resource: '' @ rqName req @ '' in namespace: '' @ rqNamespace req"

definition FailedMessage :: "request_name \<Rightarrow> string \<Rightarrow> string" where
  "FailedMessage req e =
     ''failed synced resource: '' @ rqName req @ '' in namespace: '' @ rqNamespace req @
     '' with error: '' @ e"

text \<open>The seeder of one reconciliation, and its run.\<close>

definition reconcile_seeder ::
  "('w, 'o) RestStrategyReconciler \<Rightarrow> KbStrategySpec \<Rightarrow> 'w manager
   \<Rightarrow> ('w, 'o) StrategyRestSeeder outcome" where
  "reconcile_seeder R spec s =
     (let srs = WithRestClient (xHttpClient (rcLib R)) (New (rcLib R) (mNet s) (mEnv s)) in
      map_ok (\<lambda>srs.
          case rcConfigManagerConfig R of
            None \<Rightarrow> srs
          | Some c \<Rightarrow> WithConfigManagerOptions c (WithConfigManager (Some (rcConfigManager R)) srs))
        (WithAuthFromList (kbAuth spec) (WithActionsList (kbSeeders spec) srs)))"

definition reconcile_run ::
  "('w, 'o) RestStrategyReconciler \<Rightarrow> KbStrategySpec \<Rightarrow> 'w manager \<Rightarrow> 'w manager \<times> unit outcome" where
  "reconcile_run R spec s =
     (case reconcile_seeder R spec s of
        Ok srs \<Rightarrow>
          (case Execute (rcLib R) srs of
             (srs', out) \<Rightarrow> (s\<lparr>mNet := net (rest srs'), mEnv := env (rest srs')\<rparr>, out))
      | Fail e \<Rightarrow> (s, Fail e)
      | Panic \<Rightarrow> (s, Panic))"

text \<open>The time after which to reconcile again, or the error.\<close>

definition Reconcile ::
  "('w, 'o) RestStrategyReconciler \<Rightarrow> request_name \<Rightarrow> 'w manager
   \<Rightarrow> 'w manager \<times> duration outcome" where
  "Reconcile R req s0 =
     (let obj = (case rcGet R (nWorld (mNet s0)) (rqNamespace req) (rqName req) of
                   Inl e \<Rightarrow> zero_KbRestStrategy | Inr o' \<Rightarrow> o') in
      (case reconcile_run R (kbSpec obj) s0 of
         (s, Fail e) \<Rightarrow>
           (update_status R (obj\<lparr>kbMessage := FailedMessage req (err_text e)\<rparr>) s, Fail e)
       | (s, Ok u) \<Rightarrow>
           (update_status R (obj\<lparr>kbMessage := SuccessMessage req\<rparr>) s,
            Ok (of_int (rcResyncPeriod R) * Minute))
       | (s, Panic) \<Rightarrow> (s, Panic)))"

section \<open>Properties\<close>

lemma update_status_log [simp]:
  "mUpdates (update_status R o' s) = mUpdates s @ [o']"
  "net_events (mNet (update_status R o' s)) = net_events (mNet s)"
  by (simp_all add: update_status_def net_events_def split: prod.split)

lemma reconcile_run_updates: "mUpdates (fst (reconcile_run R spec s)) = mUpdates s"
  by (simp add: reconcile_run_def split: res.split prod.split)

lemma reconcile_seeder_Ok:
  assumes "reconcile_seeder R spec s = Ok srs"
  shows "sStrategy srs = strategy_table \<and> seeder_events srs = net_events (mNet s) \<and>
    actions srs = map (\<lambda>v. WithHeader (WithName (Name v) v)) (kbSeeders spec) \<and>
    (rcConfigManagerConfig R = None \<longrightarrow> configManager srs = None)"
proof -
  let ?s0 = "WithActionsList (kbSeeders spec)
      (WithRestClient (xHttpClient (rcLib R)) (New (rcLib R) (mNet s) (mEnv s)))"
  from assms obtain s1 where s1: "WithAuthFromList (kbAuth spec) ?s0 = Ok s1"
    and srs: "srs = (case rcConfigManagerConfig R of None \<Rightarrow> s1
      | Some c \<Rightarrow> WithConfigManagerOptions c (WithConfigManager (Some (rcConfigManager R)) s1))"
    by (auto simp: reconcile_seeder_def Let_def map_ok_iff)
  from seeder_WithAuth_Ok [OF s1 [unfolded WithAuthFromList_def]] obtain ac where
    "s1 = ?s0\<lparr>authInstructions := auth_map_of_list (kbAuth spec), rest := (rest ?s0)\<lparr>auth_map := Some ac\<rparr>\<rparr>"
    by blast
  then show ?thesis
    by (simp add: srs WithActionsList_eq WithRestClient_def New_def WithClient_def NewSeederImpl_def
        seeder_events_net WithConfigManagerOptions_def WithConfigManager_def split: option.split)
qed

text \<open>A reconciliation without error: what it ran, wrote and asks for.\<close>

lemma Reconcile_Ok:
  assumes "documented_sort (rcLib R)" "rcGet R (nWorld (mNet s)) (rqNamespace req) (rqName req) = Inr obj"
    "Reconcile R req s = (s', Ok d)"
  shows "\<exists>as rs. mset as = mset (map (\<lambda>v. WithHeader (WithName (Name v) v)) (kbSeeders (kbSpec obj))) \<and>
    sorted (map order_of as) \<and> list_all2 (ran (plan_of (xRest (rcLib R)))) as rs \<and>
    (\<forall>r \<in> set rs. snd r \<noteq> Some False) \<and>
    net_events (mNet s') = net_events (mNet s) @ calls_of rs \<and>
    mUpdates s' = mUpdates s @ [obj\<lparr>kbMessage := SuccessMessage req\<rparr>] \<and>
    d = of_int (rcResyncPeriod R) * Minute"
proof -
  obtain t out where r: "reconcile_run R (kbSpec obj) s = (t, out)"
    by (cases "reconcile_run R (kbSpec obj) s")
  with assms(2,3) have out: "out = Ok ()"
    and s': "s' = update_status R (obj\<lparr>kbMessage := SuccessMessage req\<rparr>) t"
    and d: "d = of_int (rcResyncPeriod R) * Minute"
    by (cases out; simp add: Reconcile_def)+
  from r out obtain srs srs' where srs: "reconcile_seeder R (kbSpec obj) s = Ok srs"
    "Execute (rcLib R) srs = (srs', Ok ())" "mNet t = net (rest srs')"
    by (auto simp: reconcile_run_def split: res.splits prod.splits)
  note k = reconcile_seeder_Ok [OF srs(1)]
  have up: "mUpdates t = mUpdates s" using reconcile_run_updates [of R "kbSpec obj" s] r by simp
  from Execute_Ok [OF assms(1) _ srs(2)] k obtain as rs where
    "mset as = mset (actions srs)" "sorted (map order_of as)"
    "list_all2 (ran (plan_of (xRest (rcLib R)))) as rs" "\<forall>r \<in> set rs. snd r \<noteq> Some False"
    "seeder_events srs' = seeder_events srs @ calls_of rs" by blast
  with k show ?thesis
    by (intro exI [of _ as] exI [of _ rs]) (simp add: s' d up seeder_events_net srs(3) [symmetric])
qed


text \<open>
  The error of a reconciliation is that of its run; it has written exactly one status,
  with that error in its message.
\<close>

theorem Reconcile_error:
  assumes "rcGet R (nWorld (mNet s)) (rqNamespace req) (rqName req) = Inr obj"
    "Reconcile R req s = (s', Fail e)"
  shows "snd (reconcile_run R (kbSpec obj) s) = Fail e \<and>
    mUpdates s' = mUpdates s @ [obj\<lparr>kbMessage := FailedMessage req (err_text e)\<rparr>]"
proof -
  obtain t out where r: "reconcile_run R (kbSpec obj) s = (t, out)"
    by (cases "reconcile_run R (kbSpec obj) s")
  have "mUpdates t = mUpdates s" using reconcile_run_updates [of R "kbSpec obj" s] r by simp
  with assms r show ?thesis by (cases out) (auto simp: Reconcile_def)
qed

lemma SortFunc_Nil [simp]: "SortFunc long cmp [] = []"
  by (simp add: SortFunc_def insertion_sort_def)

lemma auth_map_Nil [simp]: "auth_map_of_list [] = []"
  by (simp add: auth_map_of_list_def)

lemma NewAuth_Nil [simp]: "NewAuth [] = Ok []"
  by (simp add: NewAuth_def)

text \<open>What cannot be read is run as the empty resource.\<close>

lemma Reconcile_empty:
  assumes "rcGet R (nWorld (mNet s)) (rqNamespace req) (rqName req) = Inl e"
  shows "\<exists>s'. Reconcile R req s = (s', Ok (of_int (rcResyncPeriod R) * Minute)) \<and>
    net_events (mNet s') = net_events (mNet s) \<and>
    mUpdates s' = mUpdates s @ [zero_KbRestStrategy\<lparr>kbMessage := SuccessMessage req\<rparr>]"
proof -
  let ?spec = "kbSpec zero_KbRestStrategy"
  have spec: "kbAuth ?spec = []" "kbSeeders ?spec = []" by (simp_all add: zero_KbRestStrategy_def)
  obtain srs where srs: "reconcile_seeder R ?spec s = Ok srs"
    by (simp add: reconcile_seeder_def Let_def spec WithAuthFromList_def seeder_WithAuth_def WithAuth_def)
  note k = reconcile_seeder_Ok [OF srs]
  have "authInstructions srs = []"
    using srs by (auto simp: reconcile_seeder_def Let_def spec WithAuthFromList_def seeder_WithAuth_def
        WithAuth_def WithConfigManagerOptions_def WithConfigManager_def
        split: option.splits)
  then have "Execute (rcLib R) srs = (srs\<lparr>actions := []\<rparr>, Ok ())"
    using k spec by (simp add: Execute_def replaceAuthTokens_def Let_def final_error_def split: option.split)
  with srs have run: "reconcile_run R ?spec s = (s\<lparr>mNet := net (rest srs), mEnv := env (rest srs)\<rparr>, Ok ())"
    by (simp add: reconcile_run_def)
  have "net_events (net (rest srs)) = net_events (mNet s)" using k by (simp add: seeder_events_net)
  then show ?thesis using assms by (simp add: Reconcile_def run)
qed

text \<open>
  C27: A resource that cannot be read, one that was deleted among them, is reconciled all the
  same, as an empty one: no call is made, the success message goes into the status of an
  object with no name, and the request is put back for the next resync period.
\<close>

theorem Reconcile_unreadable:
  assumes "rcGet R (nWorld (mNet s)) (rqNamespace req) (rqName req) = Inl e"
  shows "\<exists>s'. Reconcile R req s = (s', Ok (of_int (rcResyncPeriod R) * Minute)) \<and>
    net_events (mNet s') = net_events (mNet s) \<and>
    mUpdates s' = mUpdates s @ [zero_KbRestStrategy\<lparr>kbMessage := SuccessMessage req\<rparr>]"
  by (rule Reconcile_empty [OF assms])

text \<open>One round for a request, as a run with an outcome, and what it wants when it starts.\<close>

definition reconcile_round ::
  "('w, 'o) RestStrategyReconciler \<Rightarrow> request_name \<Rightarrow> 'w manager \<Rightarrow> 'w manager \<times> unit outcome" where
  "reconcile_round R req s = (case Reconcile R req s of (s', out) \<Rightarrow> (s', map_ok (\<lambda>d. ()) out))"

definition wanted ::
  "('w, 'o) RestStrategyReconciler \<Rightarrow> request_name \<Rightarrow> 'w manager \<Rightarrow> Action multiset" where
  "wanted R req s =
     (case rcGet R (nWorld (mNet s)) (rqNamespace req) (rqName req) of
        Inl e \<Rightarrow> {#}
      | Inr obj \<Rightarrow> mset (map (\<lambda>v. WithHeader (WithName (Name v) v)) (kbSeeders (kbSpec obj))))"

lemma reconcile_run_grows:
  assumes "reconcile_run R spec s = (t, out)" "out \<noteq> Panic"
  shows "extends (net_events (mNet s)) (net_events (mNet t))"
proof (cases "reconcile_seeder R spec s")
  case (Ok srs)
  obtain srs' o' where e: "Execute (rcLib R) srs = (srs', o')" by (cases "Execute (rcLib R) srs")
  with assms Ok have "o' \<noteq> Panic" "net_events (mNet t) = seeder_events srs'"
    by (auto simp: reconcile_run_def seeder_events_net)
  with Execute_grows [OF e] reconcile_seeder_Ok [OF Ok] show ?thesis by simp
qed (use assms in \<open>auto simp: reconcile_run_def\<close>)

lemma Reconcile_grows:
  assumes "snd (Reconcile R req s) \<noteq> Panic"
  shows "extends (net_events (mNet s)) (net_events (mNet (fst (Reconcile R req s))))"
proof -
  define obj where "obj = (case rcGet R (nWorld (mNet s)) (rqNamespace req) (rqName req) of
      Inl e \<Rightarrow> zero_KbRestStrategy | Inr o' \<Rightarrow> o')"
  obtain t out where r: "reconcile_run R (kbSpec obj) s = (t, out)"
    by (cases "reconcile_run R (kbSpec obj) s")
  with assms have "out \<noteq> Panic" by (auto simp: Reconcile_def obj_def [symmetric] Let_def)
  from reconcile_run_grows [OF r this] this r show ?thesis
    by (cases out) (simp_all add: Reconcile_def obj_def [symmetric] Let_def)
qed

text \<open>Reconciling one request is one of the runners.\<close>

interpretation reconcile_runs: resource_runner "reconcile_round R req" "\<lambda>s. net_events (mNet s)"
  "plan_of (xRest (rcLib R))" "wanted R req" "\<lambda>s. documented_sort (rcLib R)" for R req
proof (unfold_locales, goal_cases)
  case (1 s)
  then show ?case using Reconcile_grows [of R req s]
    by (cases "snd (Reconcile R req s)") (simp_all add: reconcile_round_def split: prod.splits)
next
  case (2 s)
  then obtain s' d where r: "Reconcile R req s = (s', Ok d)" "fst (reconcile_round R req s) = s'"
    by (auto simp: reconcile_round_def map_ok_iff split: prod.splits)
  show ?case
  proof (cases "rcGet R (nWorld (mNet s)) (rqNamespace req) (rqName req)")
    case (Inl e)
    with Reconcile_empty [OF Inl] r show ?thesis
      by (intro exI [of _ "[]"]) (auto simp: wanted_def)
  next
    case (Inr obj)
    with Reconcile_Ok [OF 2(1) Inr r(1)] r(2) show ?thesis
      unfolding complete_calls_def by (fastforce simp: wanted_def)
  qed
qed

text \<open>
  C26: Requeues do all the work again.  Whatever changes the resource between the rounds, the
  calls logged are one segment per round, in order, and the segment of each round without
  error is a complete run of what the resource said when that round started: every action,
  in ascending order, each plan to success, whether or not an earlier round had succeeded.
\<close>

theorem requeues_rerun:
  assumes "documented_sort (rcLib R)" "history (reconcile_round R req) fs s = (t, h)"
    "\<forall>f \<in> set fs. \<forall>u. net_events (mNet (f u)) = net_events (mNet u)"
    "\<forall>(u, out) \<in> set h. out \<noteq> Panic"
  shows "\<exists>segs.
    list_all2 (\<lambda>(u, out) seg.
      out = Ok () \<longrightarrow> complete_calls (plan_of (xRest (rcLib R))) (wanted R req u) seg) h segs \<and>
    net_events (mNet t) = net_events (mNet s) @ concat segs"
  using assms by (intro reconcile_runs.each_success_ran) auto

lemma minutes_fit:
  assumes n: "\<bar>n\<bar> \<le> 153722867"
  shows "sint (of_int n * Minute) = n * 60000000000"
proof -
  have "of_int n * Minute = (word_of_int (n * 60000000000) :: 64 word)" by (simp add: Minute_def)
  moreover have "sint (word_of_int (n * 60000000000) :: 64 word) = n * 60000000000"
    unfolding sint_sbintrunc' by (rule signed_take_bit_int_eq_self) (use n in auto)
  ultimately show ?thesis by (rule trans [OF arg_cong])
qed


end
