(* ===== verification/Registration.thy ===== *)
theory Registration
  imports Diagnostic
begin

text \<open>
  The names the custom resource goes by: \<^verbatim>\<open>apis/reststrategy/register.go\<close>,
  \<^verbatim>\<open>v1alpha1/register.go\<close>, the registration of the generated clientset and of its fake
  (\<^verbatim>\<open>versioned/scheme/register.go\<close>, \<^verbatim>\<open>versioned/fake/register.go\<close>), and that of the
  kubebuilder controller (\<^verbatim>\<open>groupversion_info.go\<close>).  The runtime scheme of apimachinery is
  a parameter, with its operations; a Go type is its name.
\<close>

section \<open>Groups, versions, kinds and resources\<close>

record group_version =
  gvGroup :: string
  gvVersion :: string

record group_version_kind =
  gvkGroup :: string
  gvkVersion :: string
  gvkKind :: string

record group_version_resource =
  gvrGroup :: string
  gvrVersion :: string
  gvrResource :: string

text \<open>The helpers of apimachinery's \<^verbatim>\<open>schema\<close> package, which only move fields.\<close>

definition WithKind :: "group_version \<Rightarrow> string \<Rightarrow> group_version_kind" where
  "WithKind gv kind = \<lparr>gvkGroup = gvGroup gv, gvkVersion = gvVersion gv, gvkKind = kind\<rparr>"

definition WithResource :: "group_version \<Rightarrow> string \<Rightarrow> group_version_resource" where
  "WithResource gv resource =
     \<lparr>gvrGroup = gvGroup gv, gvrVersion = gvVersion gv, gvrResource = resource\<rparr>"

definition GroupName :: string where "GroupName = ''dnitsch.net''"

definition SchemeGroupVersion :: group_version where
  "SchemeGroupVersion = \<lparr>gvGroup = GroupName, gvVersion = ''v1alpha1''\<rparr>"

text \<open>A group with a kind, and a group with a resource.\<close>

definition Kind :: "string \<Rightarrow> string \<times> string" where
  "Kind kind = (case WithKind SchemeGroupVersion kind of gvk \<Rightarrow> (gvkGroup gvk, gvkKind gvk))"

definition Resource_of :: "string \<Rightarrow> string \<times> string" where
  "Resource_of resource =
     (case WithResource SchemeGroupVersion resource of gvr \<Rightarrow> (gvrGroup gvr, gvrResource gvr))"

text \<open>The variables of the generated fake, and the group of the kubebuilder controller.\<close>

definition reststrategiesResource :: group_version_resource where
  "reststrategiesResource =
     \<lparr>gvrGroup = ''reststrategy.dnitsch.net'', gvrVersion = ''v1alpha1'', gvrResource = ''reststrategies''\<rparr>"

definition reststrategiesKind :: group_version_kind where
  "reststrategiesKind =
     \<lparr>gvkGroup = ''reststrategy.dnitsch.net'', gvkVersion = ''v1alpha1'', gvkKind = ''RestStrategy''\<rparr>"

definition kb_GroupVersion :: group_version where
  "kb_GroupVersion = \<lparr>gvGroup = ''seeder.dnitsch.net'', gvVersion = ''v1alpha1''\<rparr>"

section \<open>Registering\<close>

record 's scheme_ops =
  opNewScheme :: 's
  opAddKnownTypes :: "group_version \<Rightarrow> string list \<Rightarrow> 's \<Rightarrow> 's"
  opAddToGroupVersion :: "group_version \<Rightarrow> 's \<Rightarrow> 's"
  opObjectKinds :: "'s \<Rightarrow> string \<Rightarrow> group_version_kind list"

type_synonym 's scheme_builder = "('s \<Rightarrow> string + 's) list"

text \<open>\<^verbatim>\<open>SchemeBuilder.AddToScheme\<close> of apimachinery: each function in turn, up to the first error.\<close>

fun AddToScheme_of :: "'s scheme_builder \<Rightarrow> 's \<Rightarrow> string + 's" where
  "AddToScheme_of [] s = Inr s"
| "AddToScheme_of (f # fs) s = (case f s of Inl err \<Rightarrow> Inl err | Inr s' \<Rightarrow> AddToScheme_of fs s')"

definition rest_types :: "string list" where
  "rest_types = [''RestStrategy'', ''RestStrategyList'']"

definition addKnownTypes :: "'s scheme_ops \<Rightarrow> 's \<Rightarrow> string + 's" where
  "addKnownTypes R scheme =
     Inr (opAddToGroupVersion R SchemeGroupVersion (opAddKnownTypes R SchemeGroupVersion rest_types scheme))"

definition SchemeBuilder :: "'s scheme_ops \<Rightarrow> 's scheme_builder" where
  "SchemeBuilder R = [addKnownTypes R]"

definition AddToScheme :: "'s scheme_ops \<Rightarrow> 's \<Rightarrow> string + 's" where
  "AddToScheme R = AddToScheme_of (SchemeBuilder R)"

text \<open>The builders of the generated clientset and of its fake, and what their \<^verbatim>\<open>init\<close> does.\<close>

definition localSchemeBuilder :: "'s scheme_ops \<Rightarrow> 's scheme_builder" where
  "localSchemeBuilder R = [AddToScheme R]"

definition clientset_AddToScheme :: "'s scheme_ops \<Rightarrow> 's \<Rightarrow> string + 's" where
  "clientset_AddToScheme R = AddToScheme_of (localSchemeBuilder R)"

definition init_scheme :: "'s scheme_ops \<Rightarrow> 's outcome" where
  "init_scheme R =
     (case clientset_AddToScheme R (opAddToGroupVersion R \<lparr>gvGroup = [], gvVersion = ''v1''\<rparr> (opNewScheme R)) of
        Inl err \<Rightarrow> Panic
      | Inr scheme \<Rightarrow> Ok scheme)"

text \<open>\<^verbatim>\<open>scheme.Builder\<close> of controller-runtime is given its group and what was registered.\<close>

definition kb_registered :: "group_version \<times> string list" where
  "kb_registered = (kb_GroupVersion, [''RestStrategy'', ''RestStrategyList''])"

definition kb_AddToScheme ::
  "(group_version \<times> string list \<Rightarrow> 's \<Rightarrow> string + 's) \<Rightarrow> 's \<Rightarrow> string + 's" where
  "kb_AddToScheme build = build kb_registered"

section \<open>What is registered\<close>

text \<open>
  What apimachinery documents of a scheme: a type is known under each group and version it
  was added with, its name for the kind, and the meta types of a group are none of these.
\<close>

definition documented_scheme :: "'s scheme_ops \<Rightarrow> bool" where
  "documented_scheme R \<longleftrightarrow>
     (\<forall>t. opObjectKinds R (opNewScheme R) t = []) \<and>
     (\<forall>gv ts s t. opObjectKinds R (opAddKnownTypes R gv ts s) t =
        opObjectKinds R s t @
          (if t \<in> set ts \<and> WithKind gv t \<notin> set (opObjectKinds R s t) then [WithKind gv t] else [])) \<and>
     (\<forall>gv s. \<forall>t \<in> set rest_types. opObjectKinds R (opAddToGroupVersion R gv s) t = opObjectKinds R s t)"

lemmas registration_defs = init_scheme_def clientset_AddToScheme_def localSchemeBuilder_def
  AddToScheme_def SchemeBuilder_def addKnownTypes_def

lemma init_scheme_kinds:
  assumes "documented_scheme R"
  shows "\<exists>scheme. init_scheme R = Ok scheme \<and>
    (\<forall>t \<in> set rest_types. opObjectKinds R scheme t = [WithKind SchemeGroupVersion t])"
  using assms by (auto simp: registration_defs documented_scheme_def)

lemma Kind_Resource:
  "Kind k = (''dnitsch.net'', k)" "Resource_of r = (''dnitsch.net'', r)"
  by (simp_all add: Kind_def Resource_of_def WithKind_def WithResource_def SchemeGroupVersion_def
      GroupName_def)

text \<open>The fake of the client asks for the resource in a group nothing is registered in.\<close>

lemma fake_group:
  "reststrategiesResource \<noteq> WithResource SchemeGroupVersion r"
  "reststrategiesKind \<noteq> WithKind SchemeGroupVersion k"
  "gvGroup kb_GroupVersion \<noteq> gvGroup SchemeGroupVersion"
  by (simp_all add: reststrategiesResource_def reststrategiesKind_def WithResource_def WithKind_def
      SchemeGroupVersion_def GroupName_def kb_GroupVersion_def)

end
