(* ===== verification/Informers.thy ===== *)
theory Informers
  imports Registration
begin

text \<open>
  The shared informer factory,
  \<^verbatim>\<open>apis/reststrategy/generated/informers/externalversions\<close> (factory.go, generic.go and the
  informer of RestStrategies).  A type is its name, a duration its nanoseconds; the list
  options function is kept by a name.  A started informer runs in a goroutine; \<open>running\<close>
  is the log of the goroutines started and \<open>waitGroup\<close> counts those that have not ended.
\<close>

section \<open>State\<close>

record informer =
  infNamespace :: string
  infResync :: int
  infTweak :: "string option"

record sharedInformerFactory =
  fNamespace :: string
  tweakListOptions :: "string option"
  defaultResync :: int
  customResync :: "int gomap"
  informers :: "informer gomap"
  startedInformers :: "bool gomap"
  waitGroup :: nat
  shuttingDown :: bool
  running :: "(string \<times> informer) list"

type_synonym SharedInformerOption = "sharedInformerFactory \<Rightarrow> sharedInformerFactory"

definition WithCustomResyncConfig :: "int gomap \<Rightarrow> SharedInformerOption" where
  "WithCustomResyncConfig resyncConfig f = f\<lparr>customResync := mput_all resyncConfig (customResync f)\<rparr>"

definition WithTweakListOptions :: "string option \<Rightarrow> SharedInformerOption" where
  "WithTweakListOptions t f = f\<lparr>tweakListOptions := t\<rparr>"

definition WithNamespace :: "string \<Rightarrow> SharedInformerOption" where
  "WithNamespace ns f = f\<lparr>fNamespace := ns\<rparr>"

text \<open>The constant \<^verbatim>\<open>NamespaceAll\<close> is the empty string.\<close>

definition NewSharedInformerFactoryWithOptions ::
  "int \<Rightarrow> SharedInformerOption list \<Rightarrow> sharedInformerFactory" where
  "NewSharedInformerFactoryWithOptions resync options =
     fold (\<lambda>opt f. opt f) options
       \<lparr>fNamespace = [], tweakListOptions = None, defaultResync = resync, customResync = [],
        informers = [], startedInformers = [], waitGroup = 0, shuttingDown = False, running = []\<rparr>"

definition NewSharedInformerFactory :: "int \<Rightarrow> sharedInformerFactory" where
  "NewSharedInformerFactory resync = NewSharedInformerFactoryWithOptions resync []"

definition NewFilteredSharedInformerFactory ::
  "int \<Rightarrow> string \<Rightarrow> string option \<Rightarrow> sharedInformerFactory" where
  "NewFilteredSharedInformerFactory resync ns t =
     NewSharedInformerFactoryWithOptions resync [WithNamespace ns, WithTweakListOptions t]"

section \<open>Operations\<close>

text \<open>A map entry of type bool that is missing reads as false.\<close>

definition is_started :: "sharedInformerFactory \<Rightarrow> string \<Rightarrow> bool" where
  "is_started f ty = (case map_of (startedInformers f) ty of None \<Rightarrow> False | Some b \<Rightarrow> b)"

definition start_one :: "string \<times> informer \<Rightarrow> sharedInformerFactory \<Rightarrow> sharedInformerFactory" where
  "start_one ti f =
     (if is_started f (fst ti) then f
      else f\<lparr>waitGroup := waitGroup f + 1, running := running f @ [ti],
             startedInformers := mput (fst ti) True (startedInformers f)\<rparr>)"

definition Start :: "sharedInformerFactory \<Rightarrow> sharedInformerFactory" where
  "Start f = (if shuttingDown f then f else fold start_one (informers f) f)"

text \<open>\<^verbatim>\<open>Shutdown\<close> sets the flag and then waits for the group; the second part is a condition.\<close>

definition Shutdown :: "sharedInformerFactory \<Rightarrow> sharedInformerFactory" where
  "Shutdown f = f\<lparr>shuttingDown := True\<rparr>"

definition Shutdown_returns :: "sharedInformerFactory \<Rightarrow> bool" where
  "Shutdown_returns f \<longleftrightarrow> waitGroup f = 0"

text \<open>A goroutine ends: the deferred \<^verbatim>\<open>wg.Done\<close>.\<close>

definition informer_ends :: "sharedInformerFactory \<Rightarrow> sharedInformerFactory" where
  "informer_ends f = f\<lparr>waitGroup := waitGroup f - 1\<rparr>"

definition WaitForCacheSync :: "(informer \<Rightarrow> bool) \<Rightarrow> sharedInformerFactory \<Rightarrow> bool gomap" where
  "WaitForCacheSync synced f =
     map (\<lambda>(ty, i). (ty, synced i)) (filter (\<lambda>(ty, i). is_started f ty) (informers f))"

definition InformerFor ::
  "string \<Rightarrow> (int \<Rightarrow> informer) \<Rightarrow> sharedInformerFactory \<Rightarrow> sharedInformerFactory \<times> informer" where
  "InformerFor ty newFunc f =
     (case map_of (informers f) ty of
        Some i \<Rightarrow> (f, i)
      | None \<Rightarrow>
          let resync = (case map_of (customResync f) ty of None \<Rightarrow> defaultResync f | Some r \<Rightarrow> r);
              i = newFunc resync in
          (f\<lparr>informers := mput ty i (informers f)\<rparr>, i))"

section \<open>The informer of RestStrategies\<close>

record restStrategyInformer =
  riNamespace :: string
  riTweak :: "string option"

text \<open>
  \<^verbatim>\<open>Reststrategy().V1alpha1().RestStrategies()\<close> hands the factory's settings down, through the
  structs of the group and of the version.
\<close>

record informer_access =
  iaNamespace :: string
  iaTweak :: "string option"

definition group_New :: "string \<Rightarrow> string option \<Rightarrow> informer_access" where
  "group_New namespace t = \<lparr>iaNamespace = namespace, iaTweak = t\<rparr>"

definition version_New :: "string \<Rightarrow> string option \<Rightarrow> informer_access" where
  "version_New namespace t = \<lparr>iaNamespace = namespace, iaTweak = t\<rparr>"

definition Reststrategy :: "sharedInformerFactory \<Rightarrow> informer_access" where
  "Reststrategy f = group_New (fNamespace f) (tweakListOptions f)"

definition V1alpha1 :: "informer_access \<Rightarrow> informer_access" where
  "V1alpha1 g = version_New (iaNamespace g) (iaTweak g)"

definition version_RestStrategies :: "informer_access \<Rightarrow> restStrategyInformer" where
  "version_RestStrategies v = \<lparr>riNamespace = iaNamespace v, riTweak = iaTweak v\<rparr>"

definition RestStrategies :: "sharedInformerFactory \<Rightarrow> restStrategyInformer" where
  "RestStrategies f = version_RestStrategies (V1alpha1 (Reststrategy f))"

lemma RestStrategies_eq: "RestStrategies f = \<lparr>riNamespace = fNamespace f, riTweak = tweakListOptions f\<rparr>"
  by (simp add: RestStrategies_def version_RestStrategies_def V1alpha1_def Reststrategy_def
      group_New_def version_New_def)

definition NewFilteredRestStrategyInformer :: "string \<Rightarrow> int \<Rightarrow> string option \<Rightarrow> informer" where
  "NewFilteredRestStrategyInformer ns resync t =
     \<lparr>infNamespace = ns, infResync = resync, infTweak = t\<rparr>"

definition NewRestStrategyInformer :: "string \<Rightarrow> int \<Rightarrow> informer" where
  "NewRestStrategyInformer ns resync = NewFilteredRestStrategyInformer ns resync None"

definition defaultInformer :: "restStrategyInformer \<Rightarrow> int \<Rightarrow> informer" where
  "defaultInformer ri resync = NewFilteredRestStrategyInformer (riNamespace ri) resync (riTweak ri)"

definition rest_strategy_type :: string where
  "rest_strategy_type = ''*v1alpha1.RestStrategy''"

definition Informer ::
  "restStrategyInformer \<Rightarrow> sharedInformerFactory \<Rightarrow> sharedInformerFactory \<times> informer" where
  "Informer ri f = InformerFor rest_strategy_type (defaultInformer ri) f"

text \<open>A lister reads the index of the informer it is made from.\<close>

definition Lister ::
  "restStrategyInformer \<Rightarrow> sharedInformerFactory \<Rightarrow> sharedInformerFactory \<times> informer" where
  "Lister ri f = Informer ri f"

text \<open>\<^verbatim>\<open>show\<close> is the text of a resource; with the informer comes the group and resource asked for.\<close>

definition ForResource ::
  "(group_version_resource \<Rightarrow> string) \<Rightarrow> group_version_resource \<Rightarrow> sharedInformerFactory
   \<Rightarrow> sharedInformerFactory \<times> (string + informer \<times> string \<times> string)" where
  "ForResource show resource f =
     (if resource = WithResource SchemeGroupVersion ''reststrategies''
      then (case Informer (RestStrategies f) f of
              (f', i) \<Rightarrow> (f', Inr (i, gvrGroup resource, gvrResource resource)))
      else (f, Inl (''no informer found for '' @ show resource)))"

section \<open>The factory as a state machine\<close>

text \<open>Any sequence of the operations, in any interleaving: each holds the lock while it runs.\<close>

inductive factory_step :: "sharedInformerFactory \<Rightarrow> sharedInformerFactory \<Rightarrow> bool" where
  fs_start: "factory_step f (Start f)"
| fs_shutdown: "factory_step f (Shutdown f)"
| fs_informer: "factory_step f (fst (InformerFor ty newFunc f))"
| fs_ends: "factory_step f (informer_ends f)" if "0 < waitGroup f"

inductive reachable :: "sharedInformerFactory \<Rightarrow> sharedInformerFactory \<Rightarrow> bool" for f0 where
  reach_init: "reachable f0 f0"
| reach_step: "reachable f0 f \<Longrightarrow> factory_step f f' \<Longrightarrow> reachable f0 f'"

text \<open>Each type runs at most once, with the informer the factory hands out for it.\<close>

definition wf_factory :: "sharedInformerFactory \<Rightarrow> bool" where
  "wf_factory f \<longleftrightarrow>
     is_map (informers f) \<and> distinct (map fst (running f)) \<and>
     (\<forall>ty. is_started f ty \<longleftrightarrow> ty \<in> fst ` set (running f)) \<and>
     (\<forall>(ty, i) \<in> set (running f). map_of (informers f) ty = Some i) \<and>
     waitGroup f \<le> length (running f)"

lemma start_one_fields [simp]:
  "informers (start_one ti f) = informers f" "shuttingDown (start_one ti f) = shuttingDown f"
  by (simp_all add: start_one_def)

lemma start_one_wf:
  assumes "wf_factory f" "map_of (informers f) (fst ti) = Some (snd ti)"
  shows "wf_factory (start_one ti f)"
  using assms by (cases ti) (auto simp: wf_factory_def start_one_def is_started_def split: if_splits)

lemma start_one_marks: "is_started (start_one ti f) ty \<longleftrightarrow> is_started f ty \<or> ty = fst ti"
  by (auto simp: start_one_def is_started_def)

lemma fold_start_wf:
  assumes "wf_factory f" "\<forall>ti \<in> set tis. map_of (informers f) (fst ti) = Some (snd ti)"
  shows "wf_factory (fold start_one tis f) \<and> informers (fold start_one tis f) = informers f \<and>
    (\<forall>ty. is_started (fold start_one tis f) ty \<longleftrightarrow> is_started f ty \<or> ty \<in> fst ` set tis)"
  using assms
proof (induction tis arbitrary: f)
  case (Cons ti tis)
  from Cons.IH [of "start_one ti f"] Cons.prems start_one_wf [of f ti]
  show ?case by (auto simp: start_one_marks)
qed simp

lemma Start_wf: "wf_factory f \<Longrightarrow> wf_factory (Start f)"
proof -
  assume wf: "wf_factory f"
  then have "\<forall>ti \<in> set (informers f). map_of (informers f) (fst ti) = Some (snd ti)"
    by (auto simp: wf_factory_def is_map_def)
  with fold_start_wf [OF wf this] wf show ?thesis by (simp add: Start_def)
qed

lemma InformerFor_wf: "wf_factory f \<Longrightarrow> wf_factory (fst (InformerFor ty newFunc f))"
proof -
  assume wf: "wf_factory f"
  show ?thesis
  proof (cases "map_of (informers f) ty")
    case None
    then have "a \<noteq> ty \<and> map_of (informers f) a = Some b" if "(a, b) \<in> set (running f)" for a b
      using wf that by (fastforce simp: wf_factory_def)
    then show ?thesis
      using wf None by (auto simp: InformerFor_def wf_factory_def is_started_def Let_def)
  qed (simp add: InformerFor_def wf)
qed

lemma factory_step_wf: "factory_step f f' \<Longrightarrow> wf_factory f \<Longrightarrow> wf_factory f'"
proof (induction rule: factory_step.induct)
  case (fs_start f)
  then show ?case by (rule Start_wf)
next
  case (fs_shutdown f)
  then show ?case by (simp add: wf_factory_def Shutdown_def is_started_def)
next
  case (fs_informer f ty newFunc)
  then show ?case by (rule InformerFor_wf)
next
  case (fs_ends f)
  then show ?case by (auto simp: wf_factory_def informer_ends_def is_started_def)
qed

lemma new_factory_wf: "wf_factory (NewSharedInformerFactory resync)"
  by (simp add: wf_factory_def NewSharedInformerFactory_def NewSharedInformerFactoryWithOptions_def
      is_started_def is_map_def)

lemma option_fields:
  "informers (WithNamespace ns f) = informers f" "running (WithNamespace ns f) = running f"
  "startedInformers (WithNamespace ns f) = startedInformers f"
  "waitGroup (WithNamespace ns f) = waitGroup f"
  by (simp_all add: WithNamespace_def)

text \<open>
  C21: However the factory is used, every informer type runs at most once, the informer that
  runs is the one the factory hands out for its type, and the wait group never counts more
  than the informers started.
\<close>

theorem informers_run_once:
  assumes "reachable (NewSharedInformerFactory resync) f"
  shows "distinct (map fst (running f)) \<and>
    (\<forall>(ty, i) \<in> set (running f). map_of (informers f) ty = Some i) \<and>
    waitGroup f \<le> length (running f)"
proof -
  have "wf_factory f"
    using assms by (induction rule: reachable.induct) (auto intro: new_factory_wf factory_step_wf)
  then show ?thesis by (simp add: wf_factory_def)
qed

text \<open>
  Start runs everything that was asked for and is idempotent; after Shutdown it runs
  nothing more.
\<close>

theorem Start_runs_all:
  assumes "reachable (NewSharedInformerFactory resync) f"
  shows "(if shuttingDown f then Start f = f
      else fst ` set (running (Start f)) = fst ` set (running f) \<union> fst ` set (informers f)) \<and>
    Start (Start f) = Start f"
proof -
  have wf: "wf_factory f"
    using assms by (induction rule: reachable.induct) (auto intro: new_factory_wf factory_step_wf)
  then have m: "\<forall>ti \<in> set (informers f). map_of (informers f) (fst ti) = Some (snd ti)"
    by (auto simp: wf_factory_def is_map_def)
  have same: "fold start_one tis g = g" if "\<forall>ti \<in> set tis. is_started g (fst ti)" for tis g
    using that by (induction tis) (auto simp: start_one_def)
  have sd: "shuttingDown (fold start_one tis g) = shuttingDown g" for tis g
    by (induction tis arbitrary: g) simp_all
  show ?thesis
  proof (cases "shuttingDown f")
    case False
    let ?g = "fold start_one (informers f) f"
    from fold_start_wf [OF wf m] have g: "wf_factory ?g" "informers ?g = informers f"
      "\<forall>ty. is_started ?g ty \<longleftrightarrow> is_started f ty \<or> ty \<in> fst ` set (informers f)" by simp_all
    have "fst ` set (running ?g) = fst ` set (running f) \<union> fst ` set (informers f)"
      using g(1,3) wf by (auto simp: wf_factory_def)
    moreover have "fold start_one (informers ?g) ?g = ?g"
      using g by (intro same) auto
    ultimately show ?thesis using False by (simp add: Start_def sd)
  qed (simp add: Start_def)
qed

text \<open>
  InformerFor hands out one informer per type: asked again it changes nothing and returns
  the same one, whatever constructor it is given; the first time its resync period is the
  type's own where one was configured, else the default.
\<close>

theorem InformerFor_shared:
  assumes "InformerFor ty newFunc f = (f', i)"
  shows "InformerFor ty other f' = (f', i) \<and>
    (map_of (informers f) ty = None \<longrightarrow>
       i = newFunc (case map_of (customResync f) ty of None \<Rightarrow> defaultResync f | Some r \<Rightarrow> r))"
  using assms by (auto simp: InformerFor_def Let_def split: option.splits)

end
