(* ===== verification/Clientset.thy ===== *)
theory Clientset
  imports Controller Reconciler Informers
begin

text \<open>
  The generated client of the custom resource: the typed client
  (\<^verbatim>\<open>clientset/versioned/typed/reststrategy/v1alpha1\<close>) as the requests its methods build, its
  fake as the actions it records, the clientset's construction, and the lister
  (\<^verbatim>\<open>generated/listers\<close>) over the informer's index.  The REST client, the object tracker
  and the index belong to client-go and are parameters; options other than those of a list
  are opaque.
\<close>

section \<open>Requests\<close>

record list_options =
  loLabelSelector :: string
  loTimeoutSeconds :: "64 word option"
  loWatch :: bool

datatype 'p params = NoParams | Params 'p | ListParams list_options
datatype 'p body = NoBody | ObjectBody RestStrategy | OptionsBody 'p | DataBody string

record 'p kube_request =
  krVerb :: string
  krNamespace :: string
  krResource :: string
  krName :: "string option"
  krSubResource :: "string list"
  krParams :: "'p params"
  krTimeout :: duration
  krBody :: "'p body"

record restStrategies =
  rcNs :: string

definition newRestStrategies :: "string \<Rightarrow> restStrategies" where
  "newRestStrategies namespace = \<lparr>rcNs = namespace\<rparr>"

text \<open>What every method starts with, and the timeout of the list operations.\<close>

definition request :: "string \<Rightarrow> restStrategies \<Rightarrow> 'p kube_request" where
  "request verb c =
     \<lparr>krVerb = verb, krNamespace = rcNs c, krResource = ''reststrategies'', krName = None,
      krSubResource = [], krParams = NoParams, krTimeout = 0, krBody = NoBody\<rparr>"

definition list_timeout :: "list_options \<Rightarrow> duration" where
  "list_timeout opts = (case loTimeoutSeconds opts of None \<Rightarrow> 0 | Some n \<Rightarrow> n * Second)"

definition client_Get :: "restStrategies \<Rightarrow> string \<Rightarrow> 'p \<Rightarrow> 'p kube_request" where
  "client_Get c name options = (request ''GET'' c)\<lparr>krName := Some name, krParams := Params options\<rparr>"

definition client_List :: "restStrategies \<Rightarrow> list_options \<Rightarrow> 'p kube_request" where
  "client_List c opts = (request ''GET'' c)\<lparr>krParams := ListParams opts, krTimeout := list_timeout opts\<rparr>"

definition client_Watch :: "restStrategies \<Rightarrow> list_options \<Rightarrow> 'p kube_request" where
  "client_Watch c opts =
     (request ''GET'' c)\<lparr>krParams := ListParams (opts\<lparr>loWatch := True\<rparr>), krTimeout := list_timeout opts\<rparr>"

definition client_Create :: "restStrategies \<Rightarrow> RestStrategy \<Rightarrow> 'p \<Rightarrow> 'p kube_request" where
  "client_Create c rs opts = (request ''POST'' c)\<lparr>krParams := Params opts, krBody := ObjectBody rs\<rparr>"

definition client_Update :: "restStrategies \<Rightarrow> RestStrategy \<Rightarrow> 'p \<Rightarrow> 'p kube_request" where
  "client_Update c rs opts =
     (request ''PUT'' c)\<lparr>krName := Some (rsName rs), krParams := Params opts, krBody := ObjectBody rs\<rparr>"

definition client_UpdateStatus :: "restStrategies \<Rightarrow> RestStrategy \<Rightarrow> 'p \<Rightarrow> 'p kube_request" where
  "client_UpdateStatus c rs opts =
     (request ''PUT'' c)\<lparr>krName := Some (rsName rs), krSubResource := [''status''], krParams := Params opts,
        krBody := ObjectBody rs\<rparr>"

definition client_Delete :: "restStrategies \<Rightarrow> string \<Rightarrow> 'p \<Rightarrow> 'p kube_request" where
  "client_Delete c name opts = (request ''DELETE'' c)\<lparr>krName := Some name, krBody := OptionsBody opts\<rparr>"

definition client_DeleteCollection :: "restStrategies \<Rightarrow> 'p \<Rightarrow> list_options \<Rightarrow> 'p kube_request" where
  "client_DeleteCollection c opts listOpts =
     (request ''DELETE'' c)\<lparr>krParams := ListParams listOpts, krTimeout := list_timeout listOpts,
        krBody := OptionsBody opts\<rparr>"

definition client_Patch ::
  "restStrategies \<Rightarrow> string \<Rightarrow> string \<Rightarrow> 'p \<Rightarrow> string list \<Rightarrow> 'p kube_request" where
  "client_Patch c name data opts subresources =
     (request ''PATCH'' c)\<lparr>krName := Some name, krSubResource := subresources, krParams := Params opts,
        krBody := DataBody data\<rparr>"

section \<open>What an informer asks for\<close>

text \<open>The functions a RestStrategy informer lists and watches with; a tweak is known by its name.\<close>

definition tweaked :: "(string \<Rightarrow> list_options \<Rightarrow> list_options) \<Rightarrow> informer \<Rightarrow> list_options \<Rightarrow> list_options" where
  "tweaked tweaks i options = (case infTweak i of None \<Rightarrow> options | Some t \<Rightarrow> tweaks t options)"

definition ListFunc ::
  "(string \<Rightarrow> list_options \<Rightarrow> list_options) \<Rightarrow> informer \<Rightarrow> list_options \<Rightarrow> 'p kube_request" where
  "ListFunc tweaks i options = client_List (newRestStrategies (infNamespace i)) (tweaked tweaks i options)"

definition WatchFunc ::
  "(string \<Rightarrow> list_options \<Rightarrow> list_options) \<Rightarrow> informer \<Rightarrow> list_options \<Rightarrow> 'p kube_request" where
  "WatchFunc tweaks i options = client_Watch (newRestStrategies (infNamespace i)) (tweaked tweaks i options)"

section \<open>The fake\<close>

datatype 'p fake_action =
  GetAction string string | ListAction string list_options | WatchAction string list_options
| CreateAction string RestStrategy | UpdateAction string RestStrategy
| UpdateSubresourceAction string string RestStrategy | DeleteAction string string 'p
| DeleteCollectionAction string list_options | PatchSubresourceAction string string string "string list"

text \<open>
  Most methods pass the object the tracker answers with on, or nil where there is none.  The
  tracker answers an action with an object, or none, and an error, or none.
\<close>

type_synonym ('p, 'r) invokes = "'p fake_action \<Rightarrow> 'r option \<times> string option"

definition fake_result :: "'r option \<times> string option \<Rightarrow> 'r option \<times> string option" where
  "fake_result answer = (case answer of (None, err) \<Rightarrow> (None, err) | (Some obj, err) \<Rightarrow> (Some obj, err))"

definition fake_Get ::
  "('p, 'r) invokes \<Rightarrow> string \<Rightarrow> string \<Rightarrow> 'p \<Rightarrow> 'r option \<times> string option" where
  "fake_Get invoke ns name options = fake_result (invoke (GetAction ns name))"

text \<open>\<^verbatim>\<open>matches\<close> is the selector of the options, applied to the labels of an item.\<close>

definition fake_List ::
  "('p, RestStrategy list) invokes \<Rightarrow> (list_options \<Rightarrow> RestStrategy \<Rightarrow> bool) \<Rightarrow> string \<Rightarrow> list_options
   \<Rightarrow> RestStrategy list option \<times> string option" where
  "fake_List invoke matches ns opts =
     (case invoke (ListAction ns opts) of
        (None, err) \<Rightarrow> (None, err)
      | (Some items, err) \<Rightarrow> (Some (filter (matches opts) items), err))"

definition fake_Watch :: "('p, 'r) invokes \<Rightarrow> string \<Rightarrow> list_options \<Rightarrow> 'r option \<times> string option" where
  "fake_Watch invoke ns opts = invoke (WatchAction ns opts)"

definition fake_Create ::
  "('p, 'r) invokes \<Rightarrow> string \<Rightarrow> RestStrategy \<Rightarrow> 'p \<Rightarrow> 'r option \<times> string option" where
  "fake_Create invoke ns rs opts = fake_result (invoke (CreateAction ns rs))"

definition fake_Update ::
  "('p, 'r) invokes \<Rightarrow> string \<Rightarrow> RestStrategy \<Rightarrow> 'p \<Rightarrow> 'r option \<times> string option" where
  "fake_Update invoke ns rs opts = fake_result (invoke (UpdateAction ns rs))"

definition fake_UpdateStatus ::
  "('p, 'r) invokes \<Rightarrow> string \<Rightarrow> RestStrategy \<Rightarrow> 'p \<Rightarrow> 'r option \<times> string option" where
  "fake_UpdateStatus invoke ns rs opts = fake_result (invoke (UpdateSubresourceAction ''status'' ns rs))"

definition fake_Delete :: "('p, 'r) invokes \<Rightarrow> string \<Rightarrow> string \<Rightarrow> 'p \<Rightarrow> string option" where
  "fake_Delete invoke ns name opts = snd (invoke (DeleteAction ns name opts))"

definition fake_DeleteCollection :: "('p, 'r) invokes \<Rightarrow> string \<Rightarrow> 'p \<Rightarrow> list_options \<Rightarrow> string option" where
  "fake_DeleteCollection invoke ns opts listOpts = snd (invoke (DeleteCollectionAction ns listOpts))"

definition fake_Patch ::
  "('p, 'r) invokes \<Rightarrow> string \<Rightarrow> string \<Rightarrow> string \<Rightarrow> 'p \<Rightarrow> string list
   \<Rightarrow> 'r option \<times> string option" where
  "fake_Patch invoke ns name data opts subresources =
     fake_result (invoke (PatchSubresourceAction ns name data subresources))"

section \<open>Building a clientset\<close>

text \<open>
  Of a configuration what the code reads or writes is kept; of the rate limit QPS only whether
  it is positive.  The constructors of client-go are parameters, each an error or none.
\<close>

record rest_config =
  rgUserAgent :: string
  rgHasRateLimiter :: bool
  rgPositiveQPS :: bool
  rgBurst :: int
  rgAPIPath :: string
  rgGroupVersion :: group_version

record client_go =
  cgUserAgent :: string
  cgHTTPClient :: "rest_config \<Rightarrow> string option"
  cgRESTClient :: "rest_config \<Rightarrow> string option"
  cgDiscovery :: "rest_config \<Rightarrow> string option"

definition setConfigDefaults :: "client_go \<Rightarrow> rest_config \<Rightarrow> rest_config" where
  "setConfigDefaults K config =
     config\<lparr>rgGroupVersion := SchemeGroupVersion, rgAPIPath := ''/apis'',
       rgUserAgent := (if rgUserAgent config = [] then cgUserAgent K else rgUserAgent config)\<rparr>"

text \<open>The typed client, and what the REST client of it was made from.\<close>

definition typed_NewForConfigAndClient :: "client_go \<Rightarrow> rest_config \<Rightarrow> string + rest_config" where
  "typed_NewForConfigAndClient K c =
     (let config = setConfigDefaults K c in
      (case cgRESTClient K config of Some err \<Rightarrow> Inl err | None \<Rightarrow> Inr config))"

definition typed_NewForConfig :: "client_go \<Rightarrow> rest_config \<Rightarrow> string + rest_config" where
  "typed_NewForConfig K c =
     (let config = setConfigDefaults K c in
      (case cgHTTPClient K config of
         Some err \<Rightarrow> Inl err
       | None \<Rightarrow> typed_NewForConfigAndClient K config))"

definition burst_error :: string where
  "burst_error = ''burst is required to be greater than 0 when RateLimiter is not set and QPS is set to greater than 0''"

definition NewForConfigAndClient :: "client_go \<Rightarrow> rest_config \<Rightarrow> string + rest_config" where
  "NewForConfigAndClient K c =
     (let needs = (\<not> rgHasRateLimiter c \<and> rgPositiveQPS c) in
      if needs \<and> rgBurst c \<le> 0 then Inl burst_error
      else
        (let config = (if needs then c\<lparr>rgHasRateLimiter := True\<rparr> else c) in
         (case typed_NewForConfigAndClient K config of
            Inl err \<Rightarrow> Inl err
          | Inr typed \<Rightarrow>
              (case cgDiscovery K config of Some err \<Rightarrow> Inl err | None \<Rightarrow> Inr typed))))"

definition NewForConfig :: "client_go \<Rightarrow> rest_config \<Rightarrow> string + rest_config" where
  "NewForConfig K c =
     (let config = (if rgUserAgent c = [] then c\<lparr>rgUserAgent := cgUserAgent K\<rparr> else c) in
      (case cgHTTPClient K config of
         Some err \<Rightarrow> Inl err
       | None \<Rightarrow> NewForConfigAndClient K config))"

definition NewForConfigOrDie :: "client_go \<Rightarrow> rest_config \<Rightarrow> rest_config outcome" where
  "NewForConfigOrDie K c = (case NewForConfig K c of Inl err \<Rightarrow> Panic | Inr cs \<Rightarrow> Ok cs)"

definition typed_NewForConfigOrDie :: "client_go \<Rightarrow> rest_config \<Rightarrow> rest_config outcome" where
  "typed_NewForConfigOrDie K c =
     (case typed_NewForConfig K c of Inl err \<Rightarrow> Panic | Inr typed \<Rightarrow> Ok typed)"

text \<open>Clients made of a REST client, which may be nil, and their accessors, called on a pointer.\<close>

record 'r ReststrategyV1alpha1Client =
  restClient :: "'r option"

definition typed_New :: "'r option \<Rightarrow> 'r ReststrategyV1alpha1Client" where
  "typed_New c = \<lparr>restClient = c\<rparr>"

definition RESTClient :: "'r ReststrategyV1alpha1Client option \<Rightarrow> 'r option" where
  "RESTClient c = (case c of None \<Rightarrow> None | Some typed \<Rightarrow> restClient typed)"

record ('r, 'd) Clientset =
  csDiscoveryClient :: 'd
  csReststrategy :: "'r ReststrategyV1alpha1Client"

definition clientset_New :: "('r option \<Rightarrow> 'd) \<Rightarrow> 'r option \<Rightarrow> ('r, 'd) Clientset" where
  "clientset_New newDiscovery c = \<lparr>csDiscoveryClient = newDiscovery c, csReststrategy = typed_New c\<rparr>"

definition ReststrategyV1alpha1 ::
  "('r, 'd) Clientset option \<Rightarrow> 'r ReststrategyV1alpha1Client outcome" where
  "ReststrategyV1alpha1 c = (case c of None \<Rightarrow> Panic | Some cs \<Rightarrow> Ok (csReststrategy cs))"

definition Discovery :: "('r, 'd) Clientset option \<Rightarrow> 'd option" where
  "Discovery c = (case c of None \<Rightarrow> None | Some cs \<Rightarrow> Some (csDiscoveryClient cs))"

section \<open>The lister\<close>

text \<open>The index, and the text of the error \<^verbatim>\<open>NewNotFound\<close> makes for a name.\<close>

record 'w indexer =
  ixGetByKey :: "'w \<Rightarrow> string \<Rightarrow> string + RestStrategy option"
  ixListAll :: "'w \<Rightarrow> string \<Rightarrow> RestStrategy list \<times> string option"
  ixNotFound :: "string \<Rightarrow> string"
  ixListAllByNamespace :: "'w \<Rightarrow> string \<Rightarrow> string \<Rightarrow> RestStrategy list \<times> string option"

record 'w restStrategyLister =
  rlIndexer :: "'w indexer"

record 'w restStrategyNamespaceLister =
  nlIndexer :: "'w indexer"
  nlNamespace :: string

definition NewRestStrategyLister :: "'w indexer \<Rightarrow> 'w restStrategyLister" where
  "NewRestStrategyLister ix = \<lparr>rlIndexer = ix\<rparr>"

definition lister_RestStrategies :: "'w restStrategyLister \<Rightarrow> string \<Rightarrow> 'w restStrategyNamespaceLister" where
  "lister_RestStrategies l namespace = \<lparr>nlIndexer = rlIndexer l, nlNamespace = namespace\<rparr>"

definition lister_List :: "'w restStrategyLister \<Rightarrow> 'w \<Rightarrow> string \<Rightarrow> RestStrategy list \<times> string option" where
  "lister_List l w selector =
     (case ixListAll (rlIndexer l) w selector of (ms, err) \<Rightarrow> (fold (\<lambda>m ret. ret @ [m]) ms [], err))"

definition namespaced_List :: "'w restStrategyNamespaceLister \<Rightarrow> 'w \<Rightarrow> string \<Rightarrow> RestStrategy list \<times> string option" where
  "namespaced_List l w selector =
     (case ixListAllByNamespace (nlIndexer l) w (nlNamespace l) selector of (ms, err) \<Rightarrow> (fold (\<lambda>m ret. ret @ [m]) ms [], err))"

definition namespaced_Get :: "'w restStrategyNamespaceLister \<Rightarrow> 'w \<Rightarrow> string \<Rightarrow> lister_error + RestStrategy" where
  "namespaced_Get l w name =
     (case ixGetByKey (nlIndexer l) w (nlNamespace l @ ''/'' @ name) of
        Inl err \<Rightarrow> Inl (OtherError err)
      | Inr None \<Rightarrow> Inl (NotFound (ixNotFound (nlIndexer l) name))
      | Inr (Some obj) \<Rightarrow> Inr obj)"

text \<open>What the controller asks its lister: \<^verbatim>\<open>RestStrategies(namespace).Get(name)\<close>.\<close>

definition lister_Get :: "'w indexer \<Rightarrow> 'w \<Rightarrow> string \<Rightarrow> string \<Rightarrow> lister_error + RestStrategy" where
  "lister_Get ix w namespace name =
     namespaced_Get (lister_RestStrategies (NewRestStrategyLister ix) namespace) w name"

lemma lister_Get_eq:
  "lister_Get ix w namespace name =
     (case ixGetByKey ix w (namespace @ ''/'' @ name) of
        Inl err \<Rightarrow> Inl (OtherError err)
      | Inr None \<Rightarrow> Inl (NotFound (ixNotFound ix name))
      | Inr (Some obj) \<Rightarrow> Inr obj)"
  by (simp add: lister_Get_def namespaced_Get_def lister_RestStrategies_def NewRestStrategyLister_def
      split: sum.split option.split)

lemma collected [simp]: "fold (\<lambda>m ret. ret @ [m]) ms acc = acc @ ms"
  by (induction ms arbitrary: acc) simp_all

section \<open>Properties\<close>

text \<open>Both clients, as one says what is asked of the API server: verb, object and subresource.\<close>

fun action_asks :: "'p fake_action \<Rightarrow> string \<times> string \<times> string option \<times> string list" where
  "action_asks (GetAction ns n) = (''GET'', ns, Some n, [])"
| "action_asks (ListAction ns opts) = (''GET'', ns, None, [])"
| "action_asks (WatchAction ns opts) = (''GET'', ns, None, [])"
| "action_asks (CreateAction ns rs) = (''POST'', ns, None, [])"
| "action_asks (UpdateAction ns rs) = (''PUT'', ns, Some (rsName rs), [])"
| "action_asks (UpdateSubresourceAction sub ns rs) = (''PUT'', ns, Some (rsName rs), [sub])"
| "action_asks (DeleteAction ns n opts) = (''DELETE'', ns, Some n, [])"
| "action_asks (DeleteCollectionAction ns opts) = (''DELETE'', ns, None, [])"
| "action_asks (PatchSubresourceAction ns n data subs) = (''PATCH'', ns, Some n, subs)"

definition request_asks :: "'p kube_request \<Rightarrow> string \<times> string \<times> string option \<times> string list" where
  "request_asks r = (krVerb r, krNamespace r, krName r, krSubResource r)"

lemmas client_defs = client_Get_def client_List_def client_Watch_def client_Create_def client_Update_def
  client_UpdateStatus_def client_Delete_def client_DeleteCollection_def client_Patch_def request_def
  newRestStrategies_def

text \<open>
  The fake asks what the client asks: told to hand back the action itself, every method of
  the fake names the verb, the object and the subresource of the client's request.
\<close>

definition record_action :: "('p, 'p fake_action) invokes" where
  "record_action a = (Some a, None)"

definition same_call :: "'p fake_action option \<times> string option \<Rightarrow> 'p kube_request \<Rightarrow> bool" where
  "same_call answer r \<longleftrightarrow> (\<exists>a. answer = (Some a, None) \<and> action_asks a = request_asks r)"

lemmas fake_defs = fake_Get_def fake_Watch_def fake_Create_def fake_Update_def fake_UpdateStatus_def
  fake_Patch_def fake_result_def record_action_def same_call_def request_asks_def

lemma fake_asks:
  "same_call (fake_Get record_action ns n opts) (client_Get (newRestStrategies ns) n opts)"
  "same_call (fake_Watch record_action ns lo) (client_Watch (newRestStrategies ns) lo)"
  "same_call (fake_Create record_action ns rs opts) (client_Create (newRestStrategies ns) rs opts)"
  "same_call (fake_Update record_action ns rs opts) (client_Update (newRestStrategies ns) rs opts)"
  "same_call (fake_UpdateStatus record_action ns rs opts) (client_UpdateStatus (newRestStrategies ns) rs opts)"
  "same_call (fake_Patch record_action ns n data opts subs) (client_Patch (newRestStrategies ns) n data opts subs)"
  by (simp_all add: fake_defs client_defs)

lemma NewForConfig_defaults:
  assumes "NewForConfig K c = Inr typed"
  shows "rgAPIPath typed = ''/apis'' \<and> rgGroupVersion typed = SchemeGroupVersion \<and>
    rgUserAgent typed = (if rgUserAgent c = [] then cgUserAgent K else rgUserAgent c) \<and>
    (rgPositiveQPS c \<longrightarrow> rgHasRateLimiter typed)"
  using assms
  by (auto simp: NewForConfig_def NewForConfigAndClient_def typed_NewForConfigAndClient_def
      setConfigDefaults_def Let_def split: option.splits sum.splits if_splits)

text \<open>What client-go documents of the index: a lookup by key reports no error.\<close>

definition documented_index :: "'w indexer \<Rightarrow> bool" where
  "documented_index ix \<longleftrightarrow> (\<forall>w k. \<exists>obj. ixGetByKey ix w k = Inr obj)"

text \<open>
  C18: Over the informer's index the controller retries nothing.  A sync returns no error, so
  that no item is ever put back with a delay: a resource whose run failed, or whose secrets
  could not be replaced, waits for its next change or resync.
\<close>

theorem nothing_is_retried:
  assumes "clGet C = lister_Get ix" "documented_index ix"
  shows "snd (syncHandler C key s) \<noteq> Fail e \<and>
    cQueue (fst (process_item C (Key key) s)) = cQueue s @
      (if snd (syncHandler C key s) = Panic then [] else [Forget (Key key)])"
proof -
  have no: "snd (syncHandler C key s) \<noteq> Fail e" for e
  proof
    assume "snd (syncHandler C key s) = Fail e"
    then have "\<exists>e. snd (syncHandler C key s) = Fail e" by (rule exI)
    from iffD1 [OF retry_only_lister this] obtain namespace name t where
      "lister_Get ix (nWorld (cNet s)) namespace name = Inl (OtherError t)"
      by (auto simp: assms(1))
    then show False
      using assms(2) by (auto simp: lister_Get_eq documented_index_def split: sum.splits option.splits)
        (metis Inl_Inr_False)
  qed
  have "cQueue (fst (syncHandler C key s)) = cQueue s" by (rule syncHandler_queue)
  then show ?thesis
    using no by (cases "syncHandler C key s"; cases "snd (syncHandler C key s)")
      (auto simp: process_item_def)
qed

end
