(* ===== verification/Signals.thy ===== *)
theory Signals
  imports Diagnostic
begin

text \<open>
  \<^verbatim>\<open>controller/pkg/signals/signal.go\<close>: the first shutdown signal closes the stop channel, the
  second ends the process.  \<^verbatim>\<open>signal.Notify\<close> does not block: a signal that finds the channel,
  of capacity 2, full is lost.
\<close>

section \<open>State\<close>

record signal_state =
  onlyOneClosed :: bool
  chanSignals :: nat
  received :: nat
  stopClosed :: bool
  exitedWith :: "int option"

definition signals_init :: signal_state where
  "signals_init = \<lparr>onlyOneClosed = False, chanSignals = 0, received = 0, stopClosed = False,
     exitedWith = None\<rparr>"

text \<open>Closing a closed channel panics.\<close>

definition SetupSignalHandler :: "signal_state \<Rightarrow> signal_state outcome" where
  "SetupSignalHandler s = (if onlyOneClosed s then Panic else Ok (s\<lparr>onlyOneClosed := True\<rparr>))"

definition notify :: "signal_state \<Rightarrow> signal_state" where
  "notify s = (if chanSignals s < 2 then s\<lparr>chanSignals := chanSignals s + 1\<rparr> else s)"

text \<open>One receive of the goroutine; \<open>received\<close> is where it stands.\<close>

definition handler_step :: "signal_state \<Rightarrow> signal_state" where
  "handler_step s =
     (if received s = 0 then s\<lparr>chanSignals := chanSignals s - 1, received := 1, stopClosed := True\<rparr>
      else s\<lparr>chanSignals := chanSignals s - 1, received := 2, exitedWith := Some 1\<rparr>)"

definition handler_ready :: "signal_state \<Rightarrow> bool" where
  "handler_ready s \<longleftrightarrow> 0 < chanSignals s \<and> received s < 2"

text \<open>The states after \<open>n\<close> signals, the goroutine running at any time in between.\<close>

inductive after_signals :: "nat \<Rightarrow> signal_state \<Rightarrow> bool" where
  as_setup: "SetupSignalHandler signals_init = Ok s \<Longrightarrow> after_signals 0 s"
| as_notify: "after_signals n s \<Longrightarrow> exitedWith s = None \<Longrightarrow> after_signals (n + 1) (notify s)"
| as_receive: "after_signals n s \<Longrightarrow> handler_ready s \<Longrightarrow> after_signals n (handler_step s)"

definition signals_inv :: "nat \<Rightarrow> signal_state \<Rightarrow> bool" where
  "signals_inv n s \<longleftrightarrow>
     received s \<le> 2 \<and> (stopClosed s \<longleftrightarrow> 1 \<le> received s) \<and>
     exitedWith s = (if received s = 2 then Some 1 else None) \<and>
     min 2 n \<le> received s + chanSignals s \<and> received s + chanSignals s \<le> n"

lemma after_signals_inv: "after_signals n s \<Longrightarrow> signals_inv n s"
proof (induction rule: after_signals.induct)
  case (as_setup s)
  then show ?case by (auto simp: signals_inv_def SetupSignalHandler_def signals_init_def)
next
  case (as_notify n s)
  then show ?case by (auto simp: signals_inv_def notify_def)
next
  case (as_receive n s)
  then show ?case by (auto simp: signals_inv_def handler_ready_def handler_step_def)
qed

text \<open>
  No shutdown signal is lost.  The stop channel is closed only after a signal and the
  process is ended, with status 1, only after two; and once the handler has nothing left to
  do, the first signal has closed the channel and the second has ended the process.
\<close>

theorem signals_graceful:
  assumes "after_signals n s"
  shows "(stopClosed s \<longrightarrow> 1 \<le> n) \<and> (exitedWith s \<noteq> None \<longrightarrow> exitedWith s = Some 1 \<and> 2 \<le> n) \<and>
    (\<not> handler_ready s \<longrightarrow> (stopClosed s \<longleftrightarrow> 1 \<le> n) \<and> (exitedWith s = Some 1 \<longleftrightarrow> 2 \<le> n))"
proof -
  from after_signals_inv [OF assms] show ?thesis
    by (auto simp: signals_inv_def handler_ready_def split: if_splits)
qed

text \<open>The handler always comes to rest: each receive takes a signal from the channel.\<close>

function drain :: "signal_state \<Rightarrow> signal_state" where
  "drain s = (if handler_ready s then drain (handler_step s) else s)"
  by auto

termination
  by (relation "measure chanSignals") (auto simp: handler_ready_def handler_step_def)

declare drain.simps [simp del]

lemma drain_rest: "\<not> handler_ready (drain s)"
  by (induction s rule: drain.induct) (subst drain.simps, simp)

lemma drain_after: "after_signals n s \<Longrightarrow> after_signals n (drain s)"
  by (induction s rule: drain.induct) (subst drain.simps, simp add: as_receive)

text \<open>
  C23: Left to run, the handler terminates, and then two signals have ended the process
  and one has closed the stop channel only.  A second SetupSignalHandler panics.
\<close>

theorem signals_settle:
  assumes "after_signals n s"
  shows "(stopClosed (drain s) \<longleftrightarrow> 1 \<le> n) \<and> (exitedWith (drain s) = Some 1 \<longleftrightarrow> 2 \<le> n) \<and>
    SetupSignalHandler (drain s) = Panic"
proof -
  have "onlyOneClosed t" if "after_signals m t" for m t
    using that by (induction rule: after_signals.induct)
      (auto simp: SetupSignalHandler_def notify_def handler_step_def split: if_splits)
  with drain_after [OF assms] have "SetupSignalHandler (drain s) = Panic"
    by (auto simp: SetupSignalHandler_def)
  moreover from after_signals_inv [OF drain_after [OF assms]] drain_rest [of s]
  have "(stopClosed (drain s) \<longleftrightarrow> 1 \<le> n) \<and> (exitedWith (drain s) = Some 1 \<longleftrightarrow> 2 \<le> n)"
    by (auto simp: signals_inv_def handler_ready_def split: if_splits)
  ultimately show ?thesis by blast
qed

definition one_signal :: signal_state where
  "one_signal = notify (signals_init\<lparr>onlyOneClosed := True\<rparr>)"

lemma one_signal_after: "after_signals 1 one_signal"
proof -
  have "after_signals 0 (signals_init\<lparr>onlyOneClosed := True\<rparr>)"
    by (rule as_setup) (simp add: SetupSignalHandler_def signals_init_def)
  then have "after_signals (0 + 1) (notify (signals_init\<lparr>onlyOneClosed := True\<rparr>))"
    by (rule as_notify) (simp add: signals_init_def)
  then show ?thesis by (simp add: one_signal_def)
qed

lemma signals_settle_witness: "stopClosed (drain one_signal) \<and> exitedWith (drain one_signal) \<noteq> Some 1"
  using signals_settle [OF one_signal_after] by simp

end
