(* ===== verification/Entry.thy ===== *)
theory Entry
  imports Clientset Signals
begin

text \<open>
  How the controller starts: \<^verbatim>\<open>controller/internal/k8s/k8s.go\<close>, \<^verbatim>\<open>NewController\<close> and
  \<^verbatim>\<open>Controller.Run\<close> of controller.go, and \<^verbatim>\<open>controller/cmd/controller/run.go\<close>.  The kubeconfig
  loader and the constructor of the Kubernetes clientset are parameters, and so are those of
  client-go that the generated clientset is made with; the caches of the informers that run
  either sync or they do not.  What \<^verbatim>\<open>Run\<close> does is a list of steps.
\<close>

section \<open>The namespace\<close>

definition GetNamespace :: "environ \<Rightarrow> string \<Rightarrow> string" where
  "GetNamespace e namespace =
     (let ns = (if length namespace > 0 then namespace else []) in
      if length ns < 1 then (case e ''POD_NAMESPACE'' of Some podNamespace \<Rightarrow> podNamespace | None \<Rightarrow> ns)
      else ns)"

lemma GetNamespace_eq:
  "GetNamespace e ns = (if ns \<noteq> [] then ns else case e ''POD_NAMESPACE'' of None \<Rightarrow> [] | Some p \<Rightarrow> p)"
  by (cases ns) (simp_all add: GetNamespace_def)

definition no_namespace :: string where
  "no_namespace = ''either --namespace arg must be provided or POD_NAMESPACE env variable must be present''"

text \<open>Durations in nanoseconds.\<close>

definition InitialiseSharedInformerFactory ::
  "environ \<Rightarrow> string \<Rightarrow> int \<Rightarrow> string + sharedInformerFactory" where
  "InitialiseSharedInformerFactory e namespace resyncCustom =
     (if GetNamespace e namespace \<noteq> []
      then Inr (NewSharedInformerFactoryWithOptions (1000000000 * resyncCustom) [WithNamespace namespace])
      else Inl no_namespace)"

section \<open>The controller\<close>

text \<open>
  \<^verbatim>\<open>NewController\<close> asks the factory for the informer three times: for its lister, for
  \<^verbatim>\<open>HasSynced\<close> and to add the handlers, which are those of \<open>Controller\<close>.  The queue and the
  event recorder are kept by their names, the configuration manager by its token separator.
\<close>

record controller_config =
  ncInformer :: informer
  ncLister :: informer
  ncHandlersOn :: informer
  ncResync :: int
  ncQueueName :: string
  ncComponent :: string
  ncTokenSeparator :: string

definition controllerAgentName :: string where "controllerAgentName = ''reststrategycontroller''"
definition kindCrdName :: string where "kindCrdName = ''RestStrategies''"

definition NewController ::
  "restStrategyInformer \<Rightarrow> int \<Rightarrow> sharedInformerFactory \<Rightarrow> sharedInformerFactory \<times> controller_config" where
  "NewController ri hours f0 =
     (case Lister ri f0 of (f1, lister) \<Rightarrow>
      case Informer ri f1 of (f2, synced) \<Rightarrow>
      case Informer ri f2 of (f3, handlers) \<Rightarrow>
        (f3, \<lparr>ncInformer = synced, ncLister = lister, ncHandlersOn = handlers, ncResync = hours,
              ncQueueName = kindCrdName, ncComponent = controllerAgentName, ncTokenSeparator = ''://''\<rparr>))"

datatype run_step = StartWorker | AwaitStop | QueueShutDown

text \<open>The deferred \<^verbatim>\<open>ShutDown\<close> ends every run; the stop channel is waited for in between.\<close>

definition Controller_Run :: "bool \<Rightarrow> int \<Rightarrow> run_step list \<times> unit outcome" where
  "Controller_Run synced workers =
     (if \<not> synced then ([QueueShutDown], Fail (Plain ''failed to wait for caches to sync''))
      else (replicate (nat workers) StartWorker @ [AwaitStop, QueueShutDown], Ok ()))"

section \<open>Run\<close>

record k8s_Config =
  MasterURL :: string
  Kubeconfig :: string
  ControllerCount :: int
  Rsyncperiod :: int
  cfgNamespace :: string
  LogLevel :: string

record kube_client =
  kcBuildConfig :: "string \<Rightarrow> string \<Rightarrow> string + rest_config"
  kcKubernetes :: "rest_config \<Rightarrow> string option"
  kcClientGo :: client_go

datatype 'a process = Exits int string | Returns 'a

definition RunWithConfig ::
  "(informer list \<Rightarrow> informer \<Rightarrow> bool) \<Rightarrow> environ \<Rightarrow> k8s_Config
   \<Rightarrow> (sharedInformerFactory \<times> controller_config \<times> run_step list \<times> unit outcome) process" where
  "RunWithConfig cacheSynced e config =
     (case InitialiseSharedInformerFactory e (cfgNamespace config) 60 of
        Inl err \<Rightarrow> Exits 1 (''error building reststrategyInformerFactory: '' @ err)
      | Inr f0 \<Rightarrow>
          (case NewController (RestStrategies f0) (Rsyncperiod config) f0 of (f1, c) \<Rightarrow>
             let f2 = Start f1 in
             Returns (f2, c, Controller_Run (cacheSynced (map snd (running f2)) (ncInformer c))
                (ControllerCount config))))"

definition k8s_Run ::
  "kube_client \<Rightarrow> (informer list \<Rightarrow> informer \<Rightarrow> bool) \<Rightarrow> environ \<Rightarrow> k8s_Config
   \<Rightarrow> (sharedInformerFactory \<times> controller_config \<times> run_step list \<times> unit outcome) process" where
  "k8s_Run K cacheSynced e config =
     (case kcBuildConfig K (MasterURL config) (Kubeconfig config) of
        Inl err \<Rightarrow> Exits 1 (''error building kubeconfig: '' @ err)
      | Inr cfg \<Rightarrow>
          (case kcKubernetes K cfg of
             Some err \<Rightarrow> Exits 1 (''error building kubernetes clientset: '' @ err)
           | None \<Rightarrow>
               (case NewForConfig (kcClientGo K) cfg of
                  Inl err \<Rightarrow> Exits 1 (''error building clientset: '' @ err)
                | Inr customClient \<Rightarrow> RunWithConfig cacheSynced e config)))"

section \<open>The command\<close>

record controller_flags =
  fgKubeconfig :: string
  fgMaster :: string
  fgControllerCount :: int
  fgNamespace :: string
  fgLoglevel :: string
  fgRsync :: int

definition controller_defaults :: controller_flags where
  "controller_defaults = \<lparr>fgKubeconfig = [], fgMaster = [], fgControllerCount = 2, fgNamespace = [],
     fgLoglevel = ''error'', fgRsync = 12\<rparr>"

text \<open>Only the first \<^verbatim>\<open>SetupSignalHandler\<close> of a process returns.\<close>

definition controllerRun ::
  "kube_client \<Rightarrow> (informer list \<Rightarrow> informer \<Rightarrow> bool) \<Rightarrow> environ \<Rightarrow> controller_flags \<Rightarrow> signal_state
   \<Rightarrow> (sharedInformerFactory \<times> controller_config \<times> run_step list \<times> unit outcome) process outcome" where
  "controllerRun K cacheSynced e fl sg =
     map_ok (\<lambda>sg'. k8s_Run K cacheSynced e
         \<lparr>MasterURL = fgMaster fl, Kubeconfig = fgKubeconfig fl, ControllerCount = fgControllerCount fl,
          Rsyncperiod = fgRsync fl, cfgNamespace = fgNamespace fl, LogLevel = fgLoglevel fl\<rparr>)
       (SetupSignalHandler sg)"

text \<open>The exit status of the process (\<^verbatim>\<open>Execute\<close>), once it ends.\<close>

fun controller_exit ::
  "(sharedInformerFactory \<times> controller_config \<times> run_step list \<times> unit outcome) process outcome \<Rightarrow> int" where
  "controller_exit (Ok (Exits n t)) = n"
| "controller_exit (Ok (Returns (f, c, steps, Ok u))) = 0"
| "controller_exit (Ok (Returns (f, c, steps, Fail err))) = 1"
| "controller_exit (Ok (Returns (f, c, steps, Panic))) = 2"
| "controller_exit (Fail err) = 1"
| "controller_exit Panic = 2"

text \<open>The other commands print and end the process: the text and the status.\<close>

definition versionCmd :: "string \<Rightarrow> string \<Rightarrow> string \<times> int" where
  "versionCmd version revision =
     (''Version: '' @ version @ newline @ ''Revision: '' @ revision @ newline, 0)"

definition healthCmd :: "string \<times> int" where
  "healthCmd = (''HealthCheckRequestd'', 0)"

section \<open>Properties\<close>

text \<open>The informer the controller works with, and the factory once it is started.\<close>

definition watched :: "string \<Rightarrow> informer" where
  "watched ns = \<lparr>infNamespace = ns, infResync = 60000000000, infTweak = None\<rparr>"

lemma RunWithConfig_started:
  assumes "InitialiseSharedInformerFactory e ns 60 = Inr f0"
  shows "\<exists>f1 c. NewController (RestStrategies f0) hours f0 = (f1, c) \<and>
    c = \<lparr>ncInformer = watched ns, ncLister = watched ns, ncHandlersOn = watched ns, ncResync = hours,
          ncQueueName = kindCrdName, ncComponent = controllerAgentName, ncTokenSeparator = ''://''\<rparr> \<and>
    running (Start f1) = [(rest_strategy_type, watched ns)] \<and>
    informers (Start f1) = [(rest_strategy_type, watched ns)] \<and> waitGroup (Start f1) = 1"
  using assms
  by (auto simp: InitialiseSharedInformerFactory_def NewController_def Lister_def Informer_def InformerFor_def Let_def
      NewSharedInformerFactoryWithOptions_def WithNamespace_def RestStrategies_eq defaultInformer_def
      NewFilteredRestStrategyInformer_def Start_def start_one_def is_started_def watched_def
      split: if_splits)

text \<open>
  C22: The controller starts only with a namespace, from the flag or from POD_NAMESPACE, and
  exits with status 1 otherwise.  Started, exactly one informer runs, the one its lister reads
  and its handlers hang on; but the informer is bound to the flag: with the flag empty and
  POD_NAMESPACE set it watches the namespace written as the empty string, which is all of them.
\<close>

theorem controller_namespace:
  "case RunWithConfig cacheSynced e config of
     Exits n t \<Rightarrow> n = 1 \<and> GetNamespace e (cfgNamespace config) = []
   | Returns (f, c, steps, out) \<Rightarrow>
       GetNamespace e (cfgNamespace config) \<noteq> [] \<and>
       running f = [(rest_strategy_type, watched (cfgNamespace config))] \<and>
       ncInformer c = watched (cfgNamespace config) \<and> ncLister c = ncInformer c \<and>
       ncHandlersOn c = ncInformer c \<and>
       (steps, out) = Controller_Run (cacheSynced [ncInformer c] (ncInformer c)) (ControllerCount config)"
proof (cases "InitialiseSharedInformerFactory e (cfgNamespace config) 60")
  case (Inl err)
  then show ?thesis
    by (auto simp: RunWithConfig_def InitialiseSharedInformerFactory_def split: if_splits)
next
  case (Inr f0)
  from RunWithConfig_started [OF this, of "Rsyncperiod config"] Inr show ?thesis
    by (auto simp: RunWithConfig_def InitialiseSharedInformerFactory_def Let_def
        split: if_splits prod.split)
qed

lemma count_list_workers [simp]: "count_list (replicate n StartWorker) StartWorker = n"
  by (induction n) auto

text \<open>
  The queue is shut down exactly once, as the last step of every run, and no worker is
  started before the caches are synced; as many workers start as were asked for, none for
  a count of zero or less.
\<close>

theorem Controller_Run_steps:
  "\<exists>before. fst (Controller_Run synced workers) = before @ [QueueShutDown] \<and>
     QueueShutDown \<notin> set before \<and>
     count_list before StartWorker = (if synced then nat workers else 0) \<and>
     (snd (Controller_Run synced workers) = Ok () \<longleftrightarrow> synced)"
proof (cases synced)
  case True
  then show ?thesis
    by (intro exI [of _ "replicate (nat workers) StartWorker @ [AwaitStop]"])
      (auto simp: Controller_Run_def)
qed (simp add: Controller_Run_def)

text \<open>
  The process of the controller exits with status 0 only where the cluster's
  configuration loads, both clientsets are built, a namespace is given and the caches sync;
  the controller then has the resync period and the number of workers of the flags.
\<close>

theorem controller_exit_ok:
  assumes "controllerRun K cacheSynced e fl sg = p" "controller_exit p = 0"
  shows "\<exists>cfg f c steps. kcBuildConfig K (fgMaster fl) (fgKubeconfig fl) = Inr cfg \<and>
    kcKubernetes K cfg = None \<and> (\<exists>typed. NewForConfig (kcClientGo K) cfg = Inr typed) \<and>
    GetNamespace e (fgNamespace fl) \<noteq> [] \<and> p = Ok (Returns (f, c, steps, Ok ())) \<and>
    cacheSynced [watched (fgNamespace fl)] (watched (fgNamespace fl)) \<and>
    ncResync c = fgRsync fl \<and> count_list steps StartWorker = nat (fgControllerCount fl)"
proof -
  let ?cfg = "\<lparr>MasterURL = fgMaster fl, Kubeconfig = fgKubeconfig fl, ControllerCount = fgControllerCount fl,
      Rsyncperiod = fgRsync fl, cfgNamespace = fgNamespace fl, LogLevel = fgLoglevel fl\<rparr>"
  from assms obtain f c steps u where p: "p = Ok (Returns (f, c, steps, Ok u))"
    "k8s_Run K cacheSynced e ?cfg = Returns (f, c, steps, Ok u)"
    by (cases p rule: controller_exit.cases)
      (auto simp: controllerRun_def SetupSignalHandler_def k8s_Run_def RunWithConfig_def Let_def
        split: if_splits sum.splits option.splits prod.splits)
  then obtain cfg typed where k: "kcBuildConfig K (fgMaster fl) (fgKubeconfig fl) = Inr cfg"
    "kcKubernetes K cfg = None" "NewForConfig (kcClientGo K) cfg = Inr typed"
    and r: "RunWithConfig cacheSynced e ?cfg = Returns (f, c, steps, Ok u)"
    by (auto simp: k8s_Run_def split: sum.splits option.splits)
  then obtain f0 where f0: "InitialiseSharedInformerFactory e (fgNamespace fl) 60 = Inr f0"
    by (auto simp: RunWithConfig_def split: sum.splits)
  from RunWithConfig_started [OF f0, of "fgRsync fl"] r f0 show ?thesis
    using k p(1) by (auto simp: RunWithConfig_def InitialiseSharedInformerFactory_def Let_def
        Controller_Run_def count_list_workers split: if_splits)
qed

text \<open>
  A configuration that asks for a rate but gives no burst stops the process before any
  informer is made, with the error of the generated clientset.
\<close>

theorem burst_stops_start:
  assumes "kcBuildConfig K (MasterURL config) (Kubeconfig config) = Inr cfg" "kcKubernetes K cfg = None"
    "cgHTTPClient (kcClientGo K) (cfg\<lparr>rgUserAgent :=
       (if rgUserAgent cfg = [] then cgUserAgent (kcClientGo K) else rgUserAgent cfg)\<rparr>) = None"
    "\<not> rgHasRateLimiter cfg" "rgPositiveQPS cfg" "rgBurst cfg \<le> 0"
  shows "k8s_Run K cacheSynced e config = Exits 1 (''error building clientset: '' @ burst_error)"
  using assms by (auto simp: k8s_Run_def NewForConfig_def NewForConfigAndClient_def split: if_splits)

end
