(* ===== verification/Workers.thy ===== *)
theory Workers
  imports Behaviours Entry
begin

text \<open>
  The workers of the controller share one process and so one environment, which
  \<^verbatim>\<open>templatePayload\<close> of \<^verbatim>\<open>seeder/rest.go\<close> writes and then reads without a lock.  Here its
  calls run interleaved: each step sets one variable or, when all are set, substitutes.
\<close>

section \<open>Interleaved templating\<close>

record job =
  jVars :: "any gomap"
  jPayload :: string
  jOut :: "string option"

definition new_job :: "string \<Rightarrow> any gomap \<Rightarrow> job" where
  "new_job payload vars = \<lparr>jVars = vars, jPayload = payload, jOut = None\<rparr>"

fun job_step :: "'w ext \<Rightarrow> environ \<times> job \<Rightarrow> environ \<times> job" where
  "job_step X (e, j) =
     (case jVars j of
        (k, v) # vars \<Rightarrow> (Setenv k (sprint v) e, j\<lparr>jVars := vars\<rparr>)
      | [] \<Rightarrow>
          (e, if jOut j = None then j\<lparr>jOut := Some (fst (xEnvsubst X e (jPayload j)))\<rparr> else j))"

text \<open>A schedule says which worker makes the next step.\<close>

fun exec :: "'w ext \<Rightarrow> nat list \<Rightarrow> environ \<times> job list \<Rightarrow> environ \<times> job list" where
  "exec X [] s = s"
| "exec X (i # sched) (e, js) =
     (if i < length js
      then (case job_step X (e, js ! i) of (e', j) \<Rightarrow> exec X sched (e', js[i := j]))
      else exec X sched (e, js))"

text \<open>The engine's answer for a text depends on the variables in a set alone.\<close>

definition reads_only :: "'w ext \<Rightarrow> string \<Rightarrow> string set \<Rightarrow> bool" where
  "reads_only X p R \<longleftrightarrow> (\<forall>e e'. (\<forall>k \<in> R. e k = e' k) \<longrightarrow> xEnvsubst X e p = xEnvsubst X e' p)"

definition job_keys :: "job \<Rightarrow> string set" where
  "job_keys j = fst ` set (jVars j)"

section \<open>One worker\<close>

lemma job_step_keys: "job_keys (snd (job_step X (e, j))) \<subseteq> job_keys j"
  by (auto simp: job_keys_def split: list.split)

lemma job_step_payload [simp]: "jPayload (snd (job_step X (e, j))) = jPayload j"
  by (auto split: list.split)

lemma job_step_view:
  assumes "reads_only X (jPayload j) R" "\<forall>k \<in> R. e k = e' k"
  shows "snd (job_step X (e, j)) = snd (job_step X (e', j)) \<and>
    (\<forall>k \<in> R. fst (job_step X (e, j)) k = fst (job_step X (e', j)) k)"
proof -
  have "xEnvsubst X e (jPayload j) = xEnvsubst X e' (jPayload j)"
    using assms by (simp add: reads_only_def)
  then show ?thesis using assms(2) by (auto simp: Setenv_def split: list.split)
qed

lemma job_step_other:
  "k \<notin> job_keys j \<Longrightarrow> fst (job_step X (e, j)) k = e k"
  by (auto simp: job_keys_def Setenv_def split: list.split)

text \<open>Alone, a worker ends with what \<^verbatim>\<open>templatePayload\<close> returns, and stays there.\<close>

lemma job_alone:
  "length vars < n \<Longrightarrow>
   (job_step X ^^ n) (e, \<lparr>jVars = vars, jPayload = p, jOut = None\<rparr>) =
     (fst (templatePayload X p vars e),
      \<lparr>jVars = [], jPayload = p, jOut = Some (fst (snd (templatePayload X p vars e)))\<rparr>)"
proof (induction vars arbitrary: e n)
  case Nil
  have "(job_step X ^^ m) (e, \<lparr>jVars = [], jPayload = p, jOut = Some t\<rparr>) =
      (e, \<lparr>jVars = [], jPayload = p, jOut = Some t\<rparr>)" for m t
    by (induction m) simp_all
  with Nil show ?case
    by (cases n) (simp_all add: funpow_Suc_right templatePayload_def set_variables_def Let_def del: funpow.simps)
next
  case (Cons kv vars)
  obtain k v where kv: "kv = (k, v)" by force
  from Cons.prems obtain m where "n = Suc m" "length vars < m" by (cases n) auto
  then show ?case
    using Cons.IH [of m "Setenv k (sprint v) e"]
    by (simp add: kv funpow_Suc_right templatePayload_def set_variables_def Let_def del: funpow.simps)
qed

section \<open>Many workers\<close>

lemma exec_length [simp]: "length (snd (exec X sched (e, js))) = length js"
  by (induction sched arbitrary: e js) (auto split: prod.split)

text \<open>
  A worker whose variables no other writes goes through the steps it would make alone, in an
  environment that looks the same to it.
\<close>

lemma exec_view:
  assumes "i < length js" "reads_only X (jPayload (js ! i)) R" "\<forall>k \<in> R. e k = e' k"
    "\<forall>j < length js. j \<noteq> i \<longrightarrow> job_keys (js ! j) \<inter> R = {}"
  shows "snd (exec X sched (e, js)) ! i = snd ((job_step X ^^ count_list sched i) (e', js ! i))"
  using assms
proof (induction sched arbitrary: e e' js)
  case (Cons x sched)
  show ?case
  proof (cases "x < length js")
    case True
    obtain e1 j1 where st: "job_step X (e, js ! x) = (e1, j1)" by force
    let ?js = "js[x := j1]"
    have ks: "job_keys j1 \<subseteq> job_keys (js ! x)" using job_step_keys [of X e "js ! x"] st by simp
    have others: "\<forall>j < length ?js. j \<noteq> i \<longrightarrow> job_keys (?js ! j) \<inter> R = {}"
    proof (intro allI impI)
      fix j assume j: "j < length ?js" "j \<noteq> i"
      with Cons.prems(4) have "job_keys (js ! j) \<inter> R = {}" by simp
      with ks j show "job_keys (?js ! j) \<inter> R = {}" by (cases "j = x") auto
    qed
    show ?thesis
    proof (cases "x = i")
      case True
      obtain e2 j2 where st2: "job_step X (e', js ! i) = (e2, j2)" by force
      from job_step_view [OF Cons.prems(2,3)] st st2 True have "j1 = j2" "\<forall>k \<in> R. e1 k = e2 k" by simp_all
      moreover have "jPayload j1 = jPayload (js ! i)" using job_step_payload [of X e "js ! i"] st True by simp
      ultimately show ?thesis
        using Cons.IH [of ?js e1 e2] Cons.prems others st st2 True
        by (simp add: funpow_Suc_right del: funpow.simps job_step.simps)
    next
      case False
      have "\<forall>k \<in> R. e1 k = e' k"
        using job_step_other [of _ "js ! x" X e] st Cons.prems(3,4) \<open>x < length js\<close> False by fastforce
      with Cons.IH [of ?js e1 e'] Cons.prems others st False \<open>x < length js\<close> show ?thesis
        by (simp del: job_step.simps)
    qed
  next
    case False
    then show ?thesis using Cons.IH [of js e e'] Cons.prems by auto
  qed
qed simp

text \<open>
  C35: Where no other worker sets a variable that a payload reads, every schedule that lets
  its worker finish gives the text that templating it alone would give.
\<close>

theorem disjoint_workers_agree:
  assumes "i < length ps" "ps ! i = (p, vars)" "reads_only X p R"
    "\<forall>j < length ps. j \<noteq> i \<longrightarrow> fst ` set (snd (ps ! j)) \<inter> R = {}"
    "length vars < count_list sched i"
  shows "jOut (snd (exec X sched (e, map (\<lambda>(p, vars). new_job p vars) ps)) ! i) =
    Some (fst (snd (templatePayload X p vars e)))"
proof -
  let ?js = "map (\<lambda>(p, vars). new_job p vars) ps"
  have j: "?js ! i = \<lparr>jVars = vars, jPayload = p, jOut = None\<rparr>" using assms(1,2) by (simp add: new_job_def)
  have "\<forall>j < length ?js. j \<noteq> i \<longrightarrow> job_keys (?js ! j) \<inter> R = {}"
    using assms(4) by (auto simp: job_keys_def new_job_def case_prod_unfold)
  from exec_view [OF _ _ _ this, of X e e sched] assms(1,3) j
  have "snd (exec X sched (e, ?js)) ! i =
      snd ((job_step X ^^ count_list sched i) (e, \<lparr>jVars = vars, jPayload = p, jOut = None\<rparr>))" by simp
  then show ?thesis by (simp add: job_alone [OF assms(5)] del: job_step.simps)
qed

text \<open>
  C36: Where two workers set the same variable, there is a schedule after which the first
  payload was filled with the value of the second worker's action: nothing keeps the
  variables of two resources apart.
\<close>

theorem workers_race:
  assumes "valid_var (k, v1)" "valid_var (k, v2)"
  shows "\<exists>sched. jOut (snd (exec X sched (e, [new_job p1 [(k, v1)], new_job p2 [(k, v2)]])) ! 0) =
      Some (fst (xEnvsubst X (e(k \<mapsto> sprint v2)) p1)) \<and>
    fst (snd (templatePayload X p1 [(k, v1)] e)) = fst (xEnvsubst X (e(k \<mapsto> sprint v1)) p1)"
proof (intro exI conjI)
  have "Setenv k (sprint v1) e = e(k \<mapsto> sprint v1)" for e using Setenv_valid assms(1) by blast
  moreover have "Setenv k (sprint v2) e = e(k \<mapsto> sprint v2)" for e using Setenv_valid assms(2) by blast
  ultimately show "jOut (snd (exec X [0, 1, 0] (e, [new_job p1 [(k, v1)], new_job p2 [(k, v2)]])) ! 0) =
      Some (fst (xEnvsubst X (e(k \<mapsto> sprint v2)) p1))"
    "fst (snd (templatePayload X p1 [(k, v1)] e)) = fst (xEnvsubst X (e(k \<mapsto> sprint v1)) p1)"
    by (simp_all add: new_job_def templatePayload_def set_variables_def Let_def)
qed

end
