(* ===== verification/Sample_Strategies.thy ===== *)
theory Sample_Strategies
  imports Samples Behaviours Workers
begin

text \<open>
  The properties of single strategies and REST operations applied to small cases: an item
  is found, its id does not fit in a URL, a lookup fails on an empty document.
\<close>

section \<open>Strategies\<close>

theorem PutPost_falls_back_witness:
  "\<exists>v es. events (fst (PutPost sample_ext sample_put_post)) = (''PUT'', v) # es \<and>
     (v = Rejected \<longleftrightarrow> es \<noteq> [])"
proof -
  have "snd (PutPost sample_ext sample_put_post) \<noteq> Panic" by code_simp
  from PutPost_falls_back [OF this] obtain v es where
    "events (fst (PutPost sample_ext sample_put_post)) = events sample_put_post @ (''PUT'', v) # es"
    "if v = Rejected then \<exists>w. es = [(''POST'', w)] else es = []" by (auto split: if_splits)
  moreover have "events sample_put_post = []" by code_simp
  ultimately show ?thesis by (cases "v = Rejected") auto
qed

definition finder :: "string \<Rightarrow> string \<Rightarrow> unit conf" where
  "finder st found = sample_conf (server (\<lambda>m. answer 200 found))
     ((sample_action ''a'' st None)\<lparr>FindByJsonPathExpr := ''$.id''\<rparr>)"

theorem FindPost_found_witness:
  "\<exists>c1. FindPost sample_ext (finder FIND_POST ''7'') = (c1, Ok ())"
proof -
  let ?c = "finder FIND_POST ''7''"
  have "snd (get sample_ext (get_filled sample_ext ?c)) = Ok ''7''" by code_simp
  note g = run_pair [OF this]
  have l: "lookup sample_ext (snd ?c) ''7'' = Some ''7''" by code_simp
  have "\<not> PostIsPut (snd ?c)" by code_simp
  from FindPost_found [OF g l _ this] show ?thesis by simp
qed

theorem bad_id_panics_witness:
  "snd (FindPutPost sample_ext (finder FIND_PUT_POST ''100%'')) = Panic"
proof -
  let ?c = "finder FIND_PUT_POST ''100%''"
  have "snd (get sample_ext (get_filled sample_ext ?c)) = Ok ''100%''" by code_simp
  note g = run_pair [OF this]
  have l: "lookup sample_ext (snd ?c) ''100%'' = Some ''100%''" by code_simp
  have "case parse_url (put_url ((snd ?c)\<lparr>foundId := ''100%''\<rparr>)) of Inl e \<Rightarrow> True | Inr u \<Rightarrow> False"
    by code_simp
  then have "\<not> url_ok (put_url ((snd ?c)\<lparr>foundId := ''100%''\<rparr>))"
    by (auto simp: url_ok_def split: sum.splits)
  from bad_id_panics [OF g l _ this] show ?thesis by simp
qed

text \<open>A path engine that, as JSON decoders do, rejects the empty document.\<close>

definition decoding_ext :: "unit ext" where
  "decoding_ext = sample_ext\<lparr>xJSONPath := (\<lambda>doc e. if doc = [] then Inl ''EOF'' else whole_number doc e)\<rparr>"

definition missing :: "unit conf" where
  "missing = sample_conf (server (\<lambda>m. answer 404 ''none''))
     ((sample_action ''a'' FIND_DELETE_POST None)\<lparr>FindByJsonPathExpr := ''$.id''\<rparr>)"

lemma fail_diag:
  "(case snd m of Fail (Diag d) \<Rightarrow> P d | _ \<Rightarrow> False) \<Longrightarrow> \<exists>d. m = (fst m, Fail (Diag d)) \<and> P d"
  by (cases m; cases "snd m") (auto split: go_error.splits)

theorem FindDeletePost_no_fallback_witness:
  "\<exists>c1. FindDeletePost decoding_ext missing = (c1, Fail (Plain ''EOF''))"
proof -
  have "case snd (get decoding_ext (get_filled decoding_ext missing)) of
      Fail (Diag d) \<Rightarrow> dProceedFallback d | _ \<Rightarrow> False" by code_simp
  from fail_diag [OF this] obtain d where
    g: "get decoding_ext (get_filled decoding_ext missing) =
        (fst (get decoding_ext (get_filled decoding_ext missing)), Fail (Diag d))" "dProceedFallback d"
    by blast
  have "FindByJsonPathExpr (snd missing) \<noteq> []" by code_simp
  moreover have "xJSONPath decoding_ext [] (FindByJsonPathExpr (snd missing)) = Inl ''EOF''" by code_simp
  ultimately show ?thesis using FindDeletePost_no_fallback [OF g] by blast
qed

section \<open>REST operations\<close>

definition templated :: "unit conf" where
  "templated = sample_conf broken_server
     ((sample_action ''a'' POST None)\<lparr>Variables := Some [(''k'', AStr ''v'')]\<rparr>)"

theorem templating_leaks_witness:
  "env (fst (fill_template sample_ext ''t'' templated)) ''k'' = Some ''v''"
proof -
  have "is_map (runtimeVars (fst templated))" "is_map [(''k'', AStr ''v'')]"
    by (simp_all add: templated_def sample_conf_def NewSeederImpl_def WithClient_def)
  moreover have "Variables (snd templated) = Some [(''k'', AStr ''v'')]"
    by (simp add: templated_def sample_conf_def WithHeader_def)
  moreover have "map_of (runtimeVars (fst templated)) ''k'' = None \<and> map_of [(''k'', AStr ''v'')] ''k'' = Some (AStr ''v'')"
    by (simp add: templated_def sample_conf_def NewSeederImpl_def WithClient_def)
  moreover have "valid_var (''k'', AStr ''v'')" by code_simp
  ultimately have "env (fst (fill_template sample_ext ''t'' templated)) ''k'' = Some (sprint (AStr ''v''))"
    using templating_leaks [of templated "[(''k'', AStr ''v'')]" "''k''" "AStr ''v''"] by blast
  then show ?thesis by simp
qed

definition basic_entry :: auth where
  "basic_entry = zero_auth\<lparr>authStrategy := Basic, basicCred := Some \<lparr>baUsername = ''u'', baPassword = ''p:q''\<rparr>\<rparr>"

definition basic_rest :: "unit rest" where
  "basic_rest = (NewSeederImpl empty_net no_env)\<lparr>auth_map := Some [(''b'', basic_entry)]\<rparr>"

theorem basic_auth_roundtrip_witness:
  "\<exists>a' h' t. setAuthHeader sample_ext (basic_rest, WithHeader (sample_action ''a'' POST None)) =
       ((basic_rest, a'), Ok ()) \<and> aHeader a' = Some h' \<and>
     hvalues ''Authorization'' h' = [''Basic '' @ t] \<and> base64_decode t = Some ''u:p:q''"
proof -
  let ?a = "WithHeader (sample_action ''a'' POST None)"
  have "auth_map basic_rest = Some [(''b'', basic_entry)]"
    "map_of [(''b'', basic_entry)] (AuthMapRef ?a) = Some basic_entry"
    "authStrategy basic_entry = Basic" "basicCred basic_entry = Some \<lparr>baUsername = ''u'', baPassword = ''p:q''\<rparr>"
    "aHeader ?a = Some default_header"
    by (simp_all add: basic_rest_def basic_entry_def WithHeader_def sample_action_def zero_action_def)
  from basic_auth_roundtrip [OF this, of sample_ext] show ?thesis by auto
qed

definition some_request :: request where
  "some_request = (case new_request ''POST'' ''/v'' (Some ''{}'') of Inr rq \<Rightarrow> rq)"

theorem send_errors_witness:
  "\<exists>d ans. describes d ans \<and>
     nCalls (net (fst (fst (do_send sample_ext (base_diagnostic some_request (snd templated)) some_request templated)))) =
       [\<lparr>cPurpose = ForAction, cRequest = some_request\<lparr>rqHeader := header_of (snd templated)\<rparr>, cAnswer = ans\<rparr>]"
proof -
  obtain r a where c: "templated = (r, a)" by force
  let ?s = "do_send sample_ext (base_diagnostic some_request (snd templated)) some_request templated"
  have "\<not> is_ok (snd ?s)" "snd ?s \<noteq> Panic" by code_simp+
  from is_fail [OF this] obtain e where "snd ?s = Fail e" by blast
  from run_pair [OF this] have "do_send sample_ext (base_diagnostic some_request a) some_request (r, a) = (fst ?s, Fail e)"
    by (simp add: c)
  from send_errors [OF this] obtain d ans where "describes d ans"
    "nCalls (net (fst (fst ?s))) = nCalls (net r) @
      [\<lparr>cPurpose = ForAction, cRequest = some_request\<lparr>rqHeader := header_of a\<rparr>, cAnswer = ans\<rparr>]" by blast
  moreover have "nCalls (net (fst templated)) = []" by code_simp
  ultimately show ?thesis by (auto simp: c)
qed

theorem runtime_vars_captured_witness:
  "map_of (runtimeVars (fst (findRuntimeVars sample_ext ''5''
     (fst templated, (snd templated)\<lparr>RuntimeVars := Some [(''x'', ''$.x''), (''y'', ''$.y'')]\<rparr>)))) ''y'' = Some (AStr ''5'')"
proof -
  let ?m = "[(''x'', ''$.x''), (''y'', ''$.y'')]"
  let ?c = "(fst templated, (snd templated)\<lparr>RuntimeVars := Some ?m\<rparr>)"
  have "RuntimeVars (snd ?c) = Some ?m" "is_map ?m" by simp_all
  moreover have "same_map ?m ?m" by (simp add: same_map_def)
  ultimately have "map_of (runtimeVars (fst (findRuntimeVars sample_ext ''5'' ?c))) ''y'' =
      (case map_of ?m ''y'' of
         None \<Rightarrow> map_of (runtimeVars (fst ?c)) ''y''
       | Some e \<Rightarrow>
           if fst (FindPathByExpression sample_ext ''5'' e) \<noteq> []
           then Some (AStr (fst (FindPathByExpression sample_ext ''5'' e)))
           else map_of (runtimeVars (fst ?c)) ''y'')"
    by (rule runtime_vars_captured [THEN conjunct1])
  moreover have "fst (FindPathByExpression sample_ext ''5'' ''$.y'') = ''5''" by code_simp
  ultimately show ?thesis by simp
qed

section \<open>Workers\<close>

text \<open>An engine that takes its text for the name of a variable.\<close>

definition naming_ext :: "unit ext" where
  "naming_ext = sample_ext\<lparr>xEnvsubst := (\<lambda>e t. (case e t of None \<Rightarrow> [] | Some v \<Rightarrow> v, None))\<rparr>"

definition two_jobs :: "(string \<times> any gomap) list" where
  "two_jobs = [(''a'', [(''a'', AStr ''1'')]), (''b'', [(''b'', AStr ''2'')])]"

theorem disjoint_workers_agree_witness:
  "jOut (snd (exec naming_ext [0, 1, 1, 0] (no_env, map (\<lambda>(p, vars). new_job p vars) two_jobs)) ! 0) = Some ''1''"
proof -
  have r: "reads_only naming_ext ''a'' {''a''}" by (simp add: reads_only_def naming_ext_def)
  have o': "\<forall>j < length two_jobs. j \<noteq> 0 \<longrightarrow> fst ` set (snd (two_jobs ! j)) \<inter> {''a''} = {}"
    by (simp add: two_jobs_def less_Suc_eq)
  have l: "0 < length two_jobs" and n: "two_jobs ! 0 = (''a'', [(''a'', AStr ''1'')])"
    by (simp_all add: two_jobs_def)
  have c: "length [(''a'', AStr ''1'')] < count_list [0, 1, 1, 0] (0 :: nat)" by simp
  have "fst (snd (templatePayload naming_ext ''a'' [(''a'', AStr ''1'')] no_env)) = ''1''" by code_simp
  with disjoint_workers_agree [OF l n r o' c, of no_env] show ?thesis by simp
qed

theorem workers_race_witness:
  "\<exists>sched. jOut (snd (exec naming_ext sched
     (no_env, [new_job ''k'' [(''k'', AStr ''mine'')], new_job ''k'' [(''k'', AStr ''other'')]])) ! 0) = Some ''other''"
proof -
  have "valid_var (''k'', AStr ''mine'')" "valid_var (''k'', AStr ''other'')" by code_simp+
  from workers_race [OF this, of naming_ext no_env "''k''" "''k''"] show ?thesis
    by (auto simp: naming_ext_def)
qed

end
