(* ===== verification/Cmd.thy ===== *)
theory Cmd
  imports Seeding
begin

text \<open>
  The command line of the seeder: \<^verbatim>\<open>seeder/internal/cmdutils/cmdutils.go\<close>,
  \<^verbatim>\<open>seeder/cmd/strategyrestseeder/runseed.go\<close> and \<^verbatim>\<open>root.go\<close>.  Cobra, the YAML decoder, the
  file system and the configuration manager's settings are parameters.  Cobra documents
  that RunE is not called where PreRunE returns an error.
\<close>

section \<open>RunSeed\<close>

record StrategyConfig =
  AuthConfigs :: AuthMap
  Seeders :: "Action gomap"
  cfgOptions :: Options

text \<open>\<^verbatim>\<open>WithActions(...).WithAuth(...)\<close>, which may follow a nil pointer in the auth map.\<close>

definition with_actions_auth ::
  "Action gomap \<Rightarrow> AuthMap \<Rightarrow> ('w, 'o) StrategyRestSeeder
   \<Rightarrow> ('w, 'o) StrategyRestSeeder \<times> unit outcome" where
  "with_actions_auth acts auths s =
     (case seeder_WithAuth auths (WithActions acts s) of
        Ok s' \<Rightarrow> (s', Ok ())
      | Fail e \<Rightarrow> (WithActions acts s, Fail e)
      | Panic \<Rightarrow> (WithActions acts s, Panic))"

text \<open>\<^verbatim>\<open>fmt.Errorf("%+v", e)\<close> keeps the text of an error and nothing else of it.\<close>

definition reworded :: "'s \<times> unit outcome \<Rightarrow> 's \<times> unit outcome" where
  "reworded res =
     (case res of
        (s, Fail e) \<Rightarrow> (s, Fail (Plain (err_text e)))
      | (s, Ok u) \<Rightarrow> (s, Ok u)
      | (s, Panic) \<Rightarrow> (s, Panic))"

lemma reworded_Ok [simp]: "reworded res = (s, Ok u) \<longleftrightarrow> res = (s, Ok u)"
  by (cases res; cases "snd res") (auto simp: reworded_def)

definition RunSeed ::
  "('w, 'o) lib \<Rightarrow> StrategyConfig \<Rightarrow> ('w, 'o) StrategyRestSeeder
   \<Rightarrow> ('w, 'o) StrategyRestSeeder \<times> unit outcome" where
  "RunSeed L cfg svc =
     andThen (with_actions_auth (Seeders cfg) (AuthConfigs cfg) svc) (\<lambda>s _.
       reworded (Execute L (WithOptions (cfgOptions cfg) s)))"

section \<open>The run command\<close>

record run_flags =
  flPath :: string
  flEnableConfigManager :: bool
  flTokenSeparator :: string
  flKeySeparator :: string

record ('w, 'o) cli =
  cliLib :: "('w, 'o) lib"
  cliReadFile :: "string \<Rightarrow> string + string"
  cliUnmarshal :: "string \<Rightarrow> string + StrategyConfig"
  cliNewConfig :: 'o
  cliWithKeySeparator :: "string \<Rightarrow> 'o \<Rightarrow> 'o"
  cliWithTokenSeparator :: "string \<Rightarrow> 'o \<Rightarrow> 'o"
  cliConfigManager :: "('w, 'o) CMRetrieve"

definition cm_config :: "('w, 'o) cli \<Rightarrow> run_flags \<Rightarrow> 'o" where
  "cm_config C fl =
     (let c1 = (if flKeySeparator fl \<noteq> [] then cliWithKeySeparator C (flKeySeparator fl) (cliNewConfig C)
                else cliNewConfig C) in
      if flTokenSeparator fl \<noteq> [] then cliWithTokenSeparator C (flTokenSeparator fl) c1 else c1)"

text \<open>The seeder the command builds before it reads actions and credentials into it.\<close>

definition cli_seeder ::
  "('w, 'o) cli \<Rightarrow> run_flags \<Rightarrow> 'w net \<Rightarrow> environ \<Rightarrow> ('w, 'o) StrategyRestSeeder" where
  "cli_seeder C fl n e =
     (let s = WithRestClient (xHttpClient (cliLib C)) (New (cliLib C) n e) in
      if flEnableConfigManager fl
      then WithConfigManagerOptions (cm_config C fl) (WithConfigManager (Some (cliConfigManager C)) s)
      else s)"

definition runExecute ::
  "('w, 'o) cli \<Rightarrow> run_flags \<Rightarrow> 'w net \<Rightarrow> environ
   \<Rightarrow> ('w, 'o) StrategyRestSeeder option \<times> unit outcome" where
  "runExecute C fl n e =
     (case cliReadFile C (flPath fl) of
        Inl err \<Rightarrow> (None, Fail (Plain err))
      | Inr doc \<Rightarrow>
          (case cliUnmarshal C doc of
             Inl err \<Rightarrow> (None, Fail (Plain err))
           | Inr cfg \<Rightarrow>
               (case RunSeed (cliLib C) cfg (cli_seeder C fl n e) of (s, out) \<Rightarrow> (Some s, out))))"

definition preRun :: "run_flags \<Rightarrow> unit outcome" where
  "preRun fl = (if length (flPath fl) < 1 then Fail (Plain ''must include input for path'') else Ok ())"

definition run_command ::
  "('w, 'o) cli \<Rightarrow> run_flags \<Rightarrow> 'w net \<Rightarrow> environ
   \<Rightarrow> ('w, 'o) StrategyRestSeeder option \<times> unit outcome" where
  "run_command C fl n e =
     (case preRun fl of
        Ok u \<Rightarrow> runExecute C fl n e
      | Fail err \<Rightarrow> (None, Fail err)
      | Panic \<Rightarrow> (None, Panic))"

text \<open>\<^verbatim>\<open>Execute\<close> of root.go: the exit status; a Go process that panics ends with status 2.\<close>

fun exit_status :: "unit outcome \<Rightarrow> int" where
  "exit_status (Ok u) = 0"
| "exit_status (Fail e) = 1"
| "exit_status Panic = 2"

section \<open>What the command promises\<close>

lemma with_actions_auth_Ok:
  assumes "with_actions_auth acts auths s = (s', Ok u)"
  shows "s' = s\<lparr>actions := actions s @ map (\<lambda>(k, v). WithHeader (WithName k v)) acts,
      authInstructions := auths, rest := rest s'\<rparr> \<and> seeder_events s' = seeder_events s"
proof -
  from assms obtain ac where "s' = (WithActions acts s)\<lparr>authInstructions := auths,
      rest := (rest (WithActions acts s))\<lparr>auth_map := Some ac\<rparr>\<rparr>"
    by (auto simp: with_actions_auth_def split: res.splits dest!: seeder_WithAuth_Ok)
  then show ?thesis
    by (simp add: WithActions_eq seeder_events_def events_def action_calls_def)
qed

lemma RunSeed_Ok:
  assumes "RunSeed L cfg s = (s', Ok u)"
  obtains s1 where "with_actions_auth (Seeders cfg) (AuthConfigs cfg) s = (s1, Ok ())"
    "Execute L (WithOptions (cfgOptions cfg) s1) = (s', Ok ())"
  using assms by (auto simp: RunSeed_def andThen_Ok_iff)

lemma cli_seeder_fields:
  "sStrategy (cli_seeder C fl n e) = strategy_table" "actions (cli_seeder C fl n e) = []"
  "seeder_events (cli_seeder C fl n e) = net_events n"
  by (simp_all add: cli_seeder_def Let_def WithRestClient_def New_def WithClient_def NewSeederImpl_def
      WithConfigManagerOptions_def WithConfigManager_def seeder_events_net)

text \<open>
  C20: The command exits with 0 only where a path was given, the file was read and decoded,
  and every action of it with a known strategy ran in ascending order and succeeded; the
  actions are those of the file, under the names of its keys.
\<close>

theorem cli_success:
  assumes "documented_sort (cliLib C)" "run_command C fl n e = (r, out)" "exit_status out = 0"
  shows "\<exists>doc cfg s as rs. flPath fl \<noteq> [] \<and> cliReadFile C (flPath fl) = Inr doc \<and>
    cliUnmarshal C doc = Inr cfg \<and> r = Some s \<and>
    mset as = mset (map (\<lambda>(k, v). WithHeader (WithName k v)) (Seeders cfg)) \<and>
    sorted (map order_of as) \<and> list_all2 (ran (plan_of (xRest (cliLib C)))) as rs \<and>
    (\<forall>r \<in> set rs. snd r \<noteq> Some False) \<and> seeder_events s = net_events n @ calls_of rs"
proof -
  have out: "out = Ok ()" using assms(3) by (cases out) auto
  with assms(2) obtain doc cfg s where f: "flPath fl \<noteq> []" "cliReadFile C (flPath fl) = Inr doc"
    "cliUnmarshal C doc = Inr cfg" "r = Some s"
    "RunSeed (cliLib C) cfg (cli_seeder C fl n e) = (s, Ok ())"
    by (auto simp: run_command_def preRun_def runExecute_def split: sum.splits prod.splits if_splits)
  obtain s1 where s1: "with_actions_auth (Seeders cfg) (AuthConfigs cfg) (cli_seeder C fl n e) = (s1, Ok ())"
    "Execute (cliLib C) (WithOptions (cfgOptions cfg) s1) = (s, Ok ())"
    by (rule RunSeed_Ok [OF f(5)])
  let ?s = "WithOptions (cfgOptions cfg) s1"
  note k = with_actions_auth_Ok [OF s1(1)]
  have st: "sStrategy s1 = strategy_table" "actions s1 = map (\<lambda>(k, v). WithHeader (WithName k v)) (Seeders cfg)"
    "seeder_events s1 = net_events n"
    using arg_cong [OF conjunct1 [OF k], of sStrategy] arg_cong [OF conjunct1 [OF k], of actions]
      conjunct2 [OF k] by (simp_all add: cli_seeder_fields)
  have "sStrategy ?s = strategy_table" "actions ?s = actions s1" "seeder_events ?s = net_events n"
    using st by (simp_all add: WithOptions_def seeder_events_def)
  with Execute_Ok [OF assms(1) _ s1(2)] st f(1-4) show ?thesis by auto
qed

end
