(* ===== verification/Manager.thy ===== *)
theory Manager
  imports Reconciler Entry
begin

text \<open>
  How the kubebuilder controller starts: \<^verbatim>\<open>kubebuilder-controller/internal/k8s/k8s.go\<close> and
  \<^verbatim>\<open>kubebuilder-controller/cmd/controller/rest.go\<close>.  The methods of controller-runtime are
  parameters, each an error or none; what they are called with is kept in a log.
  \<^verbatim>\<open>ctrl.GetConfigOrDie\<close> may end the process by itself.
\<close>

section \<open>Configuration\<close>

record 'o kb_Config =
  kbMasterURL :: string
  kbKubeconfig :: string
  kbControllerCount :: int
  kbRsyncperiod :: int
  kbNamespaceCfg :: string
  kbLogLevel :: string
  kbProbeAddr :: string
  kbMetricsAddr :: string
  kbEnableLeaderElection :: bool
  kbConfigManager :: "'o option"

definition kb_GetNamespace :: "environ \<Rightarrow> string \<Rightarrow> string" where
  "kb_GetNamespace e namespace =
     (let ns = (if length namespace > 0 then namespace else []) in
      if length ns < 1 then (case e ''POD_NAMESPACE'' of Some podNamespace \<Rightarrow> podNamespace | None \<Rightarrow> ns)
      else ns)"

record manager_options =
  moMetricsBindAddress :: string
  moPort :: int
  moHealthProbeBindAddress :: string
  moLeaderElection :: bool
  moLeaderElectionID :: string
  moNamespace :: string

definition manager_options_of :: "environ \<Rightarrow> 'o kb_Config \<Rightarrow> manager_options" where
  "manager_options_of e conf =
     \<lparr>moMetricsBindAddress = kbMetricsAddr conf, moPort = 9443,
      moHealthProbeBindAddress = kbProbeAddr conf, moLeaderElection = kbEnableLeaderElection conf,
      moLeaderElectionID = ''f1b2a8fa.dnitsch.net'', moNamespace = kb_GetNamespace e (kbNamespaceCfg conf)\<rparr>"

record reconciler_settings =
  rsResyncPeriod :: int
  rsFailedResourceResyncPeriod :: int
  rsConfigManaged :: bool

definition reconciler_settings_of :: "'o kb_Config \<Rightarrow> reconciler_settings" where
  "reconciler_settings_of conf =
     \<lparr>rsResyncPeriod = kbRsyncperiod conf, rsFailedResourceResyncPeriod = 10,
      rsConfigManaged = (kbConfigManager conf \<noteq> None)\<rparr>"

text \<open>
  The reconciler that is set up, over the given client and library; its other fields are
  those of the configuration.
\<close>

definition reconciler_of ::
  "'o kb_Config \<Rightarrow> ('w, 'o) RestStrategyReconciler \<Rightarrow> ('w, 'o) RestStrategyReconciler" where
  "reconciler_of conf R =
     R\<lparr>rcConfigManagerConfig := kbConfigManager conf, rcResyncPeriod := kbRsyncperiod conf\<rparr>"

section \<open>Run\<close>

record runtime_lib =
  rtAddToScheme :: "nat \<Rightarrow> string option"
  rtGetConfig :: "environ \<Rightarrow> string option"
  rtNewManager :: "manager_options \<Rightarrow> string option"
  rtSetup :: "reconciler_settings \<Rightarrow> string option"
  rtAddHealthz :: "string option"
  rtAddReadyz :: "string option"
  rtStart :: "string option"

datatype manager_step =
  NewManager manager_options | SetupWithManager reconciler_settings | AddHealthzCheck
| AddReadyzCheck | StartManager | NotExiting string

text \<open>\<^verbatim>\<open>MsgExit\<close>: what it logs where it returns, None where it ends the process.\<close>

definition MsgExit :: "environ \<Rightarrow> string \<Rightarrow> manager_step option" where
  "MsgExit e area = (case e ''IN_CI_TEST'' of Some v \<Rightarrow> Some (NotExiting area) | None \<Rightarrow> None)"

text \<open>A step of \<^verbatim>\<open>Run\<close> after the manager was made: the call, and \<^verbatim>\<open>MsgExit\<close> on its error.\<close>

definition checked ::
  "environ \<Rightarrow> manager_step \<Rightarrow> string option \<Rightarrow> string \<Rightarrow> manager_step list
   \<Rightarrow> manager_step list \<times> int option" where
  "checked e step err area log =
     (case err of
        None \<Rightarrow> (log @ [step], None)
      | Some t \<Rightarrow>
          (case MsgExit e area of
             Some m \<Rightarrow> (log @ [step, m], None)
           | None \<Rightarrow> (log @ [step], Some 1)))"

definition then_step ::
  "manager_step list \<times> int option \<Rightarrow> (manager_step list \<Rightarrow> manager_step list \<times> int option)
   \<Rightarrow> manager_step list \<times> int option" where
  "then_step r k = (case r of (log, None) \<Rightarrow> k log | (log, Some n) \<Rightarrow> (log, Some n))"

text \<open>
  The log of the calls and the status the process exits with, None where \<^verbatim>\<open>Run\<close> returns.
  \<^verbatim>\<open>utilruntime.Must\<close> panics on an error.
\<close>

definition kb_Run ::
  "runtime_lib \<Rightarrow> environ \<Rightarrow> 'o kb_Config \<Rightarrow> (manager_step list \<times> int option) outcome" where
  "kb_Run M e conf =
     (if rtAddToScheme M 0 \<noteq> None \<or> rtAddToScheme M 1 \<noteq> None then Panic
      else Ok
        (case rtGetConfig M e of
           Some t \<Rightarrow> ([], Some 1)
         | None \<Rightarrow>
             (let opts = manager_options_of e conf; log = [NewManager opts] in
              (case rtNewManager M opts of
                 Some t \<Rightarrow> (log, Some 1)
               | None \<Rightarrow>
                   then_step
                     (then_step
                       (then_step
                         (checked e (SetupWithManager (reconciler_settings_of conf))
                            (rtSetup M (reconciler_settings_of conf)) ''CreateControllerError'' log)
                         (checked e AddHealthzCheck (rtAddHealthz M) ''AddHealthzCheck''))
                       (checked e AddReadyzCheck (rtAddReadyz M) ''AddReadyzCheck''))
                     (checked e StartManager (rtStart M) ''startingManager'')))))"

section \<open>The command\<close>

record kb_flags =
  kfKubeconfig :: string
  kfMaster :: string
  kfNamespace :: string
  kfLoglevel :: string
  kfRsync :: int
  kfMetricsAddr :: string
  kfProbeAddr :: string
  kfLeaderElect :: bool
  kfConfigManager :: bool
  kfKeySeparator :: string
  kfTokenSeparator :: string

definition kb_defaults :: kb_flags where
  "kb_defaults = \<lparr>kfKubeconfig = [], kfMaster = [], kfNamespace = [], kfLoglevel = ''error'', kfRsync = 12,
     kfMetricsAddr = '':8080'', kfProbeAddr = '':8081'', kfLeaderElect = False, kfConfigManager = False,
     kfKeySeparator = ''|'', kfTokenSeparator = ''://''\<rparr>"

definition kb_config_of :: "(string \<Rightarrow> string \<Rightarrow> 'o) \<Rightarrow> kb_flags \<Rightarrow> 'o kb_Config" where
  "kb_config_of newConfig fl =
     \<lparr>kbMasterURL = kfMaster fl, kbKubeconfig = kfKubeconfig fl, kbControllerCount = 0,
      kbRsyncperiod = kfRsync fl, kbNamespaceCfg = kfNamespace fl, kbLogLevel = kfLoglevel fl,
      kbProbeAddr = kfProbeAddr fl, kbMetricsAddr = [], kbEnableLeaderElection = False,
      kbConfigManager =
        (if kfConfigManager fl then Some (newConfig (kfKeySeparator fl) (kfTokenSeparator fl)) else None)\<rparr>"

definition kb_controllerRun ::
  "runtime_lib \<Rightarrow> (string \<Rightarrow> string \<Rightarrow> 'o) \<Rightarrow> environ \<Rightarrow> kb_flags
   \<Rightarrow> environ \<times> (manager_step list \<times> int option) outcome" where
  "kb_controllerRun M newConfig e fl =
     (let e' = (if kfKubeconfig fl \<noteq> [] then Setenv ''KUBECONFIG'' (kfKubeconfig fl) e else e) in
      (e', kb_Run M e' (kb_config_of newConfig fl)))"

text \<open>
  The exit status: cobra reports an error only for the arguments, in which case the command
  does not run; \<^verbatim>\<open>Run\<close> may end the process by itself.
\<close>

definition kb_Execute ::
  "string option \<Rightarrow> (manager_step list \<times> int option) outcome \<Rightarrow> int" where
  "kb_Execute err result =
     (case err of
        Some t \<Rightarrow> 1
      | None \<Rightarrow> (case result of Ok (log, Some n) \<Rightarrow> n | Ok (log, None) \<Rightarrow> 0 | Fail e \<Rightarrow> 2 | Panic \<Rightarrow> 2))"

section \<open>Properties\<close>

text \<open>
  Both controllers read the namespace alike: the flag, else POD_NAMESPACE, else none;
  and the manager, unlike the informer factory of the first controller, is bound to it.
\<close>

theorem namespace_same:
  "kb_GetNamespace e ns = GetNamespace e ns \<and>
   GetNamespace e ns = (if ns \<noteq> [] then ns else case e ''POD_NAMESPACE'' of None \<Rightarrow> [] | Some p \<Rightarrow> p) \<and>
   moNamespace (manager_options_of e conf) = GetNamespace e (kbNamespaceCfg conf)"
  by (simp add: kb_GetNamespace_def GetNamespace_def manager_options_of_def)

lemma checked_then:
  "snd (then_step r (checked e step err area)) =
     (if snd r = None then (if err \<noteq> None \<and> e ''IN_CI_TEST'' = None then Some 1 else None) else snd r)"
  "fst (then_step r (checked e step err area)) =
     fst r @ (if snd r = None
              then step # (if err \<noteq> None \<and> e ''IN_CI_TEST'' \<noteq> None then [NotExiting area] else [])
              else [])"
  by (cases r; auto simp: then_step_def checked_def MsgExit_def split: option.split)+

lemma checked_first: "checked e step err area log = then_step (log, None) (checked e step err area)"
  by (simp add: then_step_def)

text \<open>What the log of a run may hold, and when it reaches the start of the manager.\<close>

definition kb_steps ::
  "runtime_lib \<Rightarrow> environ \<Rightarrow> 'o kb_Config \<Rightarrow> manager_step list \<times> int option" where
  "kb_steps M e conf =
     then_step
       (then_step
         (then_step ([NewManager (manager_options_of e conf)], None)
           (checked e (SetupWithManager (reconciler_settings_of conf))
              (rtSetup M (reconciler_settings_of conf)) ''CreateControllerError''))
         (checked e AddHealthzCheck (rtAddHealthz M) ''AddHealthzCheck''))
       (checked e AddReadyzCheck (rtAddReadyz M) ''AddReadyzCheck'')"

lemma kb_Run_Ok:
  assumes "kb_Run M e conf = Ok (log, ex)"
  shows "log = [] \<or> log = [NewManager (manager_options_of e conf)] \<or>
    rtNewManager M (manager_options_of e conf) = None \<and>
    (log, ex) = then_step (kb_steps M e conf) (checked e StartManager (rtStart M) ''startingManager'')"
  using assms unfolding kb_Run_def Let_def kb_steps_def
  by (subst (asm) checked_first) (simp split: if_splits option.splits)

lemma kb_steps_log:
  "set (fst (kb_steps M e conf)) \<subseteq>
     {NewManager (manager_options_of e conf), SetupWithManager (reconciler_settings_of conf),
      AddHealthzCheck, AddReadyzCheck} \<union> range NotExiting"
  by (auto simp: kb_steps_def checked_then)

lemma kb_steps_exit:
  "snd (kb_steps M e conf) = None \<longleftrightarrow>
     e ''IN_CI_TEST'' \<noteq> None \<or>
     rtSetup M (reconciler_settings_of conf) = None \<and> rtAddHealthz M = None \<and> rtAddReadyz M = None"
  by (auto simp: kb_steps_def checked_then)

lemma kb_Run_log:
  assumes "kb_Run M e conf = Ok (log, ex)"
  shows "set log \<subseteq>
     {NewManager (manager_options_of e conf), SetupWithManager (reconciler_settings_of conf),
      AddHealthzCheck, AddReadyzCheck, StartManager} \<union> range NotExiting"
  using kb_Run_Ok [OF assms] kb_steps_log [of M e conf]
    checked_then(2) [of "kb_steps M e conf" e StartManager "rtStart M" "''startingManager''"]
  by (elim disjE conjE; auto dest!: arg_cong [where f = fst] split: if_splits)

text \<open>
  The manager is started only with the reconciler set up and both checks registered,
  unless IN_CI_TEST is set: then errors are noted and passed over, and the manager is
  started in any case.
\<close>

theorem manager_started:
  assumes "kb_Run M e conf = Ok (log, ex)" "StartManager \<in> set log"
  shows "rtNewManager M (manager_options_of e conf) = None \<and>
    (e ''IN_CI_TEST'' = None \<longrightarrow>
       rtSetup M (reconciler_settings_of conf) = None \<and> rtAddHealthz M = None \<and> rtAddReadyz M = None \<and>
       ex = (if rtStart M = None then None else Some 1)) \<and>
    (e ''IN_CI_TEST'' \<noteq> None \<longrightarrow> ex = None)"
proof -
  let ?r = "kb_steps M e conf"
  let ?t = "then_step ?r (checked e StartManager (rtStart M) ''startingManager'')"
  from assms kb_Run_Ok [OF assms(1)] have n: "rtNewManager M (manager_options_of e conf) = None"
    and t: "(log, ex) = ?t" by auto
  from t have "StartManager \<in> set (fst ?t)" using assms(2) by (simp flip: t)
  then have r: "snd ?r = None" using kb_steps_log [of M e conf] by (auto simp: checked_then)
  moreover have "ex = snd ?t" by (simp flip: t)
  ultimately show ?thesis using n kb_steps_exit [of M e conf] by (auto simp: checked_then)
qed

text \<open>
  Whatever the flags, the manager is made without leader election and without a metrics
  address: \<^verbatim>\<open>--leader-elect\<close> and \<^verbatim>\<open>--metrics-bind-address\<close> are parsed and dropped.  The other
  flags arrive: the probe address, the namespace, the resync period.
\<close>

theorem flags_dropped:
  assumes "kb_controllerRun M newConfig e fl = (e', Ok (log, ex))"
  shows "(\<forall>opts \<in> {opts. NewManager opts \<in> set log}.
      \<not> moLeaderElection opts \<and> moMetricsBindAddress opts = [] \<and>
      moHealthProbeBindAddress opts = kfProbeAddr fl \<and>
      moNamespace opts = GetNamespace e (kfNamespace fl)) \<and>
    (\<forall>rs \<in> {rs. SetupWithManager rs \<in> set log}.
      rsResyncPeriod rs = kfRsync fl \<and> rsConfigManaged rs = kfConfigManager fl)"
proof -
  let ?conf = "kb_config_of newConfig fl"
  have run: "kb_Run M e' ?conf = Ok (log, ex)" and e: "e' ''POD_NAMESPACE'' = e ''POD_NAMESPACE''"
    using assms by (auto simp: kb_controllerRun_def Let_def Setenv_def split: if_splits)
  have "opts = manager_options_of e' ?conf" if "NewManager opts \<in> set log" for opts
    using kb_Run_log [OF run] that by auto
  moreover have "rs = reconciler_settings_of ?conf" if "SetupWithManager rs \<in> set log" for rs
    using kb_Run_log [OF run] that by auto
  moreover have "\<not> moLeaderElection (manager_options_of e' ?conf)"
    "moMetricsBindAddress (manager_options_of e' ?conf) = []"
    "moHealthProbeBindAddress (manager_options_of e' ?conf) = kfProbeAddr fl"
    "moNamespace (manager_options_of e' ?conf) = GetNamespace e (kfNamespace fl)"
    "rsResyncPeriod (reconciler_settings_of ?conf) = kfRsync fl"
    "rsConfigManaged (reconciler_settings_of ?conf) = kfConfigManager fl"
    using e by (simp_all add: manager_options_of_def reconciler_settings_of_def kb_config_of_def
        kb_GetNamespace_def GetNamespace_def)
  ultimately show ?thesis by blast
qed

text \<open>
  From the flag to the resource: the reconciler of the command, where a reconciliation
  succeeds, comes back after as many minutes as the flag says, when these fit.
\<close>

theorem flag_to_requeue:
  assumes "Reconcile (reconciler_of (kb_config_of newConfig fl) R) req s = (s', Ok d)"
    "\<bar>kfRsync fl\<bar> \<le> 153722867"
  shows "sint d = kfRsync fl * 60000000000"
proof -
  have "d = of_int (kfRsync fl) * Minute"
    using assms(1) by (auto simp: Reconcile_def Let_def reconciler_of_def kb_config_of_def
        split: prod.splits res.splits)
  with minutes_fit [OF assms(2)] show ?thesis by simp
qed

end
