(* ===== verification/Sample_Controllers.thy ===== *)
theory Sample_Controllers
  imports Samples Cmd Manager Clientset
begin

text \<open>
  The properties of the command, the controllers and the informers applied to a small
  resource with one action, on a server that answers every call.
\<close>

section \<open>The command\<close>

definition ok_lib :: "(unit, unit) lib" where
  "ok_lib = sample_lib (server (\<lambda>m. answer 200 ''42''))"

lemma ok_lib_sorts: "documented_sort ok_lib"
  by (simp add: ok_lib_def sample_lib_sorts)

definition one_action :: Action where
  "one_action = sample_action ''one'' POST None"

definition no_retrieve :: "(unit, unit) CMRetrieve" where
  "no_retrieve w t c = (w, Inr t)"

definition sample_cli :: "(unit, unit) cli" where
  "sample_cli = \<lparr>cliLib = ok_lib, cliReadFile = (\<lambda>p. Inr ''doc''),
     cliUnmarshal = (\<lambda>d. Inr \<lparr>AuthConfigs = [(''b'', example_basic)], Seeders = [(''one'', one_action)],
       cfgOptions = \<lparr>FailFast = False\<rparr>\<rparr>),
     cliNewConfig = (), cliWithKeySeparator = (\<lambda>k c. c), cliWithTokenSeparator = (\<lambda>k c. c),
     cliConfigManager = no_retrieve\<rparr>"

definition sample_flags :: run_flags where
  "sample_flags = \<lparr>flPath = ''f'', flEnableConfigManager = False, flTokenSeparator = [], flKeySeparator = []\<rparr>"

theorem cli_success_witness:
  "\<exists>s as rs. fst (run_command sample_cli sample_flags empty_net no_env) = Some s \<and>
     map aName (as :: Action list) = [''one''] \<and> seeder_events s = calls_of rs \<and> (\<forall>r \<in> set rs. snd r \<noteq> Some False)"
proof -
  let ?r = "run_command sample_cli sample_flags empty_net no_env"
  have "exit_status (snd ?r) = 0" by code_simp
  moreover have "documented_sort (cliLib sample_cli)" by (simp add: sample_cli_def ok_lib_sorts)
  ultimately obtain doc cfg s as rs where e: "cliUnmarshal sample_cli doc = Inr cfg" "fst ?r = Some s"
    "mset as = mset (map (\<lambda>(k, v). WithHeader (WithName k v)) (Seeders cfg))"
    "\<forall>r \<in> set rs. snd r \<noteq> Some False" "seeder_events s = net_events empty_net @ calls_of rs"
    using cli_success [of sample_cli sample_flags empty_net no_env "fst ?r" "snd ?r"] by auto
  have "Seeders cfg = [(''one'', one_action)]" using e(1) by (auto simp: sample_cli_def)
  with e(3) have "map aName as = [''one'']" by (auto simp: WithHeader_def WithName_def)
  moreover have "net_events empty_net = []" by code_simp
  ultimately show ?thesis using e by (intro exI [of _ s] exI [of _ as] exI [of _ rs]) simp
qed

section \<open>The controller\<close>

definition sample_spec :: StrategySpec where
  "sample_spec = \<lparr>specAuth = [\<lparr>aaName = ''b'', aaAuth = example_basic\<rparr>],
     specSeeders = [\<lparr>scName = ''one'', scAction = one_action\<rparr>, \<lparr>scName = ''one'', scAction = one_action\<rparr>]\<rparr>"

definition sample_resource :: RestStrategy where
  "sample_resource = zero_RestStrategy\<lparr>rsNamespace := ''ns'', rsName := ''n'', rsSpec := sample_spec,
     rsGeneration := 1, rsResourceVersion := ''7''\<rparr>"

definition sample_cluster :: "(unit, unit) cluster" where
  "sample_cluster = \<lparr>clLib = ok_lib, clRestClient = xHttpClient ok_lib, clVisit = (\<lambda>m. m),
     clSplitKey = (\<lambda>k. Some (''ns'', ''n'')), clObjectKey = (\<lambda>ob. Inr ''ns/n''),
     clGet = (\<lambda>w ns n. Inr sample_resource), clUpdateStatus = (\<lambda>w rs. (w, Inr ())),
     clSpecJson = (\<lambda>f c w sp. (w, Inr sp)), clRetrieve = no_retrieve, clConfig = (), clResyncPeriod = 12\<rparr>"

definition idle :: "unit controller" where
  "idle = \<lparr>cNet = empty_net, cEnv = no_env, cQueue = [], cStatusUpdates = [], cEvents = [], cHandled = []\<rparr>"

lemma sample_cluster_calls:
  "clSplitKey sample_cluster ''ns/n'' = Some (''ns'', ''n'')"
  "clGet sample_cluster w ''ns'' ''n'' = Inr sample_resource"
  "clSpecJson sample_cluster f c w sp = (w, Inr sp)" "rsSpec sample_resource = sample_spec"
  "documented_sort (clLib sample_cluster)" "visits_all (clVisit sample_cluster)"
  by (simp_all add: sample_cluster_def sample_resource_def ok_lib_sorts visits_all_def same_map_def)

lemma sample_run: "snd (run_service sample_cluster sample_spec (kube_world () idle)) = Ok ()"
  by code_simp

theorem sync_reports_witness:
  "cStatusUpdates (fst (syncHandler sample_cluster ''ns/n'' idle)) =
     [sample_resource\<lparr>rsStatusBlock := \<lparr>stMessage = MessageResourceSynced\<rparr>\<rparr>]"
proof -
  have "clSpecJson sample_cluster (clRetrieve sample_cluster) (clConfig sample_cluster)
      (nWorld (cNet idle)) (rsSpec sample_resource) = ((), Inr sample_spec)"
    by (simp add: sample_cluster_calls)
  from sync_reports [OF sample_cluster_calls(1,2) this] sample_run
  have "cStatusUpdates (fst (syncHandler sample_cluster ''ns/n'' idle)) = cStatusUpdates idle @
      [sample_resource\<lparr>rsStatusBlock := \<lparr>stMessage = result_message (Ok ())\<rparr>\<rparr>]" by (simp add: Let_def)
  then show ?thesis by (simp add: result_message_def idle_def)
qed

theorem sync_runs_actions_witness:
  "\<exists>as rs. map aName (as :: Action list) = [''one''] \<and>
     net_events (cNet (fst (syncHandler sample_cluster ''ns/n'' idle))) = calls_of rs \<and>
     (\<forall>r \<in> set rs. snd r \<noteq> Some False)"
proof -
  have j: "clSpecJson sample_cluster (clRetrieve sample_cluster) (clConfig sample_cluster)
      (nWorld (cNet idle)) (rsSpec sample_resource) = ((), Inr sample_spec)"
    by (simp add: sample_cluster_calls)
  from sync_runs_actions [OF sample_cluster_calls(5,6,1,2) j sample_run] obtain as rs where
    e: "mset as = mset (map (\<lambda>(k, v). WithHeader (WithName k v)) (sortActions (specSeeders sample_spec)))"
      "\<forall>r \<in> set rs. snd r \<noteq> Some False"
      "net_events (cNet (fst (syncHandler sample_cluster ''ns/n'' idle))) = net_events (cNet idle) @ calls_of rs"
    by blast
  have "sortActions (specSeeders sample_spec) = [(''one'', one_action)]"
    by (simp add: sortActions_def sample_spec_def)
  with e(1) have "map aName as = [''one'']" by (auto simp: WithHeader_def WithName_def)
  moreover have "net_events (cNet idle) = []" by code_simp
  ultimately show ?thesis using e by (intro exI [of _ as] exI [of _ rs]) simp
qed

definition sample_index :: "unit indexer" where
  "sample_index = \<lparr>ixGetByKey = (\<lambda>w k. Inr (if k = ''ns/n'' then Some sample_resource else None)),
     ixListAll = (\<lambda>w sel. ([sample_resource], None)), ixNotFound = (\<lambda>n. n @ '' not found''),
     ixListAllByNamespace = (\<lambda>w ns sel. ([sample_resource], None))\<rparr>"

definition indexed_cluster :: "(unit, unit) cluster" where
  "indexed_cluster = sample_cluster\<lparr>clGet := lister_Get sample_index\<rparr>"

theorem nothing_is_retried_witness:
  "cQueue (fst (process_item indexed_cluster (Key ''ns/n'') idle)) = [Forget (Key ''ns/n'')]"
proof -
  have "clGet indexed_cluster = lister_Get sample_index" by (simp add: indexed_cluster_def)
  moreover have "documented_index sample_index" by (simp add: documented_index_def sample_index_def)
  ultimately have q: "cQueue (fst (process_item indexed_cluster (Key ''ns/n'') idle)) = cQueue idle @
      (if snd (syncHandler indexed_cluster ''ns/n'' idle) = Panic then [] else [Forget (Key ''ns/n'')])"
    by (rule nothing_is_retried [THEN conjunct2])
  have "snd (syncHandler indexed_cluster ''ns/n'' idle) \<noteq> Panic" by code_simp
  with q show ?thesis by (simp add: idle_def)
qed

theorem update_enqueues_witness:
  "\<exists>u. updateCustomResource sample_cluster 0 0 (Resource sample_resource) (Resource sample_resource) idle =
     (idle\<lparr>cQueue := [Add ''ns/n'']\<rparr>, Ok u)"
proof -
  have "clObjectKey sample_cluster (Resource sample_resource) = Inr ''ns/n''"
    by (simp add: sample_cluster_def)
  from update_enqueues [OF _ this, of 0 0 "Resource sample_resource" idle]
  show ?thesis by (auto simp: idle_def sample_cluster_def split: prod.splits res.splits)
qed

theorem no_self_trigger_witness:
  "updateCustomResource sample_cluster 13 5 (Resource sample_resource)
     (Resource (sample_resource\<lparr>rsStatusBlock := \<lparr>stMessage = ''ok''\<rparr>, rsResourceVersion := ''8''\<rparr>)) idle
   = (idle, Ok ())"
  by (rule no_self_trigger [OF _ _ _ refl]) (simp_all add: sample_cluster_def)

section \<open>Informers\<close>

definition two_steps :: sharedInformerFactory where
  "two_steps = Start (fst (InformerFor ''T'' (defaultInformer (RestStrategies (NewSharedInformerFactory 60)))
     (NewSharedInformerFactory 60)))"

lemma two_steps_reachable: "reachable (NewSharedInformerFactory 60) two_steps"
  unfolding two_steps_def by (rule reach_step [OF reach_step [OF reach_init fs_informer] fs_start])

theorem informers_run_once_witness: "distinct (map fst (running two_steps)) \<and> running two_steps \<noteq> []"
proof -
  have "running two_steps \<noteq> []" by code_simp
  then show ?thesis using informers_run_once [OF two_steps_reachable] by blast
qed

theorem Start_runs_all_witness: "fst ` set (running (Start two_steps)) = {''T''}"
proof -
  have "\<not> shuttingDown two_steps" by code_simp
  moreover have "map fst (running two_steps) = [''T'']" "map fst (informers two_steps) = [''T'']" by code_simp+
  then have "fst ` set (running two_steps) = {''T''}" "fst ` set (informers two_steps) = {''T''}"
    by (simp_all flip: set_map)
  ultimately show ?thesis using Start_runs_all [OF two_steps_reachable] by simp
qed

section \<open>The reconciler\<close>

definition sample_kb :: KbRestStrategy where
  "sample_kb = zero_KbRestStrategy\<lparr>kbName := ''n'',
     kbSpec := \<lparr>kbAuth = [example_basic], kbSeeders = [one_action]\<rparr>\<rparr>"

definition sample_reconciler :: "(unit, unit) RestStrategyReconciler" where
  "sample_reconciler = \<lparr>rcLib = ok_lib,
     rcGet = (\<lambda>w ns n. if n = ''n'' then Inr sample_kb else Inl ''not found''),
     rcUpdateStatus = (\<lambda>w ob. (w, Inr ())), rcConfigManager = no_retrieve, rcConfigManagerConfig = None,
     rcResyncPeriod = 12\<rparr>"

definition start_manager :: "unit manager" where
  "start_manager = \<lparr>mNet = empty_net, mEnv = no_env, mUpdates = []\<rparr>"

definition known :: request_name where "known = \<lparr>rqNamespace = ''ns'', rqName = ''n''\<rparr>"
definition gone :: request_name where "gone = \<lparr>rqNamespace = ''ns'', rqName = ''x''\<rparr>"

lemma ok_value: "is_ok (snd m) \<Longrightarrow> \<exists>s d. m = (s, Ok d)"
  by (cases m; cases "snd m") auto

lemma known_ok: "\<exists>s d. Reconcile sample_reconciler known start_manager = (s, Ok d)"
proof (rule ok_value)
  show "is_ok (snd (Reconcile sample_reconciler known start_manager))" by code_simp
qed


theorem Reconcile_unreadable_witness:
  "\<exists>s d. Reconcile sample_reconciler gone start_manager = (s, Ok d) \<and>
     mUpdates s = [zero_KbRestStrategy\<lparr>kbMessage := SuccessMessage gone\<rparr>]"
proof -
  have "rcGet sample_reconciler (nWorld (mNet start_manager)) (rqNamespace gone) (rqName gone) = Inl ''not found''"
    by (simp add: sample_reconciler_def gone_def)
  from Reconcile_unreadable [OF this] show ?thesis by (auto simp: start_manager_def)
qed


section \<open>Starting the manager\<close>

definition sample_runtime :: runtime_lib where
  "sample_runtime = \<lparr>rtAddToScheme = (\<lambda>n. None), rtGetConfig = (\<lambda>e. None), rtNewManager = (\<lambda>ob. None),
     rtSetup = (\<lambda>ob. None), rtAddHealthz = None, rtAddReadyz = None, rtStart = None\<rparr>"

definition elected :: kb_flags where
  "elected = kb_defaults\<lparr>kfLeaderElect := True, kfNamespace := ''ns''\<rparr>"

theorem flags_dropped_witness:
  "\<exists>e' log ex opts. kb_controllerRun sample_runtime (\<lambda>k t. ()) no_env elected = (e', Ok (log, ex)) \<and>
     NewManager opts \<in> set log \<and> \<not> moLeaderElection opts \<and> moNamespace opts = ''ns''"
proof -
  let ?r = "kb_controllerRun sample_runtime (\<lambda>k t. ()) no_env elected"
  obtain e' log ex where r: "?r = (e', Ok (log, ex))"
    by (simp add: kb_controllerRun_def kb_Run_def Let_def sample_runtime_def checked_def then_step_def)
  have "map_ok (\<lambda>le. list_ex (\<lambda>st. case st of NewManager ob \<Rightarrow> True | _ \<Rightarrow> False) (fst le)) (snd ?r) = Ok True"
    by code_simp
  then obtain opts where n: "NewManager opts \<in> set log"
    unfolding r snd_conv by (auto simp: list_ex_iff split: manager_step.splits)
  have "GetNamespace no_env (kfNamespace elected) = ''ns''" by code_simp
  with flags_dropped [OF r] n have "\<not> moLeaderElection opts \<and> moNamespace opts = ''ns''" by auto
  with r n show ?thesis by blast
qed

end
