(* ===== verification/System.thy ===== *)
theory System
  imports Entry Clientset "HOL-Library.Sublist"
begin

text \<open>
  The controller as a whole: the informer's events reach the handlers of \<open>Controller\<close>, these
  fill the work queue, and as many workers as \<^verbatim>\<open>Run\<close> starts empty it.  An event, the handing
  out of an item and its processing are steps, in any interleaving; the processing of one
  item is one step, since between its calls it touches nothing the statements here speak of:
  where other workers' calls come in between, they are still in their order in the log.
  Which item the queue hands out is a parameter, of which only what \<^verbatim>\<open>client-go\<close> documents is
  used: the item was added since it was last handed out, and nobody is processing it.
\<close>

section \<open>The queue as it is seen from outside\<close>

datatype queue_event = Issued queue_command | Handed item

fun marks :: "item \<Rightarrow> queue_event \<Rightarrow> bool \<Rightarrow> bool" where
  "marks x (Issued (Add k)) b = (b \<or> x = Key k)"
| "marks x (Issued (AddRateLimited k)) b = (b \<or> x = Key k)"
| "marks x (Handed y) b = (b \<and> x \<noteq> y)"
| "marks x (Issued (Forget y)) b = b"
| "marks x (Issued (Done y)) b = b"

fun holds :: "item \<Rightarrow> queue_event \<Rightarrow> bool \<Rightarrow> bool" where
  "holds x (Handed y) b = (b \<or> x = y)"
| "holds x (Issued (Done y)) b = (b \<and> x \<noteq> y)"
| "holds x (Issued (Add k)) b = b"
| "holds x (Issued (AddRateLimited k)) b = b"
| "holds x (Issued (Forget y)) b = b"

text \<open>Added since it was last handed out; handed out and not yet done.\<close>

definition waiting :: "queue_event list \<Rightarrow> item \<Rightarrow> bool" where
  "waiting log x = fold (marks x) log False"

definition processing :: "queue_event list \<Rightarrow> item \<Rightarrow> bool" where
  "processing log x = fold (holds x) log False"

definition documented_queue :: "(queue_event list \<Rightarrow> item \<Rightarrow> bool) \<Rightarrow> bool" where
  "documented_queue hands \<longleftrightarrow> (\<forall>log x. hands log x \<longrightarrow> waiting log x \<and> \<not> processing log x)"

section \<open>Steps\<close>

text \<open>
  \<open>sysSeen\<close> are the objects of the events delivered for a creation or an update;
  \<open>sysHands\<close> is what each worker is processing.
\<close>

record 'w system =
  sysCtl :: "'w controller"
  sysLog :: "queue_event list"
  sysHands :: "item option list"
  sysSeen :: "kube_object list"

definition absorb :: "'w controller \<Rightarrow> 'w system \<Rightarrow> 'w system" where
  "absorb c s =
     s\<lparr>sysCtl := c,
       sysLog := sysLog s @ map Issued (drop (length (cQueue (sysCtl s))) (cQueue c))\<rparr>"

inductive sys_step ::
  "('w, 'o) cluster \<Rightarrow> (queue_event list \<Rightarrow> item \<Rightarrow> bool) \<Rightarrow> 'w system \<Rightarrow> 'w system \<Rightarrow> bool"
  for C hands where
  created: "sys_step C hands s
      ((absorb (createCustomResource C obj (sysCtl s)) s)\<lparr>sysSeen := obj # sysSeen s\<rparr>)"
| updated: "sys_step C hands s ((absorb c s)\<lparr>sysSeen := new # sysSeen s\<rparr>)"
    if "updateCustomResource C hour minute old new (sysCtl s) = (c, Ok ())"
| deleted: "sys_step C hands s (absorb (deleteRestStrategyCustomResource C obj (sysCtl s)) s)"
| handed: "sys_step C hands s
      (s\<lparr>sysLog := sysLog s @ [Handed x], sysHands := (sysHands s)[i := Some x]\<rparr>)"
    if "i < length (sysHands s)" "sysHands s ! i = None" "hands (sysLog s) x"
| processed: "sys_step C hands s ((absorb c s)\<lparr>sysHands := (sysHands s)[i := None]\<rparr>)"
    if "i < length (sysHands s)" "sysHands s ! i = Some x"
      "processNextWorkItem C (Some x) (sysCtl s) = (c, Ok b)"
| outside: "sys_step C hands s (s\<lparr>sysCtl := kube_world w (sysCtl s)\<rparr>)"

definition sys_init :: "run_step list \<Rightarrow> 'w controller \<Rightarrow> 'w system" where
  "sys_init steps c =
     \<lparr>sysCtl = c, sysLog = [], sysHands = replicate (count_list steps StartWorker) None, sysSeen = []\<rparr>"

definition fresh_controller :: "'w controller \<Rightarrow> bool" where
  "fresh_controller c \<longleftrightarrow> cQueue c = [] \<and> cStatusUpdates c = [] \<and> cEvents c = []"

inductive sys_reachable ::
  "('w, 'o) cluster \<Rightarrow> (queue_event list \<Rightarrow> item \<Rightarrow> bool) \<Rightarrow> 'w system \<Rightarrow> 'w system \<Rightarrow> bool"
  for C hands s0 where
  sys_start: "sys_reachable C hands s0 s0"
| sys_next: "sys_reachable C hands s0 s \<Longrightarrow> sys_step C hands s s' \<Longrightarrow> sys_reachable C hands s0 s'"

section \<open>What each step does to the log\<close>

lemma waiting_append: "waiting (xs @ ys) x = fold (marks x) ys (waiting xs x)"
  by (simp add: waiting_def)

lemma processing_append: "processing (xs @ ys) x = fold (holds x) ys (processing xs x)"
  by (simp add: processing_def)

lemmas queue_views = waiting_append processing_append

lemma enqueue_log:
  "cQueue (enqueue C obj c) = cQueue c @ (case clObjectKey C obj of Inl e \<Rightarrow> [] | Inr k \<Rightarrow> [Add k])"
  by (simp add: enqueue_def split: sum.split)

lemma handlers_log:
  shows "cQueue (createCustomResource C obj c) = cQueue c \<or>
      (\<exists>k. cQueue (createCustomResource C obj c) = cQueue c @ [Add k] \<and> clObjectKey C obj = Inr k)"
    and "updateCustomResource C hour minute old new c = (c', Ok u) \<Longrightarrow> cQueue c' = cQueue c \<or>
      (\<exists>k. cQueue c' = cQueue c @ [Add k] \<and> clObjectKey C new = Inr k)"
  by (auto simp: createCustomResource_def updateCustomResource_def enqueue_log
      split: kube_object.splits sum.splits res.splits if_splits)

lemma handlers_reports:
  shows "cStatusUpdates (createCustomResource C obj c) = cStatusUpdates c"
    "cEvents (createCustomResource C obj c) = cEvents c"
    and "updateCustomResource C hour minute old new c = (c', Ok u) \<Longrightarrow>
      cStatusUpdates c' = cStatusUpdates c \<and> cEvents c' = cEvents c"
  by (auto simp: createCustomResource_def updateCustomResource_def enqueue_def handle_error_def
      split: kube_object.splits sum.splits res.splits if_splits)

lemma processed_log:
  assumes "processNextWorkItem C (Some x) c = (c', Ok b)"
  obtains q where "cQueue c' = cQueue c @ [q, Done x]"
    "q = Forget x \<or> (\<exists>k. x = Key k \<and> q = AddRateLimited k)"
  using process_result [of C x c b] assms by auto

text \<open>A step changes the log by what it issues or hands out.\<close>

definition log_grows :: "('w, 'o) cluster \<Rightarrow> 'w system \<Rightarrow> 'w system \<Rightarrow> bool" where
  "log_grows C s s' \<longleftrightarrow>
     sysLog s' = sysLog s \<and> sysHands s' = sysHands s \<and> set (sysSeen s) \<subseteq> set (sysSeen s') \<or>
     (\<exists>k obj. sysLog s' = sysLog s @ [Issued (Add k)] \<and> sysHands s' = sysHands s \<and>
        sysSeen s' = obj # sysSeen s \<and> clObjectKey C obj = Inr k) \<or>
     (\<exists>i x. i < length (sysHands s) \<and> sysHands s ! i = None \<and> waiting (sysLog s) x \<and>
        \<not> processing (sysLog s) x \<and> sysLog s' = sysLog s @ [Handed x] \<and>
        sysHands s' = (sysHands s)[i := Some x] \<and> sysSeen s' = sysSeen s) \<or>
     (\<exists>i x q. i < length (sysHands s) \<and> sysHands s ! i = Some x \<and>
        (q = Forget x \<or> (\<exists>k. x = Key k \<and> q = AddRateLimited k)) \<and>
        sysLog s' = sysLog s @ [Issued q, Issued (Done x)] \<and>
        sysHands s' = (sysHands s)[i := None] \<and> sysSeen s' = sysSeen s)"

lemma step_log:
  assumes "sys_step C hands s s'" "documented_queue hands"
  shows "log_grows C s s'"
  using assms(1)
proof (cases rule: sys_step.cases)
  case (created obj)
  then show ?thesis
    using handlers_log(1) [of C obj "sysCtl s"] by (auto simp: log_grows_def absorb_def)
next
  case (updated hour minute old new c)
  then show ?thesis
    using handlers_log(2) [of C hour minute old new "sysCtl s" c] by (auto simp: log_grows_def absorb_def)
next
  case (deleted obj)
  then show ?thesis by (simp add: log_grows_def absorb_def deleteRestStrategyCustomResource_def)
next
  case (handed i x)
  then show ?thesis using assms(2) by (auto simp: log_grows_def documented_queue_def)
next
  case (processed i x c b)
  obtain q where "cQueue c = cQueue (sysCtl s) @ [q, Done x]"
    "q = Forget x \<or> (\<exists>k. x = Key k \<and> q = AddRateLimited k)"
    by (rule processed_log [OF processed(4)])
  with processed show ?thesis by (auto simp: log_grows_def absorb_def)
next
  case (outside w)
  then show ?thesis by (simp add: log_grows_def)
qed

section \<open>Views of the log\<close>

lemma marks_source:
  "fold (marks x) log b \<Longrightarrow> b \<or>
     (\<exists>k. x = Key k \<and> (Issued (Add k) \<in> set log \<or> Issued (AddRateLimited k) \<in> set log))"
proof (induction log arbitrary: b)
  case (Cons e log)
  from Cons.IH [of "marks x e b"] Cons.prems show ?case
    by (cases "(x, e, b)" rule: marks.cases) auto
qed simp

lemma waiting_source:
  "waiting log x \<Longrightarrow>
     \<exists>k. x = Key k \<and> (Issued (Add k) \<in> set log \<or> Issued (AddRateLimited k) \<in> set log)"
  using marks_source [of x log False] by (simp add: waiting_def)

text \<open>An item that was waiting and no longer is has been handed out; one that is no longer
  processed is done.\<close>

lemma unmarked_handed:
  "\<not> fold (marks x) log True \<Longrightarrow> \<exists>us vs. log = us @ Handed x # vs"
proof (induction log)
  case (Cons e log)
  show ?case
  proof (cases "marks x e True")
    case True
    with Cons obtain us vs where "log = us @ Handed x # vs" by auto
    then show ?thesis by (intro exI [of _ "e # us"] exI [of _ vs]) simp
  next
    case False
    then have "e = Handed x" by (cases "(x, e, True)" rule: marks.cases) auto
    then show ?thesis by (intro exI [of _ "[]"] exI [of _ log]) simp
  qed
qed simp

lemma released_done: "\<not> fold (holds x) log True \<Longrightarrow> Issued (Done x) \<in> set log"
proof (induction log)
  case (Cons e log)
  show ?case
  proof (cases "holds x e True")
    case False
    then have "e = Issued (Done x)" by (cases "(x, e, True)" rule: holds.cases) auto
    then show ?thesis by simp
  qed (use Cons in simp)
qed simp

lemma marked_by_Add: "marks (Key k) (Issued (Add k)) b"
  by simp

lemma log_processed:
  assumes "\<not> waiting log (Key k)" "\<not> processing log (Key k)" "log = xs @ Issued (Add k) # ys"
  shows "\<exists>us vs. ys = us @ Handed (Key k) # vs \<and> Issued (Done (Key k)) \<in> set vs"
proof -
  have "\<not> fold (marks (Key k)) ys True"
    using assms(1,3) by (simp add: waiting_append)
  from unmarked_handed [OF this] obtain us vs where ys: "ys = us @ Handed (Key k) # vs" by blast
  have "\<not> fold (holds (Key k)) vs True"
    using assms(2,3) ys by (simp add: processing_append)
  from released_done [OF this] ys show ?thesis by blast
qed

section \<open>The invariant\<close>

definition announced :: "('w, 'o) cluster \<Rightarrow> 'w system \<Rightarrow> string \<Rightarrow> bool" where
  "announced C s k \<longleftrightarrow> (\<exists>obj \<in> set (sysSeen s). clObjectKey C obj = Inr k)"

definition wf_system :: "('w, 'o) cluster \<Rightarrow> 'w system \<Rightarrow> bool" where
  "wf_system C s \<longleftrightarrow>
     (\<forall>x. count (mset (sysHands s)) (Some x) = (if processing (sysLog s) x then 1 else 0)) \<and>
     (\<forall>k. Issued (Add k) \<in> set (sysLog s) \<longrightarrow> announced C s k) \<and>
     (\<forall>k. Issued (AddRateLimited k) \<in> set (sysLog s) \<longrightarrow> announced C s k) \<and>
     (\<forall>x. Some x \<in> set (sysHands s) \<longrightarrow> (\<exists>k. x = Key k \<and> announced C s k))"

lemma wf_systemD:
  assumes "wf_system C s"
  shows "count (mset (sysHands s)) (Some x) = (if processing (sysLog s) x then 1 else 0)"
    "Issued (Add k) \<in> set (sysLog s) \<Longrightarrow> announced C s k"
    "Issued (AddRateLimited k) \<in> set (sysLog s) \<Longrightarrow> announced C s k"
    "Some x \<in> set (sysHands s) \<Longrightarrow> \<exists>k. x = Key k \<and> announced C s k"
    "Some x \<in> set (sysHands s) \<longleftrightarrow> processing (sysLog s) x"
proof -
  show c: "count (mset (sysHands s)) (Some x) = (if processing (sysLog s) x then 1 else 0)"
    using assms unfolding wf_system_def by blast
  have "Some x \<in> set (sysHands s) \<longleftrightarrow> 0 < count (mset (sysHands s)) (Some x)" by simp
  then show "Some x \<in> set (sysHands s) \<longleftrightarrow> processing (sysLog s) x" unfolding c by simp
qed (use assms in \<open>unfold wf_system_def, blast\<close>)+

lemma sys_init_wf: "wf_system C (sys_init steps c)"
  by (simp add: wf_system_def sys_init_def processing_def)

text \<open>What is in hand after one worker took an item or put one down.\<close>

lemma count_hands:
  "i < length hs \<Longrightarrow>
     count (mset (hs[i := h])) y = count (mset hs) y - (if y = hs ! i then 1 else 0) + (if y = h then 1 else 0)"
  by (simp add: mset_update)

lemma count_twice:
  assumes "i < j" "j < length hs" "hs ! i = y" "hs ! j = y"
  shows "2 \<le> count (mset hs) y"
proof -
  have "hs = take i hs @ y # drop (Suc i) hs" using assms id_take_nth_drop [of i hs] by simp
  from arg_cong [OF this, of "\<lambda>xs. count (mset xs) y"]
  have "count (mset hs) y = count (mset (take i hs)) y + 1 + count (mset (drop (Suc i) hs)) y"
    by simp
  moreover have "y \<in> set (drop (Suc i) hs)"
    using assms by (auto simp: in_set_conv_nth intro!: exI [of _ "j - Suc i"])
  then have "0 < count (mset (drop (Suc i) hs)) y" by simp
  ultimately show ?thesis by linarith
qed

lemma log_grows_wf:
  assumes "wf_system C s" "log_grows C s s'"
  shows "wf_system C s'"
proof -
  note wf = wf_systemD [OF assms(1)]
  consider (same) "sysLog s' = sysLog s" "sysHands s' = sysHands s" "set (sysSeen s) \<subseteq> set (sysSeen s')"
    | (add) k obj where "sysLog s' = sysLog s @ [Issued (Add k)]" "sysHands s' = sysHands s"
        "sysSeen s' = obj # sysSeen s" "clObjectKey C obj = Inr k"
    | (hand) i x where "i < length (sysHands s)" "sysHands s ! i = None" "waiting (sysLog s) x"
        "\<not> processing (sysLog s) x" "sysLog s' = sysLog s @ [Handed x]"
        "sysHands s' = (sysHands s)[i := Some x]" "sysSeen s' = sysSeen s"
    | (put) i x q where "i < length (sysHands s)" "sysHands s ! i = Some x"
        "q = Forget x \<or> (\<exists>k. x = Key k \<and> q = AddRateLimited k)"
        "sysLog s' = sysLog s @ [Issued q, Issued (Done x)]"
        "sysHands s' = (sysHands s)[i := None]" "sysSeen s' = sysSeen s"
    using assms(2) unfolding log_grows_def by blast
  then show ?thesis
  proof cases
    case same
    have "announced C s k \<Longrightarrow> announced C s' k" for k using same(3) by (auto simp: announced_def)
    then show ?thesis using wf unfolding wf_system_def same(1,2) by blast
  next
    case add
    have "announced C s' k" "\<And>l. announced C s l \<Longrightarrow> announced C s' l"
      using add(3,4) by (auto simp: announced_def)
    then show ?thesis
      using wf(1-3) add(1,2) wf(4) [THEN exE] by (auto simp: wf_system_def processing_append dest!: wf(4))
  next
    case hand
    obtain k where k: "x = Key k" "announced C s k"
      using waiting_source [OF hand(3)] wf(2,3) by blast
    have ann: "announced C s' = announced C s" using hand(7) by (simp add: announced_def fun_eq_iff)
    have "count (mset (sysHands s')) (Some y) = (if processing (sysLog s') y then 1 else 0)" for y
      using wf(1) [of y] hand(2,4) by (simp add: hand(5,6) processing_append count_hands [OF hand(1)])
    moreover have "\<exists>k. y = Key k \<and> announced C s' k" if "Some y \<in> set (sysHands s')" for y
      using that wf(4) k set_update_subset_insert [of "sysHands s" i "Some x"] unfolding ann hand(6) by blast
    ultimately show ?thesis using wf(2,3) hand(5) unfolding wf_system_def ann by simp
  next
    case put
    have ann: "announced C s' = announced C s" using put(6) by (simp add: announced_def fun_eq_iff)
    have x: "x = Key k \<Longrightarrow> announced C s k" for k using wf(4) put(1,2) by (metis item.inject(1) nth_mem)
    have q: "holds y (Issued q) b = b" for y b using put(3) by auto
    have p: "processing (sysLog s) x" using wf(5) put(1,2) by (metis nth_mem)
    have "count (mset (sysHands s')) (Some y) = (if processing (sysLog s') y then 1 else 0)" for y
      using p unfolding put(4,5) processing_append count_hands [OF put(1)] put(2) wf(1)
      by (cases "y = x") (simp_all add: q)
    moreover have "\<exists>k. y = Key k \<and> announced C s' k" if "Some y \<in> set (sysHands s')" for y
      using that wf(4) set_update_subset_insert [of "sysHands s" i None] unfolding ann put(5) by blast
    moreover have "Issued (Add k) \<in> set (sysLog s') \<Longrightarrow> announced C s' k"
      "Issued (AddRateLimited k) \<in> set (sysLog s') \<Longrightarrow> announced C s' k" for k
      using wf(2,3) [of k] put(3) x [of k] unfolding ann put(4) by auto
    ultimately show ?thesis unfolding wf_system_def by blast
  qed
qed

lemma reachable_wf:
  assumes "sys_reachable C hands s0 s" "documented_queue hands" "wf_system C s0"
  shows "wf_system C s"
  using assms
  by (induction rule: sys_reachable.induct) (blast intro: log_grows_wf step_log)+

section \<open>What is reported\<close>

text \<open>A status update and an event that tell one result of one resource the lister had for a key.\<close>

definition report_of ::
  "('w, 'o) cluster \<Rightarrow> string \<Rightarrow> RestStrategy \<Rightarrow> kube_event \<Rightarrow> bool" where
  "report_of C k su ev \<longleftrightarrow>
     (\<exists>namespace name w. clSplitKey C k = Some (namespace, name) \<and>
        clGet C w namespace name = Inr (evObject ev) \<and>
        su = (evObject ev)\<lparr>rsStatusBlock := \<lparr>stMessage = evMessage ev\<rparr>\<rparr>)"

definition adds_report :: "('w, 'o) cluster \<Rightarrow> string \<Rightarrow> 'w controller \<Rightarrow> 'w controller \<Rightarrow> bool" where
  "adds_report C k c c' \<longleftrightarrow>
     cStatusUpdates c' = cStatusUpdates c \<and> cEvents c' = cEvents c \<or>
     (\<exists>su ev. cStatusUpdates c' = cStatusUpdates c @ [su] \<and> cEvents c' = cEvents c @ [ev] \<and>
        report_of C k su ev)"

lemma sync_adds_report:
  assumes "syncHandler C k c = (c', out)" "out \<noteq> Panic"
  shows "adds_report C k c c'"
proof (cases "clSplitKey C k")
  case None
  then show ?thesis
    using assms(1) by (auto simp: syncHandler_def adds_report_def handle_error_def)
next
  case (Some nn)
  obtain namespace name where nn: "nn = (namespace, name)" by (cases nn)
  show ?thesis
  proof (cases "clGet C (nWorld (cNet c)) namespace name")
    case (Inl e)
    then show ?thesis
      using assms(1) Some nn
      by (auto simp: syncHandler_def adds_report_def handle_error_def split: lister_error.splits)
  next
    case (Inr rs)
    obtain w res where j: "clSpecJson C (clRetrieve C) (clConfig C) (nWorld (cNet c)) (rsSpec rs) = (w, res)"
      by (cases "clSpecJson C (clRetrieve C) (clConfig C) (nWorld (cNet c)) (rsSpec rs)")
    show ?thesis
    proof (cases res)
      case (Inl e)
      then show ?thesis using assms(1) Some nn Inr j by (auto simp: syncHandler_def adds_report_def)
    next
      case (Inr spec)
      obtain t o' where t: "run_service C spec (kube_world w c) = (t, o')"
        by (cases "run_service C spec (kube_world w c)")
      have r: "report_result C rs (t, o') = (c', out)"
        using assms(1) Some nn \<open>clGet C (nWorld (cNet c)) namespace name = Inr rs\<close> j Inr t
        by (simp add: syncHandler_def)
      have "o' \<noteq> Panic" using r assms(2) by (auto simp: report_result_def)
      from report_result_logs [OF this, of C rs t] r
      have "cStatusUpdates c' = cStatusUpdates t @ [rs\<lparr>rsStatusBlock := \<lparr>stMessage = result_message o'\<rparr>\<rparr>]"
        "cEvents c' = cEvents t @ [result_event rs o']" by simp_all
      moreover have "cStatusUpdates t = cStatusUpdates c" "cEvents t = cEvents c"
        using run_service_keeps(2,3) [of C spec "kube_world w c"] t by simp_all
      moreover have "report_of C k (rs\<lparr>rsStatusBlock := \<lparr>stMessage = result_message o'\<rparr>\<rparr>) (result_event rs o')"
        using Some nn \<open>clGet C (nWorld (cNet c)) namespace name = Inr rs\<close>
        by (auto simp: report_of_def result_event_def)
      ultimately show ?thesis unfolding adds_report_def by auto
    qed
  qed
qed

lemma processed_adds_report:
  assumes "processNextWorkItem C (Some (Key k)) c = (c', Ok b)"
  shows "adds_report C k c c'"
proof -
  obtain c1 out where s: "syncHandler C k c = (c1, out)" by (cases "syncHandler C k c")
  have "out \<noteq> Panic"
    using assms s by (auto simp: processNextWorkItem_def process_item_def Let_def)
  moreover from this have "cStatusUpdates c' = cStatusUpdates c1" "cEvents c' = cEvents c1"
    using assms s by (cases out;
        auto simp: processNextWorkItem_def process_item_def Let_def handle_error_def)+
  ultimately show ?thesis using sync_adds_report [OF s] by (simp add: adds_report_def)
qed

definition reports_announced :: "('w, 'o) cluster \<Rightarrow> 'w system \<Rightarrow> bool" where
  "reports_announced C s \<longleftrightarrow>
     list_all2 (\<lambda>su ev. \<exists>k. announced C s k \<and> report_of C k su ev)
       (cStatusUpdates (sysCtl s)) (cEvents (sysCtl s))"

lemma reports_same:
  assumes "reports_announced C s" "cStatusUpdates (sysCtl s') = cStatusUpdates (sysCtl s)"
    "cEvents (sysCtl s') = cEvents (sysCtl s)" "set (sysSeen s) \<subseteq> set (sysSeen s')"
  shows "reports_announced C s'"
proof -
  have "announced C s k \<Longrightarrow> announced C s' k" for k using assms(4) by (auto simp: announced_def)
  with assms(1) show ?thesis
    unfolding reports_announced_def assms(2,3) by (auto elim!: list_all2_mono)
qed

lemma step_reports:
  assumes "sys_step C hands s s'" "wf_system C s" "reports_announced C s"
  shows "reports_announced C s'"
  using assms(1)
proof (cases rule: sys_step.cases)
  case (created obj)
  then show ?thesis
    by (intro reports_same [OF assms(3)]) (auto simp: absorb_def handlers_reports(1,2))
next
  case (updated hour minute old new c)
  then show ?thesis
    using handlers_reports(3) [OF updated(2)] by (intro reports_same [OF assms(3)]) (auto simp: absorb_def)
next
  case (deleted obj)
  then show ?thesis
    by (intro reports_same [OF assms(3)]) (auto simp: absorb_def deleteRestStrategyCustomResource_def)
next
  case (handed i x)
  then show ?thesis by (intro reports_same [OF assms(3)]) auto
next
  case (processed i x c b)
  have "Some x \<in> set (sysHands s)" using processed(2,3) by (metis nth_mem)
  from wf_systemD(4) [OF assms(2) this] obtain k where k: "x = Key k" "announced C s k" by blast
  have ann: "announced C s' = announced C s" using processed(1) by (simp add: announced_def fun_eq_iff absorb_def)
  have "sysCtl s' = c" using processed(1) by (simp add: absorb_def)
  with processed_adds_report [OF processed(4) [unfolded k(1)]] assms(3) k(2) show ?thesis
    unfolding reports_announced_def ann adds_report_def by (auto intro!: list_all2_appendI)
next
  case (outside w)
  then show ?thesis
    by (intro reports_same [OF assms(3)]) (auto simp: kube_world_def)
qed

lemma reachable_reports:
  assumes "sys_reachable C hands s0 s" "documented_queue hands" "wf_system C s0" "reports_announced C s0"
  shows "reports_announced C s"
  using assms
proof (induction rule: sys_reachable.induct)
  case (sys_next s s')
  then show ?case using step_reports [OF sys_next.hyps(2) reachable_wf [OF sys_next.hyps(1)]] by blast
qed

section \<open>What stands behind a success\<close>

text \<open>
  The calls of a run of a spec that went to success, among those of a log; calls of other
  workers may stand between them.
\<close>

definition complete_run :: "('w, 'o) cluster \<Rightarrow> StrategySpec \<Rightarrow> event list \<Rightarrow> bool" where
  "complete_run C spec log \<longleftrightarrow>
     (\<exists>seg. complete_calls (plan_of (xRest (clLib C)))
          (mset (map (\<lambda>(k, v). WithHeader (WithName k v)) (sortActions (specSeeders spec)))) seg \<and>
        subseq seg log)"

lemma subseq_end: "subseq xs (ys @ xs)"
  by (rule list_emb_append2) (rule subseq_order.order_refl)

definition backed_by_run :: "('w, 'o) cluster \<Rightarrow> event list \<Rightarrow> kube_event \<Rightarrow> bool" where
  "backed_by_run C log ev \<longleftrightarrow>
     (evReason ev = SuccessSynced \<longrightarrow>
        (\<exists>w w' spec. clSpecJson C (clRetrieve C) (clConfig C) w (rsSpec (evObject ev)) = (w', Inr spec) \<and>
           complete_run C spec log))"

lemma complete_later: "complete_run C spec log \<Longrightarrow> extends log log' \<Longrightarrow> complete_run C spec log'"
  unfolding complete_run_def extends_def by (elim exE conjE) (auto intro: list_emb_prefix)

lemma backed_later: "backed_by_run C log ev \<Longrightarrow> extends log log' \<Longrightarrow> backed_by_run C log' ev"
  unfolding backed_by_run_def using complete_later by blast

definition keeps_backing :: "('w, 'o) cluster \<Rightarrow> 'w controller \<Rightarrow> 'w controller \<Rightarrow> bool" where
  "keeps_backing C c c' \<longleftrightarrow>
     extends (net_events (cNet c)) (net_events (cNet c')) \<and>
     (\<forall>ev \<in> set (cEvents c'). ev \<in> set (cEvents c) \<or> backed_by_run C (net_events (cNet c')) ev)"

lemma keeps_backing_same:
  "net_events (cNet c') = net_events (cNet c) \<Longrightarrow> cEvents c' = cEvents c \<Longrightarrow> keeps_backing C c c'"
  by (simp add: keeps_backing_def)

lemma sync_keeps_backing:
  assumes "documented_sort (clLib C)" "visits_all (clVisit C)" "syncHandler C k c = (c', out)" "out \<noteq> Panic"
  shows "keeps_backing C c c'"
proof -
  consider (quiet) "net_events (cNet c') = net_events (cNet c)" "cEvents c' = cEvents c"
    | (ran) rs w spec where
        "clSpecJson C (clRetrieve C) (clConfig C) (nWorld (cNet c)) (rsSpec rs) = (w, Inr spec)"
        "report_result C rs (run_service C spec (kube_world w c)) = (c', out)"
    using assms(3)
    by (auto simp: syncHandler_def split: option.splits prod.splits sum.splits lister_error.splits)
  then show ?thesis
  proof cases
    case (ran rs w spec)
    obtain t o' where t: "run_service C spec (kube_world w c) = (t, o')" by force
    have o': "o' \<noteq> Panic" using ran(2) t assms(4) by (auto simp: report_result_def)
    have c': "c' = fst (report_result C rs (t, o'))" using ran(2) t by simp
    have grows: "extends (net_events (cNet c)) (net_events (cNet c'))"
      using run_service_grows [of C spec "kube_world w c"] t o' c' by simp
    have "backed_by_run C (net_events (cNet c')) (result_event rs o')"
    proof (cases o')
      case (Ok u)
      have "snd (run_service C spec (kube_world w c)) = Ok ()" using t Ok by simp
      with service_runs.complete [of C spec "kube_world w c"] assms(1,2) t
      obtain seg where "complete_calls (plan_of (xRest (clLib C)))
          (mset (map (\<lambda>(k, v). WithHeader (WithName k v)) (sortActions (specSeeders spec)))) seg"
        "net_events (cNet t) = net_events (cNet c) @ seg"
        by auto
      then have "complete_run C spec (net_events (cNet t))"
        unfolding complete_run_def by (intro exI [of _ seg]) (simp only: subseq_end simp_thms)
      then show ?thesis using ran(1) by (auto simp: backed_by_run_def result_event_def c')
    qed (use o' in \<open>simp_all add: backed_by_run_def result_event_def SuccessSynced_def ErrSync_def\<close>)
    moreover have "cEvents t = cEvents c" using run_service_keeps(3) [of C spec "kube_world w c"] t by simp
    then have "cEvents c' = cEvents c @ [result_event rs o']"
      using report_result_logs [OF o', of C rs t] c' by simp
    ultimately show ?thesis using grows by (auto simp: keeps_backing_def)
  qed (rule keeps_backing_same)
qed

lemma processed_keeps_backing:
  assumes "documented_sort (clLib C)" "visits_all (clVisit C)" "processNextWorkItem C (Some x) c = (c', Ok b)"
  shows "keeps_backing C c c'"
proof (cases x)
  case (Key k)
  obtain c1 out where s: "syncHandler C k c = (c1, out)" by (cases "syncHandler C k c")
  have "out \<noteq> Panic" "cEvents c' = cEvents c1" "cNet c' = cNet c1"
    using assms(3) s Key by (cases out;
        auto simp: processNextWorkItem_def process_item_def Let_def handle_error_def issue_def)+
  with sync_keeps_backing [OF assms(1,2) s] show ?thesis by (simp add: keeps_backing_def)
next
  case (NotAString t)
  with assms(3) show ?thesis
    by (auto simp: processNextWorkItem_def process_item_def Let_def handle_error_def issue_def keeps_backing_def)
qed

lemma handlers_net:
  shows "cNet (createCustomResource C obj c) = cNet c"
    and "updateCustomResource C hour minute old new c = (c', Ok u) \<Longrightarrow> cNet c' = cNet c"
  by (auto simp: createCustomResource_def updateCustomResource_def enqueue_def handle_error_def issue_def
      split: kube_object.splits sum.splits res.splits if_splits)

lemma step_keeps_backing:
  assumes "documented_sort (clLib C)" "visits_all (clVisit C)" "sys_step C hands s s'"
  shows "keeps_backing C (sysCtl s) (sysCtl s')"
  using assms(3)
proof (cases rule: sys_step.cases)
  case (updated hour minute old new c)
  then show ?thesis
    using handlers_net(2) [OF updated(2)] handlers_reports(3) [OF updated(2)]
    by (simp add: absorb_def keeps_backing_same)
next
  case (processed i x c b)
  then show ?thesis using processed_keeps_backing [OF assms(1,2) processed(4)] by (simp add: absorb_def)
qed (simp_all add: absorb_def keeps_backing_same handlers_net handlers_reports
      deleteRestStrategyCustomResource_def)

lemma reachable_backed:
  assumes "sys_reachable C hands s0 s" "documented_sort (clLib C)" "visits_all (clVisit C)" "cEvents (sysCtl s0) = []"
  shows "\<forall>ev \<in> set (cEvents (sysCtl s)). backed_by_run C (net_events (cNet (sysCtl s))) ev"
  using assms
proof (induction rule: sys_reachable.induct)
  case (sys_next s s')
  from step_keeps_backing [OF sys_next.prems(1,2) sys_next.hyps(2)] sys_next.IH [OF sys_next.prems]
  show ?case unfolding keeps_backing_def using backed_later by blast
qed simp

section \<open>Properties\<close>

lemma reachable_hands:
  assumes "sys_reachable C hands s0 s" "documented_queue hands"
  shows "length (sysHands s) = length (sysHands s0)"
  using assms
proof (induction rule: sys_reachable.induct)
  case (sys_next s s')
  then show ?case using step_log [OF sys_next.hyps(2) assms(2)] by (auto simp: log_grows_def)
qed simp




text \<open>
  C14: No false success: behind every event that tells of a success stand, among the calls
  made so far, those of a complete run of the resource it is about, with its secrets
  replaced: for each name of the spec the calls of the last entry of that name, in ascending
  order, each plan ending in success.
\<close>

theorem synced_means_run:
  assumes "documented_sort (clLib C)" "visits_all (clVisit C)" "fresh_controller c"
    "sys_reachable C hands (sys_init steps c) s"
    "ev \<in> set (cEvents (sysCtl s))" "evReason ev = SuccessSynced"
  shows "\<exists>w w' spec as rs.
    clSpecJson C (clRetrieve C) (clConfig C) w (rsSpec (evObject ev)) = (w', Inr spec) \<and>
    mset as = mset (map (\<lambda>(k, v). WithHeader (WithName k v)) (sortActions (specSeeders spec))) \<and>
    sorted (map order_of as) \<and> list_all2 (ran (plan_of (xRest (clLib C)))) as rs \<and>
    (\<forall>r \<in> set rs. snd r \<noteq> Some False) \<and> subseq (calls_of rs) (net_events (cNet (sysCtl s)))"
proof -
  have "cEvents (sysCtl (sys_init steps c)) = []" using assms(3) by (simp add: sys_init_def fresh_controller_def)
  from reachable_backed [OF assms(4,1,2) this] assms(5,6) obtain w w' spec where
    "clSpecJson C (clRetrieve C) (clConfig C) w (rsSpec (evObject ev)) = (w', Inr spec)"
    "complete_run C spec (net_events (cNet (sysCtl s)))"
    by (auto simp: backed_by_run_def)
  then show ?thesis unfolding complete_run_def complete_calls_def by blast
qed

section \<open>What the controller watches\<close>

text \<open>
  From the flags to the requests: once it runs, the controller lists and watches the
  resources of the namespace flag, without a selector of its own, and the watch is that of the
  list it read; the flag may be empty, where POD_NAMESPACE let it start, and the requests are
  then for every namespace.
\<close>

theorem watch_scope:
  assumes "RunWithConfig cacheSynced e config = Returns (f, c, steps, out)" "loWatch opts"
  shows "(ListFunc tweaks (ncLister c) opts :: 'p kube_request) =
      client_List (newRestStrategies (cfgNamespace config)) opts \<and>
    (WatchFunc tweaks (ncInformer c) opts :: 'p kube_request) =
      client_List (newRestStrategies (cfgNamespace config)) opts \<and>
    (cfgNamespace config = [] \<longrightarrow> (\<exists>p. e ''POD_NAMESPACE'' = Some p \<and> p \<noteq> []))"
proof -
  from assms(1) obtain f0 where f0: "InitialiseSharedInformerFactory e (cfgNamespace config) 60 = Inr f0"
    by (auto simp: RunWithConfig_def split: sum.splits)
  from RunWithConfig_started [OF f0, of "Rsyncperiod config"] assms(1) f0
  have c: "ncInformer c = watched (cfgNamespace config)" "ncLister c = watched (cfgNamespace config)"
    by (auto simp: RunWithConfig_def)
  have "cfgNamespace config = [] \<longrightarrow> (\<exists>p. e ''POD_NAMESPACE'' = Some p \<and> p \<noteq> [])"
    using f0 by (auto simp: InitialiseSharedInformerFactory_def GetNamespace_eq split: if_splits option.splits)
  moreover have "opts\<lparr>loWatch := True\<rparr> = opts" using assms(2) by (cases opts) simp
  ultimately show ?thesis
    by (simp add: c ListFunc_def WatchFunc_def tweaked_def watched_def client_List_def client_Watch_def)
qed

end
