(* ===== verification/Lifecycle.thy ===== *)
theory Lifecycle
  imports System
begin

text \<open>
  The process of the first controller from its start to its end: the goroutine of
  \<^verbatim>\<open>Controller.Run\<close>, the workers it starts, the signal handler, and the ways the process can
  end.  The steps of the workers are those of \<open>System\<close>, the steps of Run those of \<open>Entry\<close>, the
  handler is that of \<open>Signals\<close>.  A panic that nothing recovers ends a Go process with status 2;
  \<^verbatim>\<open>HandleCrash\<close>, which \<^verbatim>\<open>wait.Until\<close> defers, logs it and panics again.
\<close>

section \<open>State and steps\<close>

record 'w life =
  lfSys :: "'w system"
  lfSignals :: signal_state
  lfRun :: "run_step list"
  lfShut :: bool
  lfExit :: "int option"

text \<open>What Run returns, as the status of the process: \<^verbatim>\<open>controllerRun\<close> hands the error to cobra.\<close>

definition run_status :: "unit outcome \<Rightarrow> int" where
  "run_status out = (case out of Ok u \<Rightarrow> 0 | Fail e \<Rightarrow> 1 | Panic \<Rightarrow> 2)"

lemma run_status_exit: "run_status out = controller_exit (Ok (Returns (f, c, steps, out)))"
  by (cases out) (simp_all add: run_status_def)

text \<open>The channel of the first two signals; the handler ends the process at the second.\<close>

inductive life_step ::
  "('w, 'o) cluster \<Rightarrow> (queue_event list \<Rightarrow> item \<Rightarrow> bool) \<Rightarrow> unit outcome \<Rightarrow> 'w life \<Rightarrow> 'w life \<Rightarrow> bool"
  for C hands out where
  works: "life_step C hands out l (l\<lparr>lfSys := s'\<rparr>)"
    if "lfExit l = None" "sys_step C hands (lfSys l) s'"
| starts: "life_step C hands out l
      (l\<lparr>lfRun := rs, lfSys := (lfSys l)\<lparr>sysHands := sysHands (lfSys l) @ [None]\<rparr>\<rparr>)"
    if "lfExit l = None" "lfRun l = StartWorker # rs"
| stops: "life_step C hands out l (l\<lparr>lfRun := rs\<rparr>)"
    if "lfExit l = None" "lfRun l = AwaitStop # rs" "stopClosed (lfSignals l)"
| shuts: "life_step C hands out l (l\<lparr>lfRun := rs, lfShut := True\<rparr>)"
    if "lfExit l = None" "lfRun l = QueueShutDown # rs"
| returns: "life_step C hands out l (l\<lparr>lfExit := Some (run_status out)\<rparr>)"
    if "lfExit l = None" "lfRun l = []"
| signalled: "life_step C hands out l (l\<lparr>lfSignals := notify (lfSignals l)\<rparr>)"
    if "lfExit l = None"
| handles: "life_step C hands out l
      (l\<lparr>lfSignals := handler_step (lfSignals l), lfExit := exitedWith (handler_step (lfSignals l))\<rparr>)"
    if "lfExit l = None" "handler_ready (lfSignals l)"
| crashes: "life_step C hands out l (l\<lparr>lfExit := Some 2\<rparr>)"
    if "lfExit l = None" "i < length (sysHands (lfSys l))" "sysHands (lfSys l) ! i = Some x"
      "snd (processNextWorkItem C (Some x) (sysCtl (lfSys l))) = Panic"

text \<open>
  The start: \<^verbatim>\<open>SetupSignalHandler\<close> has returned, the caches have synced or not, and Run has
  its steps before it.
\<close>

definition life_init :: "signal_state \<Rightarrow> bool \<Rightarrow> int \<Rightarrow> 'w controller \<Rightarrow> 'w life" where
  "life_init sg synced workers c =
     \<lparr>lfSys = sys_init [] c, lfSignals = sg, lfRun = fst (Controller_Run synced workers),
      lfShut = False, lfExit = None\<rparr>"

inductive living ::
  "('w, 'o) cluster \<Rightarrow> (queue_event list \<Rightarrow> item \<Rightarrow> bool) \<Rightarrow> bool \<Rightarrow> int \<Rightarrow> 'w controller \<Rightarrow> 'w life \<Rightarrow> bool"
  for C hands synced workers c where
  born: "SetupSignalHandler signals_init = Ok sg \<Longrightarrow>
    living C hands synced workers c (life_init sg synced workers c)"
| lives: "living C hands synced workers c l \<Longrightarrow>
    life_step C hands (snd (Controller_Run synced workers)) l l' \<Longrightarrow>
    living C hands synced workers c l'"

inductive_cases life_stepE: "life_step C hands out l l'"

section \<open>The workers of a process are those of the system\<close>

text \<open>The workers that Run has not started yet, idle.\<close>

definition all_started :: "nat \<Rightarrow> 'w system \<Rightarrow> 'w system" where
  "all_started n s = s\<lparr>sysHands := sysHands s @ replicate (n - length (sysHands s)) None\<rparr>"

lemma all_started_fields [simp]:
  "sysCtl (all_started n s) = sysCtl s" "sysLog (all_started n s) = sysLog s"
  "sysSeen (all_started n s) = sysSeen s"
  by (simp_all add: all_started_def)

lemma all_started_updates [simp]:
  "all_started n (s\<lparr>sysSeen := os\<rparr>) = (all_started n s)\<lparr>sysSeen := os\<rparr>"
  "all_started n (s\<lparr>sysCtl := c\<rparr>) = (all_started n s)\<lparr>sysCtl := c\<rparr>"
  "all_started n (s\<lparr>sysLog := log\<rparr>) = (all_started n s)\<lparr>sysLog := log\<rparr>"
  "all_started n (absorb c s) = absorb c (all_started n s)"
  by (cases s; simp add: all_started_def absorb_def)+

lemma all_started_hands:
  assumes "i < length (sysHands s)"
  shows "all_started n (s\<lparr>sysHands := (sysHands s)[i := h]\<rparr>) =
      (all_started n s)\<lparr>sysHands := (sysHands (all_started n s))[i := h]\<rparr>"
    and "sysHands (all_started n s) ! i = sysHands s ! i" "i < length (sysHands (all_started n s))"
  using assms by (simp_all add: all_started_def list_update_append nth_append)

lemma absorb_hands [simp]: "sysHands (absorb c s) = sysHands s"
  by (simp add: absorb_def)

lemma sys_step_padded:
  assumes "sys_step C hands s s'"
  shows "sys_step C hands (all_started n s) (all_started n s')"
  using assms
proof (cases rule: sys_step.cases)
  case (created obj)
  then show ?thesis
    using sys_step.created [of C hands "all_started n s" obj] by simp
next
  case (updated hour minute old new c)
  then show ?thesis
    using sys_step.updated [of C hour minute old new "all_started n s" c hands] by simp
next
  case (deleted obj)
  then show ?thesis
    using sys_step.deleted [of C hands "all_started n s" obj] by simp
next
  case (handed i x)
  let ?t = "s\<lparr>sysLog := sysLog s @ [Handed x]\<rparr>"
  have "all_started n s' = (all_started n s)\<lparr>sysLog := sysLog s @ [Handed x],
      sysHands := (sysHands (all_started n s))[i := Some x]\<rparr>"
    using all_started_hands(1) [of i ?t n "Some x"] handed by (simp add: all_started_def)
  then show ?thesis
    using sys_step.handed [of i "all_started n s" hands x C] all_started_hands(2,3) [OF handed(2), of n] handed
    by simp
next
  case (processed i x c b)
  have "all_started n s' = (absorb c (all_started n s))\<lparr>sysHands := (sysHands (all_started n s))[i := None]\<rparr>"
    using all_started_hands(1) [of i "absorb c s" n None] processed by simp
  then show ?thesis
    using sys_step.processed [of i "all_started n s" x C c b hands] all_started_hands(2,3) [OF processed(2), of n]
      processed by simp
next
  case (outside w)
  then show ?thesis
    using sys_step.outside [of C hands "all_started n s" w] by simp
qed

text \<open>Starting a worker is nothing to the system, where it stood by idle.\<close>

lemma all_started_more:
  assumes "length (sysHands s) < n"
  shows "all_started n (s\<lparr>sysHands := sysHands s @ [None]\<rparr>) = all_started n s"
proof -
  from assms obtain k where "n - length (sysHands s) = Suc k" by (cases "n - length (sysHands s)") auto
  moreover from this have "n - Suc (length (sysHands s)) = k" by simp
  ultimately show ?thesis by (simp add: all_started_def)
qed

lemma all_started_init: "all_started (count_list steps StartWorker) (sys_init [] c) = sys_init steps c"
  by (simp add: all_started_def sys_init_def)

lemma no_worker_yet: "sysHands (sys_init [] c) = []"
  by (simp add: sys_init_def)

section \<open>What holds while the process lives\<close>

definition passed_stop :: "'w life \<Rightarrow> bool" where
  "passed_stop l \<longleftrightarrow> AwaitStop \<notin> set (lfRun l)"

definition life_inv ::
  "('w, 'o) cluster \<Rightarrow> (queue_event list \<Rightarrow> item \<Rightarrow> bool) \<Rightarrow> run_step list \<Rightarrow> unit outcome \<Rightarrow> 'w controller
   \<Rightarrow> 'w life \<Rightarrow> bool" where
  "life_inv C hands steps out c l \<longleftrightarrow>
     (\<exists>before. steps = before @ lfRun l) \<and>
     length (sysHands (lfSys l)) + count_list (lfRun l) StartWorker = count_list steps StartWorker \<and>
     sys_reachable C hands (sys_init steps c) (all_started (count_list steps StartWorker) (lfSys l)) \<and>
     (\<exists>n. after_signals n (lfSignals l)) \<and> (lfExit l = None \<longrightarrow> exitedWith (lfSignals l) = None) \<and>
     (AwaitStop \<in> set steps \<and> passed_stop l \<longrightarrow> stopClosed (lfSignals l)) \<and>
     (QueueShutDown \<in> set steps \<and> QueueShutDown \<notin> set (lfRun l) \<longrightarrow> lfShut l)"

lemmas life_invD = life_inv_def [THEN iffD1, THEN conjunct1]
  life_inv_def [THEN iffD1, THEN conjunct2, THEN conjunct1]
  life_inv_def [THEN iffD1, THEN conjunct2, THEN conjunct2, THEN conjunct1]
  life_inv_def [THEN iffD1, THEN conjunct2, THEN conjunct2, THEN conjunct2, THEN conjunct1]

lemma stop_stays:
  "stopClosed s \<Longrightarrow> stopClosed (notify s)" "stopClosed s \<Longrightarrow> stopClosed (handler_step s)"
  "exitedWith (notify s) = exitedWith s"
  by (simp_all add: notify_def handler_step_def)

lemma workers_keep_hands: "sys_step C hands s s' \<Longrightarrow> length (sysHands s') = length (sysHands s)"
  by (erule sys_step.cases) auto

lemma life_step_inv:
  assumes "life_step C hands out l l'" "life_inv C hands steps out c l"
  shows "life_inv C hands steps out c l'"
  using assms(1)
proof (cases rule: life_step.cases)
  case (works s')
  have "sys_reachable C hands (sys_init steps c) (all_started (count_list steps StartWorker) s')"
    using life_invD(3) [OF assms(2)] sys_step_padded [OF works(3)] by (rule sys_next)
  with assms(2) works workers_keep_hands [OF works(3)] show ?thesis
    by (simp add: life_inv_def passed_stop_def)
next
  case (starts rs)
  have "length (sysHands (lfSys l)) < count_list steps StartWorker"
    using life_invD(2) [OF assms(2)] starts(3) by simp
  from all_started_more [OF this] assms(2) starts show ?thesis
    by (auto simp: life_inv_def passed_stop_def)
next
  case (stops rs)
  with assms(2) show ?thesis by (auto simp: life_inv_def passed_stop_def)
next
  case (shuts rs)
  obtain before where b: "steps = before @ QueueShutDown # rs"
    using life_invD(1) [OF assms(2)] shuts(3) by auto
  show ?thesis using assms(2) shuts b by (auto simp: life_inv_def passed_stop_def)
next
  case returns
  with assms(2) show ?thesis by (simp add: life_inv_def passed_stop_def)
next
  case signalled
  obtain n where "after_signals n (lfSignals l)" using life_invD(4) [OF assms(2)] by blast
  moreover have "exitedWith (lfSignals l) = None" using assms(2) signalled(2) by (simp add: life_inv_def)
  ultimately have "after_signals (n + 1) (notify (lfSignals l))" by (rule as_notify)
  with assms(2) signalled show ?thesis by (auto simp: life_inv_def passed_stop_def stop_stays)
next
  case handles
  obtain n where "after_signals n (lfSignals l)" using life_invD(4) [OF assms(2)] by blast
  then have "after_signals n (handler_step (lfSignals l))" using handles(3) by (rule as_receive)
  with assms(2) handles show ?thesis by (auto simp: life_inv_def passed_stop_def stop_stays)
next
  case (crashes i x)
  with assms(2) show ?thesis by (simp add: life_inv_def passed_stop_def)
qed

lemma living_inv:
  assumes "living C hands synced workers c l"
  shows "life_inv C hands (fst (Controller_Run synced workers)) (snd (Controller_Run synced workers)) c l"
  using assms
proof (induction rule: living.induct)
  case (born sg)
  then have "after_signals 0 sg" "exitedWith sg = None"
    by (auto intro: as_setup simp: SetupSignalHandler_def signals_init_def)
  then show ?case
    by (auto simp: life_inv_def life_init_def passed_stop_def all_started_init no_worker_yet intro: sys_start)
next
  case (lives l l')
  then show ?case by (blast intro: life_step_inv)
qed

text \<open>Why a process ended.\<close>

definition ended_well :: "unit outcome \<Rightarrow> ('w, 'o) cluster \<Rightarrow> 'w life \<Rightarrow> bool" where
  "ended_well out C l \<longleftrightarrow>
     (\<forall>n. lfExit l = Some n \<longrightarrow>
        n = run_status out \<and> lfRun l = [] \<or> n = 1 \<and> exitedWith (lfSignals l) = Some 1 \<or>
        n = 2 \<and> (\<exists>x. Some x \<in> set (sysHands (lfSys l)) \<and>
                   snd (processNextWorkItem C (Some x) (sysCtl (lfSys l))) = Panic))"

lemma life_step_alive: "life_step C hands out l l' \<Longrightarrow> lfExit l = None"
  by (erule life_step.cases) auto

lemma life_step_ends:
  assumes "life_step C hands out l l'" "\<exists>n. after_signals n (lfSignals l')"
  shows "ended_well out C l'"
  using assms(1)
proof (cases rule: life_step.cases)
  case handles
  from assms(2) obtain n where "after_signals n (lfSignals l')" by blast
  from after_signals_inv [OF this] handles(1) show ?thesis
    by (auto simp: ended_well_def signals_inv_def split: if_splits)
next
  case (crashes i x)
  then have "Some x \<in> set (sysHands (lfSys l))" by (metis nth_mem)
  with crashes show ?thesis by (auto simp: ended_well_def)
qed (auto simp: ended_well_def)

lemma living_ends:
  assumes "living C hands synced workers c l"
  shows "ended_well (snd (Controller_Run synced workers)) C l"
  using assms
proof (cases rule: living.cases)
  case (born sg)
  then show ?thesis by (simp add: ended_well_def life_init_def)
next
  case (lives l0)
  show ?thesis
    by (rule life_step_ends [OF lives(2)]) (rule life_invD(4) [OF living_inv [OF assms]])
qed

lemma process_hands:
  assumes "living C hands synced workers c l"
  shows "length (sysHands (lfSys l)) \<le> (if synced then nat workers else 0)"
proof -
  have "count_list (fst (Controller_Run synced workers)) StartWorker = (if synced then nat workers else 0)"
    by (auto simp: Controller_Run_def)
  with life_invD(2) [OF living_inv [OF assms]] show ?thesis by simp
qed

section \<open>Properties\<close>



text \<open>
  C17: A shutdown does not wait for the workers.  From every state in which Run waits for the
  stop channel, whatever the workers have in hand, one signal brings the process to its end
  with status 0 while they still have it: a run of a resource is cut off between two calls,
  with no status and no event for it.
\<close>

theorem shutdown_abandons_work:
  assumes "living C hands True workers c l" "lfExit l = None" "lfRun l = [AwaitStop, QueueShutDown]"
  shows "\<exists>l'. living C hands True workers c l' \<and> lfExit l' = Some 0 \<and> lfShut l' \<and> lfSys l' = lfSys l"
proof -
  let ?out = "snd (Controller_Run True workers)"
  have stopped: "\<exists>sg. living C hands True workers c (l\<lparr>lfSignals := sg\<rparr>) \<and> stopClosed sg"
  proof (cases "received (lfSignals l) = 0")
    case True
    let ?sg = "notify (lfSignals l)"
    obtain n where "after_signals n (lfSignals l)" using life_invD(4) [OF living_inv [OF assms(1)]] by blast
    moreover have "living C hands True workers c (l\<lparr>lfSignals := ?sg\<rparr>)"
      by (rule living.lives [OF assms(1)]) (rule life_step.signalled [OF assms(2)])
    moreover have "handler_ready ?sg" "exitedWith (handler_step ?sg) = None" "stopClosed (handler_step ?sg)"
      using True assms(2) living_inv [OF assms(1)]
      by (auto simp: handler_ready_def notify_def handler_step_def life_inv_def)
    ultimately have "living C hands True workers c
        (l\<lparr>lfSignals := ?sg, lfSignals := handler_step ?sg, lfExit := None\<rparr>)"
      using living.lives [OF _ life_step.handles [of "l\<lparr>lfSignals := ?sg\<rparr>"]] assms(2) by fastforce
    moreover have "l\<lparr>lfSignals := ?sg, lfSignals := handler_step ?sg, lfExit := None\<rparr> =
        l\<lparr>lfSignals := handler_step ?sg\<rparr>"
      using assms(2) by (cases l) simp
    ultimately show ?thesis using \<open>stopClosed (handler_step ?sg)\<close> by metis
  next
    case False
    obtain n where "after_signals n (lfSignals l)" using life_invD(4) [OF living_inv [OF assms(1)]] by blast
    from after_signals_inv [OF this] False have "stopClosed (lfSignals l)" by (simp add: signals_inv_def)
    with assms(1) show ?thesis by (intro exI [of _ "lfSignals l"]) simp
  qed
  then obtain sg where sg: "living C hands True workers c (l\<lparr>lfSignals := sg\<rparr>)" "stopClosed sg" by blast
  let ?l1 = "l\<lparr>lfSignals := sg, lfRun := [QueueShutDown]\<rparr>"
  let ?l2 = "?l1\<lparr>lfRun := [], lfShut := True\<rparr>"
  have "living C hands True workers c ?l1"
    using living.lives [OF sg(1) life_step.stops [of "l\<lparr>lfSignals := sg\<rparr>"]] assms(2,3) sg(2) by simp
  from living.lives [OF this life_step.shuts [of ?l1]] have "living C hands True workers c ?l2"
    using assms(2) by simp
  from living.lives [OF this life_step.returns [of ?l2]]
  have "living C hands True workers c (?l2\<lparr>lfExit := Some (run_status ?out)\<rparr>)" using assms(2) by simp
  moreover have "run_status ?out = 0" by (simp add: Controller_Run_def run_status_def)
  ultimately show ?thesis by (intro exI [of _ "?l2\<lparr>lfExit := Some (run_status ?out)\<rparr>"]) simp
qed

end
