(* ===== verification/Sample_System.thy ===== *)
theory Sample_System
  imports System Sample_Controllers
begin

text \<open>
  The properties of the whole controller applied to one resource: its creation is announced,
  the first of two workers takes the key and syncs it.
\<close>

definition any_order :: "queue_event list \<Rightarrow> item \<Rightarrow> bool" where
  "any_order log x \<longleftrightarrow> waiting log x \<and> \<not> processing log x"

definition the_key :: item where "the_key = Key ''ns/n''"

definition booted :: "unit system" where
  "booted = sys_init (fst (Controller_Run True 2)) idle"

definition told :: "unit system" where
  "told = (absorb (createCustomResource sample_cluster (Resource sample_resource) (sysCtl booted)) booted)
     \<lparr>sysSeen := [Resource sample_resource]\<rparr>"

definition busy :: "unit system" where
  "busy = told\<lparr>sysLog := sysLog told @ [Handed the_key], sysHands := (sysHands told)[0 := Some the_key]\<rparr>"

definition rested :: "unit system" where
  "rested = (absorb (fst (processNextWorkItem sample_cluster (Some the_key) (sysCtl busy))) busy)
     \<lparr>sysHands := (sysHands busy)[0 := None]\<rparr>"

lemma any_order_documented: "documented_queue any_order"
  by (simp add: documented_queue_def any_order_def)

lemma told_fields:
  "sysLog told = [Issued (Add ''ns/n'')]" "sysHands told = [None, None]"
  "sysSeen told = [Resource sample_resource]"
  by (simp_all add: told_def booted_def sys_init_def absorb_def createCustomResource_def enqueue_def
      sample_cluster_def idle_def Controller_Run_def numeral_2_eq_2)

lemma busy_fields:
  "sysLog busy = [Issued (Add ''ns/n''), Handed the_key]" "sysHands busy = [Some the_key, None]"
  by (simp_all add: busy_def told_fields)

lemma step_told: "sys_step sample_cluster any_order booted told"
proof -
  have "sysSeen booted = []" by (simp add: booted_def sys_init_def)
  then show ?thesis
    unfolding told_def using sys_step.created [of sample_cluster any_order booted] by simp
qed

lemma step_busy: "sys_step sample_cluster any_order told busy"
proof -
  have "any_order (sysLog told) the_key"
    by (simp add: any_order_def told_fields waiting_def processing_def the_key_def)
  then show ?thesis unfolding busy_def by (intro sys_step.handed) (simp_all add: told_fields)
qed

lemma reach_busy: "sys_reachable sample_cluster any_order booted busy"
  by (meson sys_start sys_next step_told step_busy)

lemma sync_ends: "snd (processNextWorkItem sample_cluster (Some the_key) (sysCtl busy)) = Ok True"
  by code_simp

lemma reach_rested: "sys_reachable sample_cluster any_order booted rested"
proof (rule sys_next [OF reach_busy])
  show "sys_step sample_cluster any_order busy rested"
    unfolding rested_def
    by (rule sys_step.processed [where x = the_key and b = True])
      (simp_all add: busy_fields prod_eq_iff sync_ends)
qed

lemma rested_queue:
  "cQueue (sysCtl busy) = [Add ''ns/n'']"
  "cQueue (fst (processNextWorkItem sample_cluster (Some the_key) (sysCtl busy))) =
     [Add ''ns/n'', Forget the_key, Done the_key]"
  by code_simp+

lemma rested_fields:
  "sysLog rested = [] @ Issued (Add ''ns/n'') # [Handed the_key, Issued (Forget the_key), Issued (Done the_key)]"
  "sysHands rested = [None, None]" "\<not> waiting (sysLog rested) the_key"
  by (simp_all add: rested_def absorb_def busy_fields rested_queue [unfolded the_key_def] waiting_def the_key_def)

lemma rested_updates: "length (cStatusUpdates (sysCtl rested)) = 1"
  by code_simp




lemma rested_event: "map (\<lambda>e. (evReason e, rsSpec (evObject e))) (cEvents (sysCtl rested)) = [(SuccessSynced, sample_spec)]"
  by code_simp

theorem synced_means_run_witness:
  "\<exists>ev as rs. cEvents (sysCtl rested) = [ev] \<and> map aName (as :: Action list) = [''one''] \<and>
     (\<forall>r \<in> set rs. snd r \<noteq> Some False) \<and> subseq (calls_of rs) (net_events (cNet (sysCtl rested)))"
proof -
  obtain ev where ev: "cEvents (sysCtl rested) = [ev]" "evReason ev = SuccessSynced" "rsSpec (evObject ev) = sample_spec"
    using rested_event by (cases "cEvents (sysCtl rested)") auto
  have "fresh_controller idle" by (simp add: fresh_controller_def idle_def)
  from synced_means_run [OF sample_cluster_calls(5,6) this reach_rested [unfolded booted_def], of ev] ev
  obtain w w' spec as rs where
    r: "clSpecJson sample_cluster (clRetrieve sample_cluster) (clConfig sample_cluster) w sample_spec = (w', Inr spec)"
      "mset as = mset (map (\<lambda>(k, v). WithHeader (WithName k v)) (sortActions (specSeeders spec)))"
      "\<forall>r \<in> set rs. snd r \<noteq> Some False" "subseq (calls_of rs) (net_events (cNet (sysCtl rested)))"
    by auto
  have "spec = sample_spec" using r(1) by (simp add: sample_cluster_def)
  then have "sortActions (specSeeders spec) = [(''one'', one_action)]"
    by (simp add: sortActions_def sample_spec_def)
  with r(2) have "map aName as = [''one'']" by (auto simp: WithHeader_def WithName_def)
  show ?thesis by (rule exI [of _ ev], rule exI [of _ as], rule exI [of _ rs]) (intro conjI; fact)
qed

end
