(* ===== verification/Sample_Lifecycle.thy ===== *)
theory Sample_Lifecycle
  imports Lifecycle Sample_System
begin

text \<open>
  A process with two workers, the first of which has taken a key when the shutdown signal
  arrives.
\<close>

definition signals_up :: signal_state where
  "signals_up = signals_init\<lparr>onlyOneClosed := True\<rparr>"

definition at_work :: "unit life" where
  "at_work = \<lparr>lfSys = busy, lfSignals = signals_up, lfRun = [AwaitStop, QueueShutDown], lfShut = False,
     lfExit = None\<rparr>"

abbreviation sample_living :: "unit life \<Rightarrow> bool" where
  "sample_living \<equiv> living sample_cluster any_order True 2 idle"

lemma two_workers: "fst (Controller_Run True 2) = [StartWorker, StartWorker, AwaitStop, QueueShutDown]"
  by (simp add: Controller_Run_def numeral_2_eq_2)

lemma living_booted:
  "sample_living \<lparr>lfSys = booted, lfSignals = signals_up, lfRun = [AwaitStop, QueueShutDown],
     lfShut = False, lfExit = None\<rparr>"
proof -
  let ?l = "\<lambda>n rs. \<lparr>lfSys = (sys_init [] idle)\<lparr>sysHands := replicate n None\<rparr>, lfSignals = signals_up,
      lfRun = rs, lfShut = False, lfExit = None\<rparr>"
  have sg: "SetupSignalHandler signals_init = Ok signals_up"
    by (simp add: SetupSignalHandler_def signals_init_def signals_up_def)
  have "sample_living (?l 0 (StartWorker # StartWorker # [AwaitStop, QueueShutDown]))"
    using living.born [OF sg, of sample_cluster any_order True 2 idle]
    by (simp add: life_init_def two_workers sys_init_def)
  from living.lives [OF this life_step.starts] have "sample_living (?l 1 (StartWorker # [AwaitStop, QueueShutDown]))"
    by simp
  from living.lives [OF this life_step.starts] have "sample_living (?l 2 [AwaitStop, QueueShutDown])"
    by (simp add: numeral_2_eq_2)
  moreover have "(sys_init [] idle)\<lparr>sysHands := replicate 2 None\<rparr> = booted"
    by (simp add: booted_def sys_init_def two_workers numeral_2_eq_2)
  ultimately show ?thesis by simp
qed

lemma living_at_work: "sample_living at_work"
proof -
  let ?l = "\<lambda>s. \<lparr>lfSys = s, lfSignals = signals_up, lfRun = [AwaitStop, QueueShutDown],
      lfShut = False, lfExit = None\<rparr>"
  have "life_step sample_cluster any_order out (?l booted) (?l told)" for out
    using life_step.works [of "?l booted" sample_cluster any_order told] step_told by simp
  from living.lives [OF living_booted this] have told: "sample_living (?l told)" .
  have "life_step sample_cluster any_order out (?l told) (?l busy)" for out
    using life_step.works [of "?l told" sample_cluster any_order busy] step_busy by simp
  from living.lives [OF told this] show ?thesis by (simp add: at_work_def)
qed

theorem shutdown_abandons_work_witness:
  "\<exists>l. sample_living l \<and> lfExit l = Some 0 \<and> sysHands (lfSys l) = [Some the_key, None]"
  using shutdown_abandons_work [OF living_at_work] by (auto simp: at_work_def busy_fields)


text \<open>Where the caches do not sync the process ends with status 1.\<close>

definition unsynced :: "unit life" where
  "unsynced = \<lparr>lfSys = sys_init [] idle, lfSignals = signals_up, lfRun = [], lfShut = True, lfExit = Some 1\<rparr>"

lemma living_unsynced: "living sample_cluster any_order False 2 idle unsynced"
proof -
  let ?l = "\<lambda>rs b. \<lparr>lfSys = sys_init [] idle, lfSignals = signals_up, lfRun = rs, lfShut = b, lfExit = None\<rparr>"
  have sg: "SetupSignalHandler signals_init = Ok signals_up"
    by (simp add: SetupSignalHandler_def signals_init_def signals_up_def)
  have "living sample_cluster any_order False 2 idle (?l [QueueShutDown] False)"
    using living.born [OF sg, of sample_cluster any_order False 2 idle] by (simp add: life_init_def Controller_Run_def)
  from living.lives [OF this life_step.shuts] have "living sample_cluster any_order False 2 idle (?l [] True)" by simp
  from living.lives [OF this life_step.returns] show ?thesis
    by (simp add: unsynced_def run_status_def Controller_Run_def)
qed


end
