(* ===== verification/Retrigger.thy ===== *)
theory Retrigger
  imports Reconciler
begin

text \<open>
  What the status update of a reconciliation sets off.  \<^verbatim>\<open>SetupWithManager\<close> registers the
  reconciler for the resource with no predicate, so that every change of the resource, its
  status included, is reconciled.  The API server is a parameter: \<open>stored\<close> is the resource it
  holds.
\<close>

section \<open>The registration\<close>

text \<open>
  \<^verbatim>\<open>For(...).Complete(r)\<close>: the predicates that filter the events, and the events that pass
  all of them.
\<close>

record watch_setup =
  wsType :: string
  wsPredicates :: "(KbRestStrategy \<Rightarrow> KbRestStrategy \<Rightarrow> bool) list"

definition kb_SetupWithManager :: watch_setup where
  "kb_SetupWithManager = \<lparr>wsType = ''RestStrategy'', wsPredicates = []\<rparr>"

text \<open>
  An update is delivered where the server's object changed (a write that changes nothing is
  none), and reconciled where every predicate lets it through.
\<close>

definition reconciled_again :: "watch_setup \<Rightarrow> KbRestStrategy \<Rightarrow> KbRestStrategy \<Rightarrow> bool" where
  "reconciled_again ws old new \<longleftrightarrow> old \<noteq> new \<and> list_all (\<lambda>p. p old new) (wsPredicates ws)"

section \<open>The API server\<close>

text \<open>
  A get answers with what is stored, and an update of the status changes the status and
  nothing else.
\<close>

definition documented_api ::
  "('w \<Rightarrow> KbRestStrategy) \<Rightarrow> ('w, 'o) RestStrategyReconciler \<Rightarrow> request_name \<Rightarrow> bool" where
  "documented_api stored R req \<longleftrightarrow>
     (\<forall>w. rcGet R w (rqNamespace req) (rqName req) = Inr (stored w)) \<and>
     (\<forall>w obj. stored (fst (rcUpdateStatus R w obj)) = (stored w)\<lparr>kbMessage := kbMessage obj\<rparr>)"

definition in_store :: "('w \<Rightarrow> KbRestStrategy) \<Rightarrow> 'w manager \<Rightarrow> KbRestStrategy" where
  "in_store stored s = stored (nWorld (mNet s))"

text \<open>The run of the actions leaves the resource itself alone.\<close>

definition leaves_resource ::
  "('w \<Rightarrow> KbRestStrategy) \<Rightarrow> ('w, 'o) RestStrategyReconciler \<Rightarrow> 'w manager \<Rightarrow> bool" where
  "leaves_resource stored R s \<longleftrightarrow>
     in_store stored (fst (reconcile_run R (kbSpec (in_store stored s)) s)) = in_store stored s"

lemma Reconcile_stores:
  assumes "documented_api stored R req" "leaves_resource stored R s" "Reconcile R req s = (s', out)" "out \<noteq> Panic"
  shows "in_store stored s' = (in_store stored s)\<lparr>kbMessage :=
    (case out of Fail e \<Rightarrow> FailedMessage req (err_text e) | _ \<Rightarrow> SuccessMessage req)\<rparr>"
proof -
  let ?obj = "in_store stored s"
  have get: "rcGet R (nWorld (mNet s)) (rqNamespace req) (rqName req) = Inr ?obj"
    using assms(1) by (simp add: documented_api_def in_store_def)
  obtain t o' where r: "reconcile_run R (kbSpec ?obj) s = (t, o')"
    by (cases "reconcile_run R (kbSpec ?obj) s")
  have t: "in_store stored t = ?obj" using assms(2) r by (simp add: leaves_resource_def)
  have up: "in_store stored (update_status R (?obj\<lparr>kbMessage := m\<rparr>) t) = ?obj\<lparr>kbMessage := m\<rparr>" for m
  proof -
    let ?o = "?obj\<lparr>kbMessage := m\<rparr>"
    obtain w res where u: "rcUpdateStatus R (nWorld (mNet t)) ?o = (w, res)"
      by (cases "rcUpdateStatus R (nWorld (mNet t)) ?o")
    have "stored (fst (rcUpdateStatus R (nWorld (mNet t)) ?o)) =
        (stored (nWorld (mNet t)))\<lparr>kbMessage := kbMessage ?o\<rparr>"
      using assms(1) unfolding documented_api_def by blast
    with u have "stored w = (in_store stored t)\<lparr>kbMessage := m\<rparr>" by (simp add: in_store_def)
    moreover have "in_store stored (update_status R ?o t) = stored w"
      unfolding update_status_def u by (simp add: in_store_def)
    ultimately show ?thesis unfolding t by simp
  qed
  show ?thesis using assms(3,4) get r up by (cases o') (auto simp: Reconcile_def)
qed

section \<open>Properties\<close>

text \<open>
  C25: The first success of a resource is run twice: its status update changes the
  resource, which is reconciled again, and where that succeeds too the actions of the
  resource have been run twice, each time in ascending order and each to success; only the
  second status update changes nothing and sets off nothing.
\<close>

theorem first_success_runs_twice:
  assumes "documented_sort (rcLib R)" "documented_api stored R req"
    "leaves_resource stored R s" "leaves_resource stored R s1"
    "kbMessage (in_store stored s) \<noteq> SuccessMessage req"
    "Reconcile R req s = (s1, Ok d)" "Reconcile R req s1 = (s2, Ok d')"
  shows "reconciled_again kb_SetupWithManager (in_store stored s) (in_store stored s1) \<and>
    \<not> reconciled_again kb_SetupWithManager (in_store stored s1) (in_store stored s2) \<and>
    (\<exists>as rs as' rs'. mset as = mset as' \<and>
       mset as = mset (map (\<lambda>v. WithHeader (WithName (Name v) v)) (kbSeeders (kbSpec (in_store stored s)))) \<and>
       sorted (map order_of as) \<and> sorted (map order_of as') \<and>
       list_all2 (ran (plan_of (xRest (rcLib R)))) as rs \<and> list_all2 (ran (plan_of (xRest (rcLib R)))) as' rs' \<and>
       (\<forall>r \<in> set rs \<union> set rs'. snd r \<noteq> Some False) \<and>
       net_events (mNet s2) = net_events (mNet s) @ calls_of rs @ calls_of rs')"
proof -
  have s1: "in_store stored s1 = (in_store stored s)\<lparr>kbMessage := SuccessMessage req\<rparr>"
    using Reconcile_stores [OF assms(2,3,6)] by simp
  have s2: "in_store stored s2 = (in_store stored s1)\<lparr>kbMessage := SuccessMessage req\<rparr>"
    using Reconcile_stores [OF assms(2,4,7)] by simp
  have get: "rcGet R (nWorld (mNet t)) (rqNamespace req) (rqName req) = Inr (in_store stored t)" for t
    using assms(2) by (simp add: documented_api_def in_store_def)
  have "in_store stored s \<noteq> in_store stored s1"
    using s1 assms(5) by (metis KbRestStrategy.select_convs(4) KbRestStrategy.surjective KbRestStrategy.update_convs(4))
  moreover have "in_store stored s1 = in_store stored s2" using s1 s2 by simp
  moreover have "kbSpec (in_store stored s1) = kbSpec (in_store stored s)" using s1 by simp
  moreover obtain as rs where
    "mset as = mset (map (\<lambda>v. WithHeader (WithName (Name v) v)) (kbSeeders (kbSpec (in_store stored s))))"
    "sorted (map order_of as)" "list_all2 (ran (plan_of (xRest (rcLib R)))) as rs"
    "\<forall>r \<in> set rs. snd r \<noteq> Some False" "net_events (mNet s1) = net_events (mNet s) @ calls_of rs"
    using Reconcile_Ok [OF assms(1) get assms(6)] by blast
  moreover obtain as' rs' where
    "mset as' = mset (map (\<lambda>v. WithHeader (WithName (Name v) v)) (kbSeeders (kbSpec (in_store stored s1))))"
    "sorted (map order_of as')" "list_all2 (ran (plan_of (xRest (rcLib R)))) as' rs'"
    "\<forall>r \<in> set rs'. snd r \<noteq> Some False" "net_events (mNet s2) = net_events (mNet s1) @ calls_of rs'"
    using Reconcile_Ok [OF assms(1) get assms(7)] by blast
  ultimately show ?thesis
    by (intro conjI exI [of _ as] exI [of _ rs] exI [of _ as'] exI [of _ rs'])
      (auto simp: reconciled_again_def kb_SetupWithManager_def)
qed

end
