(* ===== verification/Sample_Retrigger.thy ===== *)
theory Sample_Retrigger
  imports Retrigger Samples
begin

text \<open>A server that keeps the resource itself, and one action on an endpoint that answers.\<close>

definition api_ext :: "KbRestStrategy ext" where
  "api_ext = \<lparr>xEnvsubst = (\<lambda>e t. (t, None)), xJSONPath = whole_number,
     xClientToken = (\<lambda>w c. (w, Inl ''no token'')),
     xPasswordToken = (\<lambda>w c u p. (w, Inl ''no token''))\<rparr>"

definition api_lib :: "(KbRestStrategy, unit) lib" where
  "api_lib = \<lparr>xRest = api_ext, xHttpClient = (\<lambda>w rq. (w, answer 200 ''42'')),
     xAuthJson = (\<lambda>cm opts w am. (w, Inr am)), xActionJson = (\<lambda>cm opts w a. (w, Inr a)),
     xLongSort = insertion_sort\<rparr>"

definition stored_kb :: KbRestStrategy where
  "stored_kb = zero_KbRestStrategy\<lparr>kbName := ''n'',
     kbSpec := \<lparr>kbAuth = [example_basic], kbSeeders = [sample_action ''one'' POST None]\<rparr>\<rparr>"

definition api_reconciler :: "(KbRestStrategy, unit) RestStrategyReconciler" where
  "api_reconciler = \<lparr>rcLib = api_lib, rcGet = (\<lambda>w ns n. Inr w),
     rcUpdateStatus = (\<lambda>w ob. (w\<lparr>kbMessage := kbMessage ob\<rparr>, Inr ())),
     rcConfigManager = (\<lambda>w t c. (w, Inr t)), rcConfigManagerConfig = None, rcResyncPeriod = 12\<rparr>"

definition asked :: request_name where "asked = \<lparr>rqNamespace = ''ns'', rqName = ''n''\<rparr>"

definition before :: "KbRestStrategy manager" where
  "before = \<lparr>mNet = \<lparr>nWorld = stored_kb, nCalls = []\<rparr>, mEnv = no_env, mUpdates = []\<rparr>"

definition once :: "KbRestStrategy manager" where
  "once = fst (Reconcile api_reconciler asked before)"

definition twice :: "KbRestStrategy manager" where
  "twice = fst (Reconcile api_reconciler asked once)"

lemma reconciled_ok:
  "is_ok (snd (Reconcile api_reconciler asked before))" "is_ok (snd (Reconcile api_reconciler asked once))"
  by code_simp+

lemma left_alone:
  "leaves_resource (\<lambda>w. w) api_reconciler before" "leaves_resource (\<lambda>w. w) api_reconciler once"
  by code_simp+

lemma api_documented: "documented_api (\<lambda>w. w) api_reconciler asked"
  by (simp add: documented_api_def api_reconciler_def)

lemma ended_ok: "is_ok (snd m) \<Longrightarrow> \<exists>d. m = (fst m, Ok d)"
  by (cases m; cases "snd m") auto

theorem first_success_runs_twice_witness:
  "reconciled_again kb_SetupWithManager stored_kb (in_store (\<lambda>w. w) once) \<and>
   \<not> reconciled_again kb_SetupWithManager (in_store (\<lambda>w. w) once) (in_store (\<lambda>w. w) twice) \<and>
   (\<exists>rs rs'. net_events (mNet twice) = calls_of rs @ calls_of rs' \<and> calls_of rs @ calls_of rs' =
     [(''POST'', Success ''42''), (''POST'', Success ''42'')])"
proof -
  obtain d d' where r: "Reconcile api_reconciler asked before = (once, Ok d)"
    "Reconcile api_reconciler asked once = (twice, Ok d')"
    using reconciled_ok [THEN ended_ok] unfolding once_def twice_def by blast
  have sort: "documented_sort (rcLib api_reconciler)"
    by (simp add: documented_sort_def api_reconciler_def api_lib_def insertion_sort_sorted)
  have new: "kbMessage (in_store (\<lambda>w. w) before) \<noteq> SuccessMessage asked" by code_simp
  have b: "in_store (\<lambda>w. w) before = stored_kb" "net_events (mNet before) = []"
    by (simp_all add: in_store_def before_def net_events_def)
  have calls: "net_events (mNet twice) = [(''POST'', Success ''42''), (''POST'', Success ''42'')]"
    by code_simp
  obtain rs rs' where "reconciled_again kb_SetupWithManager (in_store (\<lambda>w. w) before) (in_store (\<lambda>w. w) once)"
    "\<not> reconciled_again kb_SetupWithManager (in_store (\<lambda>w. w) once) (in_store (\<lambda>w. w) twice)"
    "net_events (mNet twice) = net_events (mNet before) @ calls_of rs @ calls_of rs'"
    using first_success_runs_twice [OF sort api_documented left_alone new r] by blast
  with b calls show ?thesis by (intro conjI exI [of _ rs] exI [of _ rs']) simp_all
qed

text \<open>Two rounds for one request, with nothing changed in between: the call is made twice.\<close>

theorem requeues_rerun_witness:
  "\<exists>seg seg'. net_events (mNet twice) = seg @ seg' \<and>
     complete_calls (plan_of api_ext) (wanted api_reconciler asked before) seg \<and>
     complete_calls (plan_of api_ext) (wanted api_reconciler asked once) seg' \<and>
     seg @ seg' = [(''POST'', Success ''42''), (''POST'', Success ''42'')]"
proof -
  obtain d d' where r: "Reconcile api_reconciler asked before = (once, Ok d)"
    "Reconcile api_reconciler asked once = (twice, Ok d')"
    using reconciled_ok [THEN ended_ok] unfolding once_def twice_def by blast
  have sort: "documented_sort (rcLib api_reconciler)"
    by (simp add: documented_sort_def api_reconciler_def api_lib_def insertion_sort_sorted)
  have h: "history (reconcile_round api_reconciler asked) [\<lambda>u. u, \<lambda>u. u] before =
      (twice, [(before, Ok ()), (once, Ok ())])"
    by (simp add: reconcile_round_def r)
  have calls: "net_events (mNet twice) = [(''POST'', Success ''42''), (''POST'', Success ''42'')]"
    by code_simp
  have b: "net_events (mNet before) = []" by (simp add: before_def net_events_def)
  have x: "xRest (rcLib api_reconciler) = api_ext" by (simp add: api_reconciler_def api_lib_def)
  have side: "\<forall>f \<in> set [\<lambda>u. u, \<lambda>u. u]. \<forall>u. net_events (mNet (f u)) = net_events (mNet u)"
    "\<forall>(u, out) \<in> set [(before, Ok () :: unit outcome), (once, Ok ())]. out \<noteq> Panic" by simp_all
  from requeues_rerun [OF sort h side] obtain segs where
    s: "list_all2 (\<lambda>(u, out) seg. out = Ok () \<longrightarrow>
        complete_calls (plan_of (xRest (rcLib api_reconciler))) (wanted api_reconciler asked u) seg)
      [(before, Ok () :: unit outcome), (once, Ok ())] segs"
      "net_events (mNet twice) = net_events (mNet before) @ concat segs"
    by blast
  then obtain seg seg' where "segs = [seg, seg']" by (auto simp: list_all2_Cons1)
  with s b x calls show ?thesis by (intro exI [of _ seg] exI [of _ seg']) simp
qed

end
