(* ===== verification/Fake_Clientset.thy ===== *)
theory Fake_Clientset
  imports Clientset
begin

text \<open>
  The fake clientset, \<^verbatim>\<open>versioned/fake/clientset_generated.go\<close>, and the typed client it hands
  out (\<^verbatim>\<open>typed/.../fake/fake_reststrategy_client.go\<close>).  The object tracker and the chain of
  reactors of \<^verbatim>\<open>client-go/testing\<close> are parameters; the objects are the custom resources.
\<close>

section \<open>The clientset\<close>

type_synonym 'p reaction =
  "group_version_resource \<Rightarrow> 'p fake_action \<Rightarrow> bool \<times> RestStrategy option \<times> string option"
type_synonym 'v watch_reaction = "group_version_resource \<Rightarrow> string \<Rightarrow> bool \<times> 'v option \<times> string option"

record ('t, 's, 'p, 'v) testing =
  tkNew :: "'s \<Rightarrow> 't"
  tkAdd :: "RestStrategy \<Rightarrow> 't \<Rightarrow> string + 't"
  tkReaction :: "'t \<Rightarrow> 'p reaction"
  tkWatch :: "'t \<Rightarrow> group_version_resource \<Rightarrow> string \<Rightarrow> string + 'v"
  tkInvokes :: "(string \<times> string \<times> 'p reaction) list \<Rightarrow> group_version_resource
     \<Rightarrow> ('p, RestStrategy) invokes"

record ('t, 'p, 'v) fake_clientset =
  csTracker :: 't
  csReactors :: "(string \<times> string \<times> 'p reaction) list"
  csWatchReactors :: "(string \<times> 'v watch_reaction) list"

fun add_objects :: "('t, 's, 'p, 'v) testing \<Rightarrow> RestStrategy list \<Rightarrow> 't \<Rightarrow> 't outcome" where
  "add_objects T [] t = Ok t"
| "add_objects T (obj # objs) t =
     (case tkAdd T obj t of Inl err \<Rightarrow> Panic | Inr t' \<Rightarrow> add_objects T objs t')"

definition watch_reactor :: "('t, 's, 'p, 'v) testing \<Rightarrow> 't \<Rightarrow> 'v watch_reaction" where
  "watch_reactor T t gvr ns =
     (case tkWatch T t gvr ns of
        Inl err \<Rightarrow> (False, None, Some err)
      | Inr watch \<Rightarrow> (True, Some watch, None))"

definition NewSimpleClientset ::
  "('t, 's, 'p, 'v) testing \<Rightarrow> 's \<Rightarrow> RestStrategy list \<Rightarrow> ('t, 'p, 'v) fake_clientset outcome" where
  "NewSimpleClientset T scheme objects =
     (case add_objects T objects (tkNew T scheme) of
        Ok t \<Rightarrow> Ok \<lparr>csTracker = t, csReactors = [(''*'', ''*'', tkReaction T t)],
                  csWatchReactors = [(''*'', watch_reactor T t)]\<rparr>
      | Fail e \<Rightarrow> Fail e
      | Panic \<Rightarrow> Panic)"

text \<open>
  \<^verbatim>\<open>ReststrategyV1alpha1().RestStrategies(ns)\<close>: each method hands its action, with the resource
  of the generated code, to the reactors of the clientset it came from.
\<close>

record 'p FakeRestStrategies =
  fakeInvokes :: "('p, RestStrategy) invokes"
  fakeNs :: string

definition fake_typed_client ::
  "('t, 's, 'p, 'v) testing \<Rightarrow> ('t, 'p, 'v) fake_clientset \<Rightarrow> string \<Rightarrow> 'p FakeRestStrategies" where
  "fake_typed_client T cs namespace =
     \<lparr>fakeInvokes = tkInvokes T (csReactors cs) reststrategiesResource, fakeNs = namespace\<rparr>"

section \<open>What client-go documents\<close>

text \<open>The first object of a name in a namespace.\<close>

definition lookup_object :: "string \<Rightarrow> string \<Rightarrow> RestStrategy list \<Rightarrow> RestStrategy option" where
  "lookup_object ns name objs = find (\<lambda>rs. rsNamespace rs = ns \<and> rsName rs = name) objs"

text \<open>
  The tracker holds what was added, under the groups and versions its type is registered
  with in the scheme, and answers a get of anything else with an error; a reactor for every
  verb and resource is asked first and its answer, where it handles the action, is the
  answer of the fake.
\<close>

definition registered_as :: "'s scheme_ops \<Rightarrow> 's \<Rightarrow> group_version_resource \<Rightarrow> bool" where
  "registered_as R scheme gvr \<longleftrightarrow>
     (\<exists>k \<in> set (opObjectKinds R scheme ''RestStrategy'').
        gvr = \<lparr>gvrGroup = gvkGroup k, gvrVersion = gvkVersion k, gvrResource = ''reststrategies''\<rparr>)"

definition documented_testing :: "('t, 's, 'p, 'v) testing \<Rightarrow> 's scheme_ops \<Rightarrow> bool" where
  "documented_testing T R \<longleftrightarrow>
     (\<forall>scheme objs t gvr ns name. add_objects T objs (tkNew T scheme) = Ok t \<longrightarrow>
        (\<exists>obj err. tkReaction T t gvr (GetAction ns name) = (True, obj, err) \<and>
           obj = (if registered_as R scheme gvr then lookup_object ns name objs else None) \<and>
           (err = None \<longleftrightarrow> obj \<noteq> None))) \<and>
     (\<forall>f rs gvr a. fst (f gvr a) \<longrightarrow> tkInvokes T ((''*'', ''*'', f) # rs) gvr a = snd (f gvr a))"

lemma lookup_object_some:
  "rs \<in> set objs \<Longrightarrow> lookup_object (rsNamespace rs) (rsName rs) objs \<noteq> None"
  by (auto simp: lookup_object_def find_None_iff)

lemma fake_get:
  assumes "documented_testing T R" "NewSimpleClientset T scheme objs = Ok cs"
  shows "\<exists>obj err. tkInvokes T (csReactors cs) gvr (GetAction ns name) = (obj, err) \<and>
    obj = (if registered_as R scheme gvr then lookup_object ns name objs else None) \<and>
    (err = None \<longleftrightarrow> obj \<noteq> None)"
proof -
  obtain t where t: "add_objects T objs (tkNew T scheme) = Ok t"
    "csReactors cs = [(''*'', ''*'', tkReaction T t)]"
    using assms(2) by (auto simp: NewSimpleClientset_def split: res.splits)
  note doc = assms(1) [unfolded documented_testing_def]
  from doc [THEN conjunct1, rule_format, OF t(1), of gvr ns name] obtain obj err where
    r: "tkReaction T t gvr (GetAction ns name) = (True, obj, err)"
      "obj = (if registered_as R scheme gvr then lookup_object ns name objs else None)"
      "err = None \<longleftrightarrow> obj \<noteq> None"
    by blast
  from doc [THEN conjunct2, rule_format, of "tkReaction T t" gvr "GetAction ns name" "[]"] r(1)
  have "tkInvokes T (csReactors cs) gvr (GetAction ns name) = (obj, err)" by (simp add: t(2))
  with r(2,3) show ?thesis by blast
qed

lemma registered_groups:
  assumes "opObjectKinds R scheme ''RestStrategy'' = [WithKind SchemeGroupVersion ''RestStrategy'']"
  shows "registered_as R scheme gvr \<longleftrightarrow> gvr = WithResource SchemeGroupVersion ''reststrategies''"
  using assms by (auto simp: registered_as_def WithKind_def WithResource_def)

section \<open>Properties\<close>

text \<open>
  The fake does not answer with the objects it was given: they are tracked under
  the group the types are registered in, \<^verbatim>\<open>dnitsch.net\<close>, where the informer and the real
  client look too, while the fake's methods ask for \<^verbatim>\<open>reststrategy.dnitsch.net\<close> and report an
  error for each of them.
\<close>

theorem preloaded_not_found:
  assumes "documented_scheme R" "init_scheme R = Ok scheme" "documented_testing T R"
    "NewSimpleClientset T scheme objs = Ok cs" "rs \<in> set objs"
  shows "(\<exists>err. fake_Get (fakeInvokes (fake_typed_client T cs (rsNamespace rs)))
        (rsNamespace rs) (rsName rs) opts = (None, Some err)) \<and>
    (\<exists>rs'. tkInvokes T (csReactors cs) (WithResource SchemeGroupVersion ''reststrategies'')
        (GetAction (rsNamespace rs) (rsName rs)) = (Some rs', None))"
proof -
  have kinds: "opObjectKinds R scheme ''RestStrategy'' = [WithKind SchemeGroupVersion ''RestStrategy'']"
    using init_scheme_kinds [OF assms(1)] assms(2) by (auto simp: rest_types_def)
  note reg = registered_groups [OF kinds]
  from fake_get [OF assms(3,4), of reststrategiesResource "rsNamespace rs" "rsName rs"]
  have "\<exists>err. tkInvokes T (csReactors cs) reststrategiesResource
      (GetAction (rsNamespace rs) (rsName rs)) = (None, Some err)"
    by (auto simp: reg fake_group)
  moreover from fake_get [OF assms(3,4), of "WithResource SchemeGroupVersion ''reststrategies''"
      "rsNamespace rs" "rsName rs"] lookup_object_some [OF assms(5)]
  have "\<exists>rs'. tkInvokes T (csReactors cs) (WithResource SchemeGroupVersion ''reststrategies'')
      (GetAction (rsNamespace rs) (rsName rs)) = (Some rs', None)"
    by (auto simp: reg)
  ultimately show ?thesis by (auto simp: fake_typed_client_def fake_Get_def fake_result_def)
qed

section \<open>An instance of the parameters\<close>

definition list_scheme :: "(string \<times> group_version_kind) list scheme_ops" where
  "list_scheme = \<lparr>opNewScheme = [],
     opAddKnownTypes = (\<lambda>gv ts s. s @ map (\<lambda>t. (t, WithKind gv t))
        (filter (\<lambda>t. (t, WithKind gv t) \<notin> set s) (remdups ts))),
     opAddToGroupVersion = (\<lambda>gv s. s),
     opObjectKinds = (\<lambda>s t. map snd (filter (\<lambda>p. fst p = t) s))\<rparr>"

lemma list_scheme_documented: "documented_scheme list_scheme"
proof -
  have pairs: "filter (\<lambda>p. fst p = t) (map (\<lambda>t. (t, k t)) ts) = (if t \<in> set ts then [(t, k t)] else [])"
    if "distinct ts" for t and k :: "string \<Rightarrow> group_version_kind" and ts
    using that by (induction ts) auto
  have "(t, k) \<in> set s \<longleftrightarrow> k \<in> snd ` {x \<in> set s. fst x = t}"
    for s :: "(string \<times> group_version_kind) list" and t k
    by force
  then show ?thesis
    by (auto simp: documented_scheme_def list_scheme_def pairs [OF distinct_filter [OF distinct_remdups]])
qed

definition list_testing ::
  "((string \<times> group_version_kind) list \<times> RestStrategy list, (string \<times> group_version_kind) list, unit, unit) testing"
  where
  "list_testing = \<lparr>tkNew = (\<lambda>s. (s, [])), tkAdd = (\<lambda>rs t. Inr (fst t, snd t @ [rs])),
     tkReaction = (\<lambda>t gvr a.
        (case a of
           GetAction ns name \<Rightarrow>
             (case (if list_ex (\<lambda>k. gvr = \<lparr>gvrGroup = gvkGroup k, gvrVersion = gvkVersion k,
                         gvrResource = ''reststrategies''\<rparr>)
                      (opObjectKinds list_scheme (fst t) ''RestStrategy'')
                    then lookup_object ns name (snd t) else None) of
                Some rs \<Rightarrow> (True, Some rs, None)
              | None \<Rightarrow> (True, None, Some ''not found''))
         | _ \<Rightarrow> (False, None, None))),
     tkWatch = (\<lambda>t gvr ns. Inr ()),
     tkInvokes = (\<lambda>rs gvr a.
        (case rs of [] \<Rightarrow> (None, None) | (v, r, f) # others \<Rightarrow>
           if fst (f gvr a) then snd (f gvr a) else (None, None)))\<rparr>"

lemma list_testing_add:
  "add_objects list_testing objs t = Ok (fst t, snd t @ objs)"
  by (induction objs arbitrary: t) (simp_all add: list_testing_def)

lemma list_testing_documented: "documented_testing list_testing list_scheme"
proof -
  have "add_objects list_testing objs (tkNew list_testing scheme) = Ok (scheme, objs)" for scheme objs
    by (simp add: list_testing_add) (simp add: list_testing_def)
  moreover have "\<exists>obj err. tkReaction list_testing (scheme, objs) gvr (GetAction ns name) = (True, obj, err) \<and>
      obj = (if registered_as list_scheme scheme gvr then lookup_object ns name objs else None) \<and>
      (err = None \<longleftrightarrow> obj \<noteq> None)" for scheme objs gvr ns name
    by (auto simp: list_testing_def registered_as_def list_ex_iff split: option.split)
  ultimately show ?thesis
    by (auto simp: documented_testing_def) (simp add: list_testing_def)
qed

theorem preloaded_not_found_witness:
  "\<exists>scheme cs err. init_scheme list_scheme = Ok scheme \<and>
     NewSimpleClientset list_testing scheme [zero_RestStrategy] = Ok cs \<and>
     fake_Get (fakeInvokes (fake_typed_client list_testing cs [])) [] [] () = (None, Some err)"
proof -
  obtain scheme where s: "init_scheme list_scheme = Ok scheme"
    using init_scheme_kinds [OF list_scheme_documented] by blast
  obtain cs where c: "NewSimpleClientset list_testing scheme [zero_RestStrategy] = Ok cs"
    by (simp add: NewSimpleClientset_def list_testing_add del: add_objects.simps)
  have z: "rsNamespace zero_RestStrategy = []" "rsName zero_RestStrategy = []"
    by (simp_all add: zero_RestStrategy_def)
  from preloaded_not_found [OF list_scheme_documented s list_testing_documented c, of zero_RestStrategy "()"]
  show ?thesis using s c z by auto
qed

end
