(* ===== verification/Test_Cluster.thy ===== *)
theory Test_Cluster
  imports Reconciler
begin

text \<open>
  \<^verbatim>\<open>kube-testing-tools/pkg/cluster/cluster.go\<close>: the cluster the integration tests run in.
  kind's provider, the loader of the kube configuration and the API server's pods are
  parameters; \<^verbatim>\<open>strings.HasSuffix\<close> and \<^verbatim>\<open>path.Join\<close> of the standard library are modelled.
  \<^verbatim>\<open>t.Fatal\<close>, which ends the test, is the outcome Fail; \<^verbatim>\<open>t.Errorf\<close> adds to a list.
\<close>

section \<open>Suffixes and paths\<close>

definition HasSuffix :: "string \<Rightarrow> string \<Rightarrow> bool" where
  "HasSuffix s t \<longleftrightarrow> length t \<le> length s \<and> drop (length s - length t) s = t"

fun components :: "string \<Rightarrow> string list" where
  "components [] = [[]]"
| "components (c # cs) =
     (if c = CHR ''/'' then [] # components cs
      else (case components cs of [] \<Rightarrow> [[c]] | x # xs \<Rightarrow> (c # x) # xs))"

text \<open>The cleaned components, the last one first.\<close>

definition clean_step :: "bool \<Rightarrow> string \<Rightarrow> string list \<Rightarrow> string list" where
  "clean_step rooted c out =
     (if c = [] \<or> c = ''.'' then out
      else if c = ''..'' then
        (case out of [] \<Rightarrow> if rooted then [] else [c] | d # ds \<Rightarrow> if d = ''..'' then c # out else ds)
      else c # out)"

definition path_Clean :: "string \<Rightarrow> string" where
  "path_Clean p =
     (let rooted = (p \<noteq> [] \<and> hd p = CHR ''/'');
          out = rev (fold (clean_step rooted) (components p) []);
          t = (if rooted then ''/'' else []) @ join ''/'' out
      in if t = [] then ''.'' else t)"

definition path_Join :: "string \<Rightarrow> string \<Rightarrow> string" where
  "path_Join a b =
     (if a = [] \<and> b = [] then [] else path_Clean (if a = [] then b else a @ ''/'' @ b))"

section \<open>The tester and its configuration\<close>

record ClusterTester =
  ctName :: string
  ctEnsureUp :: bool

record 'c KubeConfig =
  isInCI :: bool
  k8sConfigPath :: string
  kindConfig :: "'c option"
  masterUrl :: string

datatype provider_option = ProviderWithLogger | ProviderWithDocker | ProviderWithPodman

definition detectContainerImp :: "environ \<Rightarrow> provider_option option" where
  "detectContainerImp e =
     (case e ''DOCKER_HOST'' of
        None \<Rightarrow> None
      | Some imp \<Rightarrow>
          if HasSuffix imp ''docker.sock'' then Some ProviderWithDocker
          else if HasSuffix imp ''podman.sock'' then Some ProviderWithPodman
          else None)"

text \<open>
  \<^verbatim>\<open>user.Current()\<close> is the home directory of the user, or none with an error that is dropped,
  after which the user is nil.
\<close>

definition DetermineKubeConfig :: "string option \<Rightarrow> 'c KubeConfig outcome" where
  "DetermineKubeConfig current =
     (case current of
        None \<Rightarrow> Panic
      | Some home \<Rightarrow>
          Ok \<lparr>isInCI = False, k8sConfigPath = path_Join home ''.kube/config'', kindConfig = None,
              masterUrl = []\<rparr>)"

section \<open>Starting and deleting the cluster\<close>

datatype 'c create_option =
  CreateWithNodeImage string | CreateWithRetain bool | CreateWithWaitForReady duration
| CreateWithKubeconfigPath string | CreateWithDisplayUsage bool | CreateWithDisplaySalutation bool
| CreateWithV1Alpha4Config 'c

record ('w, 'c) kind =
  kdCreate :: "provider_option list \<Rightarrow> string \<Rightarrow> 'c create_option list \<Rightarrow> 'w \<Rightarrow> 'w \<times> string option"
  kdDelete :: "provider_option list \<Rightarrow> string \<Rightarrow> string \<Rightarrow> 'w \<Rightarrow> 'w \<times> string option"

text \<open>The closure the caller is left with.\<close>

datatype teardown = DoNothing | DeleteCluster "provider_option list" string string

definition create_options :: "'c KubeConfig \<Rightarrow> 'c create_option list" where
  "create_options k =
     [CreateWithNodeImage [], CreateWithRetain False, CreateWithWaitForReady (Second * 60),
      CreateWithKubeconfigPath (k8sConfigPath k), CreateWithDisplayUsage False,
      CreateWithDisplaySalutation False] @
     (if isInCI k \<and> kindConfig k \<noteq> None then [CreateWithV1Alpha4Config (the (kindConfig k))] else [])"

definition StartCluster ::
  "('w, 'c) kind \<Rightarrow> environ \<Rightarrow> ClusterTester \<Rightarrow> 'c KubeConfig \<Rightarrow> 'w \<Rightarrow> 'w \<times> teardown outcome" where
  "StartCluster K e c k w =
     (case detectContainerImp e of
        None \<Rightarrow> (w, Ok DoNothing)
      | Some impProvider \<Rightarrow>
          let provider = [ProviderWithLogger] @ [impProvider] in
          (case kdCreate K provider (ctName c) (create_options k) w of
             (w', Some err) \<Rightarrow> (w', Fail (Plain (''failed to create cluster: '' @ err)))
           | (w', None) \<Rightarrow> (w', Ok (DeleteCluster provider (ctName c) (k8sConfigPath k)))))"

definition tear_down :: "('w, 'c) kind \<Rightarrow> teardown \<Rightarrow> 'w \<times> string list \<Rightarrow> 'w \<times> string list" where
  "tear_down K t s =
     (case t of
        DoNothing \<Rightarrow> s
      | DeleteCluster provider name path \<Rightarrow>
          (case kdDelete K provider name path (fst s) of
             (w, Some err) \<Rightarrow> (w, snd s @ [''failed to tear down kind cluster: '' @ err])
           | (w, None) \<Rightarrow> (w, snd s)))"

section \<open>The client\<close>

definition KubeClientSetup ::
  "(string \<Rightarrow> string \<Rightarrow> string + 'cfg) \<Rightarrow> ('cfg \<Rightarrow> string + 'client) \<Rightarrow> 'c KubeConfig
   \<Rightarrow> string + 'client \<times> 'cfg" where
  "KubeClientSetup buildConfig newForConfig k =
     (case buildConfig (masterUrl k) (k8sConfigPath k) of
        Inl err \<Rightarrow> Inl (''failed to initialise client from config: '' @ err)
      | Inr cfg \<Rightarrow>
          (case newForConfig cfg of
             Inl err \<Rightarrow> Inl (''error building kubernetes clientset: '' @ err)
           | Inr kubeClient \<Rightarrow> Inr (kubeClient, cfg)))"

section \<open>Waiting for the API server\<close>

text \<open>
  A pod is read by its phase; the typed client hands out an empty pod with an error.  The
  result counts the attempts, after each of which the loop sleeps two seconds.
\<close>

type_synonym 'w get_pod = "string \<Rightarrow> 'w \<Rightarrow> 'w \<times> string \<times> string option"

definition attempt :: "'w get_pod \<Rightarrow> string \<Rightarrow> nat \<Rightarrow> bool \<Rightarrow> 'w \<Rightarrow> 'w \<times> bool" where
  "attempt fetch name attempts keepTrying w =
     (case fetch name w of (w', phase, err) \<Rightarrow>
        let keepTrying = (if err \<noteq> None then False else keepTrying);
            keepTrying = (if attempts < 10 then phase \<noteq> ''Running'' else False)
        in (w', keepTrying))"

function reach_loop :: "'w get_pod \<Rightarrow> string \<Rightarrow> nat \<Rightarrow> bool \<Rightarrow> 'w \<Rightarrow> nat \<times> 'w" where
  "reach_loop fetch name attempts keepTrying w =
     (if keepTrying
      then (case attempt fetch name (attempts + 1) keepTrying w of
              (w', keepTrying) \<Rightarrow> reach_loop fetch name (attempts + 1) keepTrying w')
      else (attempts, w))"
  by pat_completeness auto

termination
  by (relation "measure (\<lambda>(fetch, name, attempts, keepTrying, w).
        (11 - attempts) + (if keepTrying then 1 else 0))")
    (auto simp: attempt_def Let_def split: prod.splits if_splits)

declare reach_loop.simps [simp del]

definition api_pod :: "ClusterTester \<Rightarrow> string" where
  "api_pod c = ''kube-apiserver-'' @ ctName c @ ''-control-plane''"

definition EnsureReachable :: "'w get_pod \<Rightarrow> ClusterTester \<Rightarrow> 'w \<Rightarrow> (nat \<times> 'w) \<times> bool" where
  "EnsureReachable fetch c w =
     (if \<not> ctEnsureUp c then ((0, w), True)
      else (reach_loop fetch (api_pod c) 0 True w, False))"

section \<open>The configuration file\<close>

lemma components_nonempty [simp]: "components s \<noteq> []"
  by (induction s) (auto split: list.splits)

lemma components_slash: "components (a @ CHR ''/'' # b) = components a @ components b"
proof (induction a)
  case (Cons c a)
  then show ?case by (cases "components a") auto
qed simp

lemma join_two:
  "join sep (xs @ [a, b]) = (if xs = [] then [] else join sep xs @ sep) @ a @ sep @ b"
  by (cases xs) (simp_all add: join_def)

lemma path_Clean_ends:
  assumes "components p = xs @ [a, b]" "a \<notin> {[], ''.'', ''..''}" "b \<notin> {[], ''.'', ''..''}"
  shows "\<exists>d. path_Clean p = d @ a @ ''/'' @ b"
proof -
  define rooted where "rooted = (p \<noteq> [] \<and> hd p = CHR ''/'')"
  have "rev (fold (clean_step rooted) (components p) []) = rev (fold (clean_step rooted) xs []) @ [a, b]"
    using assms by (simp add: clean_step_def)
  then show ?thesis
    by (simp add: path_Clean_def Let_def rooted_def [symmetric] join_two)
qed

text \<open>Whatever the home directory, the file is \<^verbatim>\<open>.kube/config\<close> in it.\<close>

lemma DetermineKubeConfig_path:
  assumes "DetermineKubeConfig (Some home) = Ok k"
  shows "\<exists>d. k8sConfigPath k = d @ ''.kube/config'' \<and> \<not> isInCI k \<and> kindConfig k = None"
proof -
  let ?p = "if home = [] then ''.kube/config'' else home @ ''/'' @ ''.kube/config''"
  have kube: "components ''.kube/config'' = [''.kube'', ''config'']" by code_simp
  have "components ?p = (if home = [] then [] else components home) @ [''.kube'', ''config'']"
    using components_slash [of home "''.kube/config''"] kube by simp
  from path_Clean_ends [OF this] obtain d where "path_Join home ''.kube/config'' = d @ ''.kube/config''"
    by (auto simp: path_Join_def)
  then show ?thesis using assms by (auto simp: DetermineKubeConfig_def)
qed

section \<open>Waiting ends\<close>

text \<open>The world after n attempts, and the phase the n-th one saw.\<close>

fun probe_world :: "'w get_pod \<Rightarrow> string \<Rightarrow> 'w \<Rightarrow> nat \<Rightarrow> 'w" where
  "probe_world fetch name w 0 = w"
| "probe_world fetch name w (Suc n) = fst (fetch name (probe_world fetch name w n))"

definition phase_seen :: "'w get_pod \<Rightarrow> string \<Rightarrow> 'w \<Rightarrow> nat \<Rightarrow> string" where
  "phase_seen fetch name w n = fst (snd (fetch name (probe_world fetch name w (n - 1))))"

lemma reach_loop_next:
  "reach_loop fetch name k True (probe_world fetch name w k) =
     (if k + 1 < 10 \<and> phase_seen fetch name w (k + 1) \<noteq> ''Running''
      then reach_loop fetch name (k + 1) True (probe_world fetch name w (k + 1))
      else (k + 1, probe_world fetch name w (k + 1)))"
  by (subst reach_loop.simps)
    (auto simp: attempt_def Let_def phase_seen_def reach_loop.simps [of _ _ _ False] split: prod.splits)

lemma reach_loop_stops:
  assumes "k < 10"
  shows "\<exists>n. reach_loop fetch name k True (probe_world fetch name w k) = (n, probe_world fetch name w n) \<and>
    k < n \<and> n \<le> 10 \<and> (n < 10 \<longrightarrow> phase_seen fetch name w n = ''Running'') \<and>
    (\<forall>i. k < i \<and> i < n \<longrightarrow> phase_seen fetch name w i \<noteq> ''Running'')"
  using assms
proof (induction "10 - k" arbitrary: k)
  case (Suc d)
  show ?case
  proof (cases "k + 1 < 10 \<and> phase_seen fetch name w (k + 1) \<noteq> ''Running''")
    case True
    with Suc.hyps(2) have "d = 10 - (k + 1)" "k + 1 < 10" by simp_all
    from Suc.hyps(1) [OF this] obtain n where
      n: "reach_loop fetch name (k + 1) True (probe_world fetch name w (k + 1)) = (n, probe_world fetch name w n)"
        "k + 1 < n" "n \<le> 10" "n < 10 \<longrightarrow> phase_seen fetch name w n = ''Running''"
        "\<forall>i. k + 1 < i \<and> i < n \<longrightarrow> phase_seen fetch name w i \<noteq> ''Running''" by blast
    have "phase_seen fetch name w i \<noteq> ''Running''" if "k < i" "i < n" for i
      using True n(5) that by (cases "i = k + 1") simp_all
    moreover have "reach_loop fetch name k True (probe_world fetch name w k) = (n, probe_world fetch name w n)"
      using True n(1) by (subst reach_loop_next) simp
    ultimately show ?thesis using n(2-4) by (intro exI [of _ n]) simp
  next
    case False
    then have "reach_loop fetch name k True (probe_world fetch name w k) = (k + 1, probe_world fetch name w (k + 1))"
      by (subst reach_loop_next) auto
    moreover have "k + 1 < 10 \<longrightarrow> phase_seen fetch name w (k + 1) = ''Running''" using False by blast
    ultimately show ?thesis using Suc.prems by (intro exI [of _ "k + 1"]) auto
  qed
qed simp

section \<open>Properties\<close>

text \<open>
  C37: Waiting for the cluster ends after at most ten attempts, at the first that sees
  the API server's pod running, and an error does not end it; but it then reports False, so
  that a cluster that is asked to be up is never reported reachable.
\<close>

theorem EnsureReachable_gives_up:
  assumes "ctEnsureUp c"
  shows "\<exists>n. EnsureReachable fetch c w = ((n, probe_world fetch (api_pod c) w n), False) \<and>
    0 < n \<and> n \<le> 10 \<and> (n < 10 \<longrightarrow> phase_seen fetch (api_pod c) w n = ''Running'') \<and>
    (\<forall>i. 0 < i \<and> i < n \<longrightarrow> phase_seen fetch (api_pod c) w i \<noteq> ''Running'')"
  using reach_loop_stops [of 0 fetch "api_pod c" w] assms by (auto simp: EnsureReachable_def)

text \<open>
  What the caller tears down is the cluster that was created: the same provider, name and
  configuration file; where there is no container engine nothing was created and nothing
  is deleted, and where the creation fails the test ends with no teardown.
\<close>

theorem StartCluster_lifecycle:
  "case StartCluster K e c k w of
     (w', Ok t) \<Rightarrow>
       (case detectContainerImp e of
          None \<Rightarrow> w' = w \<and> t = DoNothing
        | Some imp \<Rightarrow> kdCreate K [ProviderWithLogger, imp] (ctName c) (create_options k) w = (w', None) \<and>
            t = DeleteCluster [ProviderWithLogger, imp] (ctName c) (k8sConfigPath k))
   | (w', Fail d) \<Rightarrow> \<exists>imp err. detectContainerImp e = Some imp \<and>
       kdCreate K [ProviderWithLogger, imp] (ctName c) (create_options k) w = (w', Some err) \<and>
       err_text d = ''failed to create cluster: '' @ err
   | (w', Panic) \<Rightarrow> False"
  by (auto simp: StartCluster_def Let_def split: option.split prod.split)

text \<open>An API server that is still starting on the first attempt and runs on the second.\<close>

definition slow_pod :: "nat get_pod" where
  "slow_pod name w = (w + 1, if w = 0 then (''Pending'', Some ''refused'') else (''Running'', None))"

theorem EnsureReachable_gives_up_witness:
  "EnsureReachable slow_pod \<lparr>ctName = ''c'', ctEnsureUp = True\<rparr> 0 = ((2, 2), False)"
proof -
  let ?c = "\<lparr>ctName = ''c'', ctEnsureUp = True\<rparr>"
  from EnsureReachable_gives_up [of ?c slow_pod 0] obtain n where
    n: "EnsureReachable slow_pod ?c 0 = ((n, probe_world slow_pod (api_pod ?c) 0 n), False)" "0 < n"
      "n < 10 \<longrightarrow> phase_seen slow_pod (api_pod ?c) 0 n = ''Running''" "n \<le> 10"
      "\<forall>i. 0 < i \<and> i < n \<longrightarrow> phase_seen slow_pod (api_pod ?c) 0 i \<noteq> ''Running''" by auto
  have w: "probe_world slow_pod m 0 i = i" for m i
    by (induction i) (simp_all add: slow_pod_def)
  have p: "phase_seen slow_pod m 0 i = (if i \<le> 1 then ''Pending'' else ''Running'')" for m i
    by (auto simp: phase_seen_def w) (simp_all add: slow_pod_def)
  have "n \<noteq> 1" using n(3) p by auto
  moreover have "\<not> 2 < n" using n(5) [rule_format, of 2] p by auto
  ultimately have "n = 2" using n(2) by simp
  with n(1) w show ?thesis by simp
qed

end
