(* ===== verification/Store.thy ===== *)
theory Store
  imports Prelude "HOL-Library.Monad_Syntax" "HOL-Library.Sublist"
begin

text \<open>
  An explicit store for the deep copies: addresses are positions in a list of cells, so
  that allocating extends the list and a write changes one position.  A copier takes a
  Go value, whose references are addresses, to one whose references are new; None is a
  panic.  The contract of a deep copy is a locale; copiers of references, slices, maps,
  pairs and structs have it where the copiers of their parts do.
\<close>

section \<open>Copiers\<close>

type_synonym 'c heap = "'c list"
type_synonym ref = "nat option"
type_synonym ('c, 'm) copier = "'c heap \<Rightarrow> 'm \<Rightarrow> ('c heap \<times> 'm) option"

text \<open>What assignment copies.\<close>

definition copy_plain :: "('c, 'm) copier" where
  "copy_plain h m = Some (h, m)"

text \<open>
  A pointer, a slice or a map, which may be nil: the cell is copied and the copy stored at
  a new address.  (Go allocates before it fills the cell; addresses are not observable.)
\<close>

definition copy_new :: "('c \<Rightarrow> 'm) \<Rightarrow> ('m \<Rightarrow> 'c) \<Rightarrow> ('c, 'm) copier \<Rightarrow> ('c, ref) copier" where
  "copy_new get put copy h r =
     (case r of
        None \<Rightarrow> Some (h, None)
      | Some a \<Rightarrow> do {
          (h1, m) \<leftarrow> copy h (get (h ! a));
          Some (h1 @ [put m], Some (length h1))
        })"

fun copy_list :: "('c, 'm) copier \<Rightarrow> ('c, 'm list) copier" where
  "copy_list copy h [] = Some (h, [])"
| "copy_list copy h (m # ms) = do {
     (h1, m') \<leftarrow> copy h m;
     (h2, ms') \<leftarrow> copy_list copy h1 ms;
     Some (h2, m' # ms')
   }"

text \<open>The loop \<^verbatim>\<open>for key, val := range *in { (*out)[key] = ... }\<close> and its whole.\<close>

fun copy_loop :: "('c, 'm) copier \<Rightarrow> 'c heap \<Rightarrow> 'm gomap \<Rightarrow> 'm gomap \<Rightarrow> ('c heap \<times> 'm gomap) option" where
  "copy_loop copy h [] out = Some (h, out)"
| "copy_loop copy h ((key, val) # m) out = do {
     (h1, val') \<leftarrow> copy h val;
     copy_loop copy h1 m (mput key val' out)
   }"

definition copy_map :: "('c, 'm) copier \<Rightarrow> ('c, 'm gomap) copier" where
  "copy_map copy h m = copy_loop copy h m []"

definition copy_pair :: "('c, 'm) copier \<Rightarrow> ('c, 'n) copier \<Rightarrow> ('c, 'm \<times> 'n) copier" where
  "copy_pair copy1 copy2 h mn = do {
     (h1, m) \<leftarrow> copy1 h (fst mn);
     (h2, n) \<leftarrow> copy2 h1 (snd mn);
     Some (h2, (m, n))
   }"

text \<open>\<^verbatim>\<open>*val.DeepCopy()\<close>: the copy is made at a new address and read from there.\<close>

definition copy_deref :: "('m \<Rightarrow> 'c) \<Rightarrow> ('c, 'm) copier \<Rightarrow> ('c, 'm) copier" where
  "copy_deref put copy h m = do {
     (h1, m') \<leftarrow> copy h m;
     Some (h1 @ [put m'], m')
   }"

text \<open>A struct: its parts with references are taken out, copied and put back.\<close>

definition copy_parts :: "('s \<Rightarrow> 'm) \<Rightarrow> ('s \<Rightarrow> 'm \<Rightarrow> 's) \<Rightarrow> ('c, 'm) copier \<Rightarrow> ('c, 's) copier" where
  "copy_parts parts upd copy h s = map_option (\<lambda>(h', m). (h', upd s m)) (copy h (parts s))"

section \<open>The contract\<close>

text \<open>
  \<open>val\<close> is what a value means in a store, \<open>reach\<close> the addresses its meaning depends on and
  \<open>ok\<close> that none of them dangles and the copy is defined.
\<close>

locale deep_copy =
  fixes copy :: "('c, 'm) copier"
    and val :: "'c heap \<Rightarrow> 'm \<Rightarrow> 'v"
    and reach :: "'c heap \<Rightarrow> 'm \<Rightarrow> nat set"
    and ok :: "'c heap \<Rightarrow> 'm \<Rightarrow> bool"
  assumes closed: "ok h m \<Longrightarrow> reach h m \<subseteq> {..<length h}"
    and frame: "ok h m \<Longrightarrow> \<forall>x \<in> reach h m. x < length g \<and> g ! x = h ! x \<Longrightarrow>
      val g m = val h m \<and> reach g m = reach h m \<and> ok g m"
    and copies: "ok h m \<Longrightarrow> \<exists>h' m'. copy h m = Some (h', m') \<and> prefix h h' \<and>
      val h' m' = val h m \<and> reach h' m' \<subseteq> {length h..<length h'} \<and> ok h' m'"
begin

lemma later:
  assumes "ok h m" "prefix h h'"
  shows "val h' m = val h m" "reach h' m = reach h m" "ok h' m"
proof -
  from assms(2) obtain t where "h' = h @ t" by (auto elim: prefixE)
  with closed [OF assms(1)] have "\<forall>x \<in> reach h m. x < length h' \<and> h' ! x = h ! x"
    by (auto simp: nth_append)
  from frame [OF assms(1) this] show "val h' m = val h m" "reach h' m = reach h m" "ok h' m" by simp_all
qed

lemma copied:
  assumes "ok h m" "copy h m = Some (h', m')"
  shows "prefix h h'" "val h' m' = val h m" "reach h' m' \<subseteq> {length h..<length h'}" "ok h' m'"
  using copies [OF assms(1)] assms(2) by auto

text \<open>A write to the copy leaves the original alone, and the other way round.\<close>

lemma write_copy:
  assumes "ok h m" "copy h m = Some (h', m')" "x \<in> reach h' m'"
  shows "val (h'[x := c]) m = val h m"
proof -
  have o: "ok h' m" "reach h' m = reach h m" "val h' m = val h m"
    using later [OF assms(1) copied(1) [OF assms(1,2)]] by simp_all
  have "length h \<le> x" using copied(3) [OF assms(1,2)] assms(3) by auto
  then have "\<forall>y \<in> reach h' m. y < length (h'[x := c]) \<and> h'[x := c] ! y = h' ! y"
    using closed [OF assms(1)] closed [OF o(1)] o(2) by fastforce
  from frame [OF o(1) this] o(3) show ?thesis by simp
qed

lemma write_original:
  assumes "ok h m" "copy h m = Some (h', m')" "x < length h"
  shows "val (h'[x := c]) m' = val h m"
proof -
  note cp = copied [OF assms(1,2)]
  have "\<forall>y \<in> reach h' m'. y < length (h'[x := c]) \<and> h'[x := c] ! y = h' ! y"
    using cp(3) assms(3) by fastforce
  from frame [OF cp(4) this] cp(2) show ?thesis by simp
qed

end

section \<open>Copiers with the contract\<close>

definition val_plain :: "'c heap \<Rightarrow> 'm \<Rightarrow> 'm" where "val_plain h m = m"
definition reach_plain :: "'c heap \<Rightarrow> 'm \<Rightarrow> nat set" where "reach_plain h m = {}"
definition ok_plain :: "'c heap \<Rightarrow> 'm \<Rightarrow> bool" where "ok_plain h m = True"

lemma deep_plain: "deep_copy copy_plain val_plain reach_plain ok_plain"
  by unfold_locales (simp_all add: copy_plain_def val_plain_def reach_plain_def ok_plain_def)

definition val_new :: "('c \<Rightarrow> 'm) \<Rightarrow> ('c heap \<Rightarrow> 'm \<Rightarrow> 'v) \<Rightarrow> 'c heap \<Rightarrow> ref \<Rightarrow> 'v option" where
  "val_new get val h r = map_option (\<lambda>a. val h (get (h ! a))) r"

definition reach_new :: "('c \<Rightarrow> 'm) \<Rightarrow> ('c heap \<Rightarrow> 'm \<Rightarrow> nat set) \<Rightarrow> 'c heap \<Rightarrow> ref \<Rightarrow> nat set" where
  "reach_new get reach h r = (case r of None \<Rightarrow> {} | Some a \<Rightarrow> insert a (reach h (get (h ! a))))"

definition ok_new :: "('c \<Rightarrow> 'm) \<Rightarrow> ('c heap \<Rightarrow> 'm \<Rightarrow> bool) \<Rightarrow> 'c heap \<Rightarrow> ref \<Rightarrow> bool" where
  "ok_new get ok h r = (case r of None \<Rightarrow> True | Some a \<Rightarrow> a < length h \<and> ok h (get (h ! a)))"

lemmas new_defs = copy_new_def val_new_def reach_new_def ok_new_def

lemma deep_new:
  assumes d: "deep_copy copy val reach ok" and gp: "\<And>m. get (put m) = m"
  shows "deep_copy (copy_new get put copy) (val_new get val) (reach_new get reach) (ok_new get ok)"
proof (unfold_locales, goal_cases)
  case (1 h r)
  then show ?case using deep_copy.closed [OF d] by (fastforce simp: new_defs split: option.splits)
next
  case (2 h r g)
  show ?case
  proof (cases r)
    case (Some a)
    with 2 have "ok h (get (h ! a))" "\<forall>x \<in> reach h (get (h ! a)). x < length g \<and> g ! x = h ! x"
      and "a < length g" "g ! a = h ! a" by (auto simp: new_defs)
    with deep_copy.frame [OF d this(1,2)] Some show ?thesis by (simp add: new_defs)
  qed (simp add: new_defs)
next
  case (3 h r)
  show ?case
  proof (cases r)
    case (Some a)
    with 3 have "ok h (get (h ! a))" by (simp add: new_defs)
    from deep_copy.copies [OF d this] obtain h' m' where m: "copy h (get (h ! a)) = Some (h', m')"
      "prefix h h'" "val h' m' = val h (get (h ! a))" "reach h' m' \<subseteq> {length h..<length h'}" "ok h' m'"
      by blast
    have pre: "prefix h' (h' @ [put m'])" by simp
    note later = deep_copy.later [OF d m(5) pre]
    have "length h \<le> length h'" using m(2) by (rule prefix_length_le)
    moreover have "prefix h (h' @ [put m'])" using m(2) by (rule prefix_prefix)
    ultimately show ?thesis
      using later m gp Some by (fastforce simp: new_defs)
  qed (simp add: new_defs)
qed

lemma deep_deref:
  assumes d: "deep_copy copy val reach ok"
  shows "deep_copy (copy_deref put copy) val reach ok"
proof (unfold_locales, goal_cases)
  case (3 h m)
  from deep_copy.copies [OF d this] obtain h' m' where m: "copy h m = Some (h', m')" "prefix h h'"
    "val h' m' = val h m" "reach h' m' \<subseteq> {length h..<length h'}" "ok h' m'" by blast
  have "prefix h' (h' @ [put m'])" by simp
  note later = deep_copy.later [OF d m(5) this]
  have "prefix h (h' @ [put m'])" using m(2) by (rule prefix_prefix)
  with m later show ?case by (fastforce simp: copy_deref_def)
next
  case (1 h m)
  then show ?case by (rule deep_copy.closed [OF d])
next
  case (2 h m g)
  then show ?case by (rule deep_copy.frame [OF d])
qed

text \<open>Pairs; the second copy works in a later store, which the first survives.\<close>

definition val_pair where "val_pair v1 v2 h mn = (v1 h (fst mn), v2 h (snd mn))"
definition reach_pair where "reach_pair r1 r2 h mn = r1 h (fst mn) \<union> r2 h (snd mn)"
definition ok_pair where "ok_pair o1 o2 h mn \<longleftrightarrow> o1 h (fst mn) \<and> o2 h (snd mn)"

lemmas pair_defs = val_pair_def reach_pair_def ok_pair_def

lemma deep_two:
  assumes d1: "deep_copy copy1 v1 r1 o1" and d2: "deep_copy copy2 v2 r2 o2"
    and ok: "o1 h m" "o2 h n"
  obtains h1 h2 m' n' where "copy1 h m = Some (h1, m')" "copy2 h1 n = Some (h2, n')" "prefix h h2"
    "v1 h2 m' = v1 h m" "v2 h2 n' = v2 h n" "r1 h2 m' \<union> r2 h2 n' \<subseteq> {length h..<length h2}"
    "o1 h2 m'" "o2 h2 n'"
proof -
  from deep_copy.copies [OF d1 ok(1)] obtain h1 m' where m: "copy1 h m = Some (h1, m')" "prefix h h1"
    "v1 h1 m' = v1 h m" "r1 h1 m' \<subseteq> {length h..<length h1}" "o1 h1 m'" by blast
  note n0 = deep_copy.later [OF d2 ok(2) m(2)]
  from deep_copy.copies [OF d2 n0(3)] obtain h2 n' where n: "copy2 h1 n = Some (h2, n')" "prefix h1 h2"
    "v2 h2 n' = v2 h1 n" "r2 h2 n' \<subseteq> {length h1..<length h2}" "o2 h2 n'" by blast
  note m2 = deep_copy.later [OF d1 m(5) n(2)]
  have "length h \<le> length h1" "length h1 \<le> length h2"
    using m(2) n(2) by (auto intro: prefix_length_le)
  then have "r1 h2 m' \<union> r2 h2 n' \<subseteq> {length h..<length h2}" using m(4) n(4) m2(2) by auto
  moreover have "prefix h h2" using m(2) n(2) by (rule prefix_order.trans)
  ultimately show ?thesis using that m n n0 m2 by simp
qed

lemma deep_pair:
  assumes d1: "deep_copy copy1 v1 r1 o1" and d2: "deep_copy copy2 v2 r2 o2"
  shows "deep_copy (copy_pair copy1 copy2) (val_pair v1 v2) (reach_pair r1 r2) (ok_pair o1 o2)"
proof (unfold_locales, goal_cases)
  case (1 h mn)
  then show ?case using deep_copy.closed [OF d1] deep_copy.closed [OF d2] by (simp add: pair_defs)
next
  case (2 h mn g)
  then show ?case
    using deep_copy.frame [OF d1, of h "fst mn" g] deep_copy.frame [OF d2, of h "snd mn" g]
    by (simp add: pair_defs)
next
  case (3 h mn)
  then have "o1 h (fst mn)" "o2 h (snd mn)" by (simp_all add: pair_defs)
  from deep_two [OF d1 d2 this] obtain h1 h2 m' n' where
    "copy1 h (fst mn) = Some (h1, m')" "copy2 h1 (snd mn) = Some (h2, n')" "prefix h h2"
    "v1 h2 m' = v1 h (fst mn)" "v2 h2 n' = v2 h (snd mn)" "r1 h2 m' \<union> r2 h2 n' \<subseteq> {length h..<length h2}"
    "o1 h2 m'" "o2 h2 n'" .
  then show ?case by (simp add: copy_pair_def pair_defs)
qed

text \<open>Slices of structs.\<close>

definition val_list where "val_list v h ms = map (v h) ms"
definition reach_list where "reach_list r h ms = (\<Union>m \<in> set ms. r h m)"
definition ok_list where "ok_list ok h ms = list_all (ok h) ms"

lemmas list_defs = val_list_def reach_list_def ok_list_def

lemma deep_list:
  assumes d: "deep_copy copy v r ok"
  shows "deep_copy (copy_list copy) (val_list v) (reach_list r) (ok_list ok)"
proof (unfold_locales, goal_cases)
  case (1 h ms)
  then show ?case using deep_copy.closed [OF d] by (fastforce simp: list_defs list_all_iff)
next
  case (2 h ms g)
  then have "v g m = v h m \<and> r g m = r h m \<and> ok g m" if "m \<in> set ms" for m
    using that deep_copy.frame [OF d, of h m g] by (auto simp: list_defs list_all_iff)
  then show ?case by (simp add: list_defs list_all_iff)
next
  case (3 h ms)
  then show ?case
  proof (induction ms arbitrary: h)
    case (Cons m ms)
    then have "ok h m" by (simp add: list_defs)
    from deep_copy.copies [OF d this] obtain h1 m' where m: "copy h m = Some (h1, m')" "prefix h h1"
      "v h1 m' = v h m" "r h1 m' \<subseteq> {length h..<length h1}" "ok h1 m'" by blast
    have ms: "v h1 y = v h y" "ok h1 y" if "y \<in> set ms" for y
      using Cons.prems deep_copy.later [OF d _ m(2), of y] that by (simp_all add: list_defs list_all_iff)
    then have "ok_list ok h1 ms" by (simp add: list_defs list_all_iff)
    from Cons.IH [OF this] obtain h2 ms' where t: "copy_list copy h1 ms = Some (h2, ms')" "prefix h1 h2"
      "val_list v h2 ms' = val_list v h1 ms" "reach_list r h2 ms' \<subseteq> {length h1..<length h2}"
      "ok_list ok h2 ms'" by blast
    note m2 = deep_copy.later [OF d m(5) t(2)]
    have "length h \<le> length h1" "length h1 \<le> length h2"
      using m(2) t(2) by (auto intro: prefix_length_le)
    then have "reach_list r h2 (m' # ms') \<subseteq> {length h..<length h2}"
      using m(4) t(4) m2(2) by (auto simp: list_defs)
    moreover have "val_list v h1 ms = val_list v h ms" using ms(1) by (simp add: list_defs)
    moreover have "prefix h h2" using m(2) t(2) by (rule prefix_order.trans)
    ultimately show ?case using m t m2 by (simp add: list_defs)
  qed (simp add: list_defs)
qed

text \<open>Maps: the loop copies the entries in turn and puts them under their keys.\<close>

definition val_map where "val_map v h m = map (\<lambda>(k, x). (k, v h x)) m"
definition reach_map where "reach_map r h m = (\<Union>kx \<in> set m. r h (snd kx))"
definition ok_map where "ok_map ok h m \<longleftrightarrow> is_map m \<and> list_all (\<lambda>kx. ok h (snd kx)) m"

lemmas map_defs = val_map_def reach_map_def ok_map_def

lemma update_new: "k \<notin> fst ` set m \<Longrightarrow> mput k v m = m @ [(k, v)]"
  by (induction m) auto

lemma copy_loop_eq:
  "is_map (out @ m) \<Longrightarrow> copy_loop copy h m out =
     map_option (\<lambda>(h', ys). (h', out @ zip (map fst m) ys)) (copy_list copy h (map snd m))"
proof (induction m arbitrary: h out)
  case (Cons kv m)
  obtain k v where kv: "kv = (k, v)" by force
  from Cons.prems have "k \<notin> fst ` set out" by (auto simp: is_map_def kv)
  then have "mput k y out = out @ [(k, y)]" "is_map ((out @ [(k, y)]) @ m)" for y
    using Cons.prems by (simp_all add: update_new is_map_def kv)
  then show ?case
    using Cons.IH by (auto simp: kv map_option_case split: option.splits bind_splits)
qed simp

lemma copy_map_eq:
  "is_map m \<Longrightarrow> copy_map copy h m =
     map_option (\<lambda>(h', ys). (h', zip (map fst m) ys)) (copy_list copy h (map snd m))"
  by (simp add: copy_map_def copy_loop_eq)

lemma val_map_zip:
  "length ys = length m \<Longrightarrow> val_list v h' ys = val_list v h (map snd m) \<Longrightarrow>
   val_map v h' (zip (map fst m) ys) = val_map v h m"
  by (induction m arbitrary: ys) (auto simp: list_defs map_defs length_Suc_conv)

lemma deep_map:
  assumes d: "deep_copy copy v r ok"
  shows "deep_copy (copy_map copy) (val_map v) (reach_map r) (ok_map ok)"
proof (unfold_locales, goal_cases)
  case (1 h m)
  then show ?case using deep_copy.closed [OF d] by (fastforce simp: map_defs list_all_iff)
next
  case (2 h m g)
  then have "v g (snd kx) = v h (snd kx) \<and> r g (snd kx) = r h (snd kx) \<and> ok g (snd kx)" if "kx \<in> set m" for kx
    using that deep_copy.frame [OF d, of h "snd kx" g] by (auto simp: map_defs list_all_iff)
  then show ?case using 2 by (auto simp: map_defs list_all_iff)
next
  case (3 h m)
  then have m: "is_map m" and "ok_list ok h (map snd m)" by (simp_all add: map_defs list_defs list_all_iff)
  from deep_copy.copies [OF deep_list [OF d] this(2)] obtain h' ys where
    ys: "copy_list copy h (map snd m) = Some (h', ys)" "prefix h h'"
      "val_list v h' ys = val_list v h (map snd m)" "reach_list r h' ys \<subseteq> {length h..<length h'}"
      "ok_list ok h' ys" by blast
  have len: "length ys = length m" using arg_cong [OF ys(3), of length] by (simp add: list_defs)
  then have "map snd (zip (map fst m) ys) = ys" "map fst (zip (map fst m) ys) = map fst m" by simp_all
  then have "reach_map r h' (zip (map fst m) ys) \<subseteq> {length h..<length h'}"
    "ok_map ok h' (zip (map fst m) ys)"
    using ys(4,5) m by (fastforce simp: map_defs list_defs is_map_def list_all_iff dest: set_zip_rightD)+
  then show ?case using ys val_map_zip [OF len ys(3)] by (simp add: copy_map_eq [OF m])
qed

text \<open>Structs.\<close>

definition val_parts where "val_parts parts build v h s = build s (v h (parts s))"
definition reach_parts where "reach_parts parts r h s = r h (parts s)"
definition ok_parts where "ok_parts parts ok h s = ok h (parts s)"

lemmas parts_defs = val_parts_def reach_parts_def ok_parts_def

lemma deep_parts:
  assumes d: "deep_copy copy v r ok"
    and "\<And>s m. parts (upd s m) = m" "\<And>s m. build (upd s m) = build s"
  shows "deep_copy (copy_parts parts upd copy) (val_parts parts build v) (reach_parts parts r)
    (ok_parts parts ok)"
proof (unfold_locales, goal_cases)
  case (1 h s)
  then show ?case using deep_copy.closed [OF d] by (simp add: parts_defs)
next
  case (2 h s g)
  then show ?case using deep_copy.frame [OF d, of h "parts s" g] by (simp add: parts_defs)
next
  case (3 h s)
  then have "ok h (parts s)" by (simp add: parts_defs)
  from deep_copy.copies [OF d this] obtain h' m' where "copy h (parts s) = Some (h', m')" "prefix h h'"
    "v h' m' = v h (parts s)" "r h' m' \<subseteq> {length h..<length h'}" "ok h' m'" by blast
  then show ?case using assms(2,3) by (simp add: copy_parts_def parts_defs)
qed

end
