(* ===== verification/Memory.thy ===== *)
theory Memory
  imports Store Reconciler RstService
begin

text \<open>
  The structs of the program as they lie in memory: strings and numbers in place, pointers,
  slices and maps as references to cells (\<^verbatim>\<open>seeder/rest.go\<close>, \<^verbatim>\<open>seeder/auth.go\<close>, the types of
  \<^verbatim>\<open>apis\<close> and of \<^verbatim>\<open>kubebuilder-controller/api\<close>), and the value each stands for, which is the
  record the other theories work with.  A nil slice or map of strings reads as the empty
  one where those records do not tell them apart.  A map of arbitrary values is one cell with
  everything in it.
\<close>

section \<open>Structs and cells\<close>

record mAction =
  m_name :: string
  m_templatedPayload :: string
  m_foundId :: string
  m_header :: ref
  m_Name :: string
  m_Strategy :: string
  m_Order :: ref
  m_Endpoint :: string
  m_GetEndpointSuffix :: ref
  m_PostEndpointSuffix :: ref
  m_PatchEndpointSuffix :: ref
  m_PutEndpointSuffix :: ref
  m_DeleteEndpointSuffix :: ref
  m_FindByJsonPathExpr :: string
  m_PostIsPut :: bool
  m_PayloadTemplate :: string
  m_PatchPayloadTemplate :: string
  m_RuntimeVars :: ref
  m_AuthMapRef :: string
  m_HttpHeaders :: ref
  m_Variables :: ref

record mConfigOAuth =
  m_ServerUrl :: string
  m_Scopes :: ref
  m_EndpointParams :: ref
  m_OAuthSendParamsInHeader :: bool
  m_ResourceOwnerUser :: ref
  m_ResourceOwnerPassword :: ref

record mCustomToken =
  m_AuthUrl :: string
  m_CustomAuthMap :: ref
  m_SendInHeader :: bool
  m_ResponseKey :: string
  m_HeaderKey :: string
  m_TokenPrefix :: string

record mAuthConfig =
  m_acName :: string
  m_AuthStrategy :: string
  m_Username :: string
  m_Password :: string
  m_OAuth :: ref
  m_CustomToken :: ref

record mStrategyConfig =
  m_AuthConfigs :: ref
  m_Seeders :: ref
  m_Options :: Options

record mApiAuthConfig =
  m_aaName :: string
  m_aaAuth :: mAuthConfig

record mSeederConfig =
  m_scName :: string
  m_scAction :: mAction

record mStrategySpec =
  m_specAuth :: ref
  m_specSeeders :: ref

record mRestStrategy =
  m_rsNamespace :: string
  m_rsName :: string
  m_rsResourceVersion :: string
  m_rsGeneration :: int
  m_rsSpec :: mStrategySpec
  m_rsStatus :: StrategyStatus

record mKbRestStrategy =
  m_kbNamespace :: string
  m_kbName :: string
  m_kbSpec :: mStrategySpec
  m_kbMessage :: string

datatype cell =
  CInt (as_int: int)
| CBool (as_bool: bool)
| CByte (as_byte: "8 word")
| CStr (as_str: string)
| CStrs (as_strs: "string list")
| CStrMap (as_strmap: "string gomap")
| CSliceMap (as_slicemap: "ref gomap")
| CHeader (as_header: ref)
| CStrMapVar (as_strmapvar: ref)
| CJson (as_json: "any gomap")
| COAuth (as_oauth: mConfigOAuth)
| CCustom (as_custom: mCustomToken)
| CAuthMap (as_authmap: "mAuthConfig gomap")
| CSeeders (as_seeders: "mAction gomap")
| CAction (as_action: mAction)
| CAuthConfig (as_authconfig: mAuthConfig)
| CStrategyConfig (as_strategyconfig: mStrategyConfig)
| CApiAuths (as_apiauths: "mApiAuthConfig list")
| CSeederConfigs (as_seederconfigs: "mSeederConfig list")
| CApiAuth (as_apiauth: mApiAuthConfig)
| CSeederConfig (as_seederconfig: mSeederConfig)
| CSpec (as_spec: mStrategySpec)
| CStatus (as_status: StrategyStatus)
| CRest (as_rest: mRestStrategy)
| CRests (as_rests: "mRestStrategy list")
| CRestList (as_restlist: ref)
| CAuths (as_auths: "mAuthConfig list")
| CActions (as_actions: "mAction list")
| CKbRest (as_kbrest: mKbRestStrategy)
| CKbRests (as_kbrests: "mKbRestStrategy list")

type_synonym memory = "cell heap"
type_synonym 'm copies = "(cell, 'm) copier"

section \<open>References to plain data\<close>

definition copy_int :: "ref copies" where "copy_int = copy_new as_int CInt copy_plain"
definition copy_str :: "ref copies" where "copy_str = copy_new as_str CStr copy_plain"
definition copy_strs :: "ref copies" where "copy_strs = copy_new as_strs CStrs copy_plain"
definition copy_strmap :: "ref copies" where "copy_strmap = copy_new as_strmap CStrMap (copy_map copy_plain)"
definition copy_slicemap :: "ref copies" where "copy_slicemap = copy_new as_slicemap CSliceMap (copy_map copy_strs)"

abbreviation "val_int \<equiv> val_new as_int val_plain"
abbreviation "val_str \<equiv> val_new as_str val_plain"
abbreviation "val_strs \<equiv> val_new as_strs val_plain"
abbreviation "val_strmap \<equiv> val_new as_strmap (val_map val_plain)"
abbreviation "val_slicemap \<equiv> val_new as_slicemap (val_map val_strs)"

abbreviation "reach_int \<equiv> reach_new as_int reach_plain"
abbreviation "reach_str \<equiv> reach_new as_str reach_plain"
abbreviation "reach_strs \<equiv> reach_new as_strs reach_plain"
abbreviation "reach_strmap \<equiv> reach_new as_strmap (reach_map reach_plain)"
abbreviation "reach_slicemap \<equiv> reach_new as_slicemap (reach_map reach_strs)"

abbreviation "ok_int \<equiv> ok_new as_int ok_plain"
abbreviation "ok_str \<equiv> ok_new as_str ok_plain"
abbreviation "ok_strs \<equiv> ok_new as_strs ok_plain"
abbreviation "ok_strmap \<equiv> ok_new as_strmap (ok_map ok_plain)"
abbreviation "ok_slicemap \<equiv> ok_new as_slicemap (ok_map ok_strs)"

interpretation int_copy: deep_copy copy_int val_int reach_int ok_int
  unfolding copy_int_def by (rule deep_new [OF deep_plain]) simp

interpretation str_copy: deep_copy copy_str val_str reach_str ok_str
  unfolding copy_str_def by (rule deep_new [OF deep_plain]) simp

interpretation strs_copy: deep_copy copy_strs val_strs reach_strs ok_strs
  unfolding copy_strs_def by (rule deep_new [OF deep_plain]) simp

interpretation strmap_copy: deep_copy copy_strmap val_strmap reach_strmap ok_strmap
  unfolding copy_strmap_def by (rule deep_new [OF deep_map [OF deep_plain]]) simp

interpretation slicemap_copy: deep_copy copy_slicemap val_slicemap reach_slicemap ok_slicemap
  unfolding copy_slicemap_def by (rule deep_new [OF deep_map [OF strs_copy.deep_copy_axioms]]) simp

end
