(* ===== verification/Seeder_Copy.thy ===== *)
theory Seeder_Copy
  imports Memory Cmd
begin

text \<open>
  The deep copies of the seeder's types: \<^verbatim>\<open>seeder/zz_generated.deepcopy.go\<close> and the two written
  by hand in \<^verbatim>\<open>seeder/rest.go\<close>.  \<open>J\<close> is \<^verbatim>\<open>runtime.DeepCopyJSON\<close> on the content of a map, None
  where it panics.  \<open>ok\<close> asks that it copies the maps of the value at hand, as it is
  documented to for what a JSON decoder produces.
\<close>

section \<open>Maps of arbitrary values\<close>

type_synonym json_copy = "any gomap \<Rightarrow> any gomap option"

definition copy_tree :: "json_copy \<Rightarrow> any gomap copies" where
  "copy_tree J h m = map_option (\<lambda>m'. (h, m')) (J m)"

definition copy_json :: "json_copy \<Rightarrow> ref copies" where
  "copy_json J = copy_new as_json CJson (copy_tree J)"

definition ok_tree :: "json_copy \<Rightarrow> memory \<Rightarrow> any gomap \<Rightarrow> bool" where
  "ok_tree J h m \<longleftrightarrow> J m = Some m"

lemma deep_tree: "deep_copy (copy_tree J) val_plain reach_plain (ok_tree J)"
  by unfold_locales (simp_all add: copy_tree_def ok_tree_def val_plain_def reach_plain_def)

abbreviation "val_json \<equiv> val_new as_json val_plain"
abbreviation "reach_json \<equiv> reach_new as_json reach_plain"
abbreviation "ok_json J \<equiv> ok_new as_json (ok_tree J)"

interpretation json_copy: deep_copy "copy_json J" val_json reach_json "ok_json J" for J
  unfolding copy_json_def by (rule deep_new [OF deep_tree]) simp

text \<open>The receiver is a pointer to a variable that holds a map.\<close>

definition KvMapVarsAny_DeepCopyInto :: "json_copy \<Rightarrow> memory \<Rightarrow> ref option \<Rightarrow> (memory \<times> ref) option" where
  "KvMapVarsAny_DeepCopyInto J h in' =
     (case in' of None \<Rightarrow> Some (h, None) | Some m \<Rightarrow> copy_json J h m)"

definition KvMapVarsAny_DeepCopy :: "json_copy \<Rightarrow> memory \<Rightarrow> ref option \<Rightarrow> (memory \<times> ref option) option" where
  "KvMapVarsAny_DeepCopy J h in' =
     (case in' of
        None \<Rightarrow> Some (h, None)
      | Some m \<Rightarrow> map_option (\<lambda>(h', m'). (h', Some m')) (KvMapVarsAny_DeepCopyInto J h (Some m)))"

section \<open>Action\<close>

definition copy_header :: "ref copies" where
  "copy_header = copy_new as_header CHeader copy_slicemap"

definition copy_httpheaders :: "ref copies" where
  "copy_httpheaders = copy_new as_strmapvar CStrMapVar copy_strmap"

interpretation header_copy: deep_copy copy_header "val_new as_header val_slicemap"
  "reach_new as_header reach_slicemap" "ok_new as_header ok_slicemap"
  unfolding copy_header_def by (rule deep_new [OF slicemap_copy.deep_copy_axioms]) simp

interpretation httpheaders_copy: deep_copy copy_httpheaders "val_new as_strmapvar val_strmap"
  "reach_new as_strmapvar reach_strmap" "ok_new as_strmapvar ok_strmap"
  unfolding copy_httpheaders_def by (rule deep_new [OF strmap_copy.deep_copy_axioms]) simp

definition Action_DeepCopyInto :: "json_copy \<Rightarrow> mAction copies" where
  "Action_DeepCopyInto J h in' = do {
     (h, header) \<leftarrow> copy_header h (m_header in');
     (h, order) \<leftarrow> copy_int h (m_Order in');
     (h, getSuffix) \<leftarrow> copy_str h (m_GetEndpointSuffix in');
     (h, postSuffix) \<leftarrow> copy_str h (m_PostEndpointSuffix in');
     (h, patchSuffix) \<leftarrow> copy_str h (m_PatchEndpointSuffix in');
     (h, putSuffix) \<leftarrow> copy_str h (m_PutEndpointSuffix in');
     (h, deleteSuffix) \<leftarrow> copy_str h (m_DeleteEndpointSuffix in');
     (h, runtimeVars) \<leftarrow> copy_strmap h (m_RuntimeVars in');
     (h, httpHeaders) \<leftarrow> copy_httpheaders h (m_HttpHeaders in');
     (h, variables) \<leftarrow> KvMapVarsAny_DeepCopyInto J h (Some (m_Variables in'));
     Some (h, in'\<lparr>m_header := header, m_Order := order, m_GetEndpointSuffix := getSuffix,
       m_PostEndpointSuffix := postSuffix, m_PatchEndpointSuffix := patchSuffix,
       m_PutEndpointSuffix := putSuffix, m_DeleteEndpointSuffix := deleteSuffix,
       m_RuntimeVars := runtimeVars, m_HttpHeaders := httpHeaders, m_Variables := variables\<rparr>)
   }"

definition Action_DeepCopy :: "json_copy \<Rightarrow> ref copies" where
  "Action_DeepCopy J = copy_new as_action CAction (Action_DeepCopyInto J)"

text \<open>Its parts with references, in the order they are copied.\<close>

definition parts_Action where
  "parts_Action a = (m_header a, m_Order a, m_GetEndpointSuffix a, m_PostEndpointSuffix a,
     m_PatchEndpointSuffix a, m_PutEndpointSuffix a, m_DeleteEndpointSuffix a, m_RuntimeVars a,
     m_HttpHeaders a, m_Variables a)"

fun upd_Action where
  "upd_Action a (hd', ord, gs, ps, pas, pus, ds, rv, hh, vs) =
     a\<lparr>m_header := hd', m_Order := ord, m_GetEndpointSuffix := gs, m_PostEndpointSuffix := ps,
       m_PatchEndpointSuffix := pas, m_PutEndpointSuffix := pus, m_DeleteEndpointSuffix := ds,
       m_RuntimeVars := rv, m_HttpHeaders := hh, m_Variables := vs\<rparr>"

text \<open>What a slice map reads as: nil slices and the nil map are empty.\<close>

definition plain_slices :: "string list option gomap option \<Rightarrow> string list gomap" where
  "plain_slices m = map (\<lambda>(k, vs). (k, case vs of None \<Rightarrow> [] | Some v \<Rightarrow> v)) (case m of None \<Rightarrow> [] | Some es \<Rightarrow> es)"

fun build_Action where
  "build_Action a (hd', ord, gs, ps, pas, pus, ds, rv, hh, vs) =
     \<lparr>aName = m_name a, templatedPayload = m_templatedPayload a, foundId = m_foundId a,
      aHeader = map_option plain_slices hd', Name = m_Name a, Strategy = m_Strategy a, Order = ord,
      Endpoint = m_Endpoint a, GetEndpointSuffix = gs, PostEndpointSuffix = ps, PatchEndpointSuffix = pas,
      PutEndpointSuffix = pus, DeleteEndpointSuffix = ds, FindByJsonPathExpr = m_FindByJsonPathExpr a,
      PostIsPut = m_PostIsPut a, PayloadTemplate = m_PayloadTemplate a,
      PatchPayloadTemplate = m_PatchPayloadTemplate a, RuntimeVars = rv, AuthMapRef = m_AuthMapRef a,
      HttpHeaders = map_option (\<lambda>m. case m of None \<Rightarrow> [] | Some es \<Rightarrow> es) hh, Variables = vs\<rparr>"

definition copy_Action_parts where
  "copy_Action_parts J = copy_pair copy_header (copy_pair copy_int (copy_pair copy_str (copy_pair copy_str
     (copy_pair copy_str (copy_pair copy_str (copy_pair copy_str (copy_pair copy_strmap
     (copy_pair copy_httpheaders (copy_json J)))))))))"

abbreviation "val_Action_parts \<equiv> val_pair (val_new as_header val_slicemap) (val_pair val_int (val_pair val_str
  (val_pair val_str (val_pair val_str (val_pair val_str (val_pair val_str (val_pair val_strmap
  (val_pair (val_new as_strmapvar val_strmap) val_json))))))))"

abbreviation "reach_Action_parts \<equiv> reach_pair (reach_new as_header reach_slicemap) (reach_pair reach_int
  (reach_pair reach_str (reach_pair reach_str (reach_pair reach_str (reach_pair reach_str (reach_pair reach_str
  (reach_pair reach_strmap (reach_pair (reach_new as_strmapvar reach_strmap) reach_json))))))))"

abbreviation "ok_Action_parts J \<equiv> ok_pair (ok_new as_header ok_slicemap) (ok_pair ok_int (ok_pair ok_str
  (ok_pair ok_str (ok_pair ok_str (ok_pair ok_str (ok_pair ok_str (ok_pair ok_strmap
  (ok_pair (ok_new as_strmapvar ok_strmap) (ok_json J)))))))))"

definition val_Action :: "memory \<Rightarrow> mAction \<Rightarrow> Action" where
  "val_Action = val_parts parts_Action build_Action val_Action_parts"

definition reach_Action :: "memory \<Rightarrow> mAction \<Rightarrow> nat set" where
  "reach_Action = reach_parts parts_Action reach_Action_parts"

definition ok_Action :: "json_copy \<Rightarrow> memory \<Rightarrow> mAction \<Rightarrow> bool" where
  "ok_Action J = ok_parts parts_Action (ok_Action_parts J)"

lemma Action_DeepCopyInto_eq:
  "Action_DeepCopyInto J = copy_parts parts_Action upd_Action (copy_Action_parts J)"
proof (intro ext)
  fix h a
  show "Action_DeepCopyInto J h a = copy_parts parts_Action upd_Action (copy_Action_parts J) h a"
    by (simp add: Action_DeepCopyInto_def copy_parts_def parts_Action_def copy_Action_parts_def copy_pair_def
        KvMapVarsAny_DeepCopyInto_def map_conv_bind_option case_prod_unfold o_def)
qed

lemma deep_Action_parts:
  "deep_copy (copy_Action_parts J) val_Action_parts reach_Action_parts (ok_Action_parts J)"
  unfolding copy_Action_parts_def
  by (intro deep_pair header_copy.deep_copy_axioms int_copy.deep_copy_axioms str_copy.deep_copy_axioms
      strmap_copy.deep_copy_axioms httpheaders_copy.deep_copy_axioms json_copy.deep_copy_axioms)

interpretation Action_copy: deep_copy "Action_DeepCopyInto J" val_Action reach_Action "ok_Action J" for J
  unfolding Action_DeepCopyInto_eq val_Action_def reach_Action_def ok_Action_def
  by (rule deep_parts [OF deep_Action_parts]) (auto simp: parts_Action_def fun_eq_iff)

interpretation Action_new_copy: deep_copy "Action_DeepCopy J" "val_new as_action val_Action"
  "reach_new as_action reach_Action" "ok_new as_action (ok_Action J)" for J
  unfolding Action_DeepCopy_def by (rule deep_new [OF Action_copy.deep_copy_axioms]) simp

section \<open>Credentials\<close>

definition ConfigOAuth_DeepCopyInto :: "mConfigOAuth copies" where
  "ConfigOAuth_DeepCopyInto h in' = do {
     (h, scopes) \<leftarrow> copy_strs h (m_Scopes in');
     (h, params) \<leftarrow> copy_slicemap h (m_EndpointParams in');
     (h, user) \<leftarrow> copy_str h (m_ResourceOwnerUser in');
     (h, password) \<leftarrow> copy_str h (m_ResourceOwnerPassword in');
     Some (h, in'\<lparr>m_Scopes := scopes, m_EndpointParams := params, m_ResourceOwnerUser := user,
       m_ResourceOwnerPassword := password\<rparr>)
   }"

definition ConfigOAuth_DeepCopy :: "ref copies" where
  "ConfigOAuth_DeepCopy = copy_new as_oauth COAuth ConfigOAuth_DeepCopyInto"

definition CustomToken_DeepCopyInto :: "json_copy \<Rightarrow> mCustomToken copies" where
  "CustomToken_DeepCopyInto J h in' = do {
     (h, m) \<leftarrow> KvMapVarsAny_DeepCopyInto J h (Some (m_CustomAuthMap in'));
     Some (h, in'\<lparr>m_CustomAuthMap := m\<rparr>)
   }"

definition CustomToken_DeepCopy :: "json_copy \<Rightarrow> ref copies" where
  "CustomToken_DeepCopy J = copy_new as_custom CCustom (CustomToken_DeepCopyInto J)"

definition AuthConfig_DeepCopyInto :: "json_copy \<Rightarrow> mAuthConfig copies" where
  "AuthConfig_DeepCopyInto J h in' = do {
     (h, oauth) \<leftarrow> ConfigOAuth_DeepCopy h (m_OAuth in');
     (h, custom) \<leftarrow> CustomToken_DeepCopy J h (m_CustomToken in');
     Some (h, in'\<lparr>m_OAuth := oauth, m_CustomToken := custom\<rparr>)
   }"

definition AuthConfig_DeepCopy :: "json_copy \<Rightarrow> ref copies" where
  "AuthConfig_DeepCopy J = copy_new as_authconfig CAuthConfig (AuthConfig_DeepCopyInto J)"

definition parts_OAuth where
  "parts_OAuth c = (m_Scopes c, m_EndpointParams c, m_ResourceOwnerUser c, m_ResourceOwnerPassword c)"

fun upd_OAuth where
  "upd_OAuth c (sc, ps, us, pw) =
     c\<lparr>m_Scopes := sc, m_EndpointParams := ps, m_ResourceOwnerUser := us, m_ResourceOwnerPassword := pw\<rparr>"

fun build_OAuth where
  "build_OAuth c (sc, ps, us, pw) =
     \<lparr>ServerUrl = m_ServerUrl c, Scopes = (case sc of None \<Rightarrow> [] | Some xs \<Rightarrow> xs),
      EndpointParams = plain_slices ps, OAuthSendParamsInHeader = m_OAuthSendParamsInHeader c,
      ResourceOwnerUser = us, ResourceOwnerPassword = pw\<rparr>"

definition val_OAuth :: "memory \<Rightarrow> mConfigOAuth \<Rightarrow> ConfigOAuth" where
  "val_OAuth = val_parts parts_OAuth build_OAuth (val_pair val_strs (val_pair val_slicemap (val_pair val_str val_str)))"

definition reach_OAuth :: "memory \<Rightarrow> mConfigOAuth \<Rightarrow> nat set" where
  "reach_OAuth = reach_parts parts_OAuth
     (reach_pair reach_strs (reach_pair reach_slicemap (reach_pair reach_str reach_str)))"

definition ok_OAuth :: "memory \<Rightarrow> mConfigOAuth \<Rightarrow> bool" where
  "ok_OAuth = ok_parts parts_OAuth (ok_pair ok_strs (ok_pair ok_slicemap (ok_pair ok_str ok_str)))"

lemma ConfigOAuth_DeepCopyInto_eq:
  "ConfigOAuth_DeepCopyInto = copy_parts parts_OAuth upd_OAuth
     (copy_pair copy_strs (copy_pair copy_slicemap (copy_pair copy_str copy_str)))"
  by (intro ext) (simp add: ConfigOAuth_DeepCopyInto_def copy_parts_def parts_OAuth_def copy_pair_def
      map_conv_bind_option case_prod_unfold o_def)

interpretation OAuth_copy: deep_copy ConfigOAuth_DeepCopyInto val_OAuth reach_OAuth ok_OAuth
  unfolding ConfigOAuth_DeepCopyInto_eq val_OAuth_def reach_OAuth_def ok_OAuth_def
  by (rule deep_parts, intro deep_pair strs_copy.deep_copy_axioms slicemap_copy.deep_copy_axioms
      str_copy.deep_copy_axioms) (auto simp: parts_OAuth_def fun_eq_iff)

definition val_Custom :: "memory \<Rightarrow> mCustomToken \<Rightarrow> CustomToken" where
  "val_Custom = val_parts m_CustomAuthMap
     (\<lambda>c m. \<lparr>AuthUrl = m_AuthUrl c, CustomAuthMap = m, SendInHeader = m_SendInHeader c,
        ResponseKey = m_ResponseKey c, HeaderKey = m_HeaderKey c, TokenPrefix = m_TokenPrefix c\<rparr>) val_json"

definition reach_Custom :: "memory \<Rightarrow> mCustomToken \<Rightarrow> nat set" where
  "reach_Custom = reach_parts m_CustomAuthMap reach_json"

definition ok_Custom :: "json_copy \<Rightarrow> memory \<Rightarrow> mCustomToken \<Rightarrow> bool" where
  "ok_Custom J = ok_parts m_CustomAuthMap (ok_json J)"

lemma CustomToken_DeepCopyInto_eq:
  "CustomToken_DeepCopyInto J = copy_parts m_CustomAuthMap (\<lambda>c m. c\<lparr>m_CustomAuthMap := m\<rparr>) (copy_json J)"
  by (intro ext) (simp add: CustomToken_DeepCopyInto_def KvMapVarsAny_DeepCopyInto_def copy_parts_def
      map_conv_bind_option case_prod_unfold o_def)

interpretation Custom_copy: deep_copy "CustomToken_DeepCopyInto J" val_Custom reach_Custom "ok_Custom J" for J
  unfolding CustomToken_DeepCopyInto_eq val_Custom_def reach_Custom_def ok_Custom_def
  by (rule deep_parts [OF json_copy.deep_copy_axioms]) auto

interpretation OAuth_new_copy: deep_copy ConfigOAuth_DeepCopy "val_new as_oauth val_OAuth"
  "reach_new as_oauth reach_OAuth" "ok_new as_oauth ok_OAuth"
  unfolding ConfigOAuth_DeepCopy_def by (rule deep_new [OF OAuth_copy.deep_copy_axioms]) simp

interpretation Custom_new_copy: deep_copy "CustomToken_DeepCopy J" "val_new as_custom val_Custom"
  "reach_new as_custom reach_Custom" "ok_new as_custom (ok_Custom J)" for J
  unfolding CustomToken_DeepCopy_def by (rule deep_new [OF Custom_copy.deep_copy_axioms]) simp

definition parts_Auth where
  "parts_Auth a = (m_OAuth a, m_CustomToken a)"

definition val_Auth :: "memory \<Rightarrow> mAuthConfig \<Rightarrow> AuthConfig" where
  "val_Auth = val_parts parts_Auth
     (\<lambda>a oc. \<lparr>acName = m_acName a, AuthStrategy = m_AuthStrategy a, Username = m_Username a,
        Password = m_Password a, acOAuth = fst oc, acCustomToken = snd oc\<rparr>)
     (val_pair (val_new as_oauth val_OAuth) (val_new as_custom val_Custom))"

definition reach_Auth :: "memory \<Rightarrow> mAuthConfig \<Rightarrow> nat set" where
  "reach_Auth = reach_parts parts_Auth
     (reach_pair (reach_new as_oauth reach_OAuth) (reach_new as_custom reach_Custom))"

definition ok_Auth :: "json_copy \<Rightarrow> memory \<Rightarrow> mAuthConfig \<Rightarrow> bool" where
  "ok_Auth J = ok_parts parts_Auth
     (ok_pair (ok_new as_oauth ok_OAuth) (ok_new as_custom (ok_Custom J)))"

lemma AuthConfig_DeepCopyInto_eq:
  "AuthConfig_DeepCopyInto J = copy_parts parts_Auth
     (\<lambda>a oc. a\<lparr>m_OAuth := fst oc, m_CustomToken := snd oc\<rparr>)
     (copy_pair ConfigOAuth_DeepCopy (CustomToken_DeepCopy J))"
  by (intro ext) (simp add: AuthConfig_DeepCopyInto_def copy_parts_def parts_Auth_def copy_pair_def
      map_conv_bind_option case_prod_unfold o_def)

interpretation Auth_copy: deep_copy "AuthConfig_DeepCopyInto J" val_Auth reach_Auth "ok_Auth J" for J
  unfolding AuthConfig_DeepCopyInto_eq val_Auth_def reach_Auth_def ok_Auth_def
  by (rule deep_parts [OF deep_pair [OF OAuth_new_copy.deep_copy_axioms Custom_new_copy.deep_copy_axioms]])
    (auto simp: parts_Auth_def)

interpretation Auth_new_copy: deep_copy "AuthConfig_DeepCopy J" "val_new as_authconfig val_Auth"
  "reach_new as_authconfig reach_Auth" "ok_new as_authconfig (ok_Auth J)" for J
  unfolding AuthConfig_DeepCopy_def by (rule deep_new [OF Auth_copy.deep_copy_axioms]) simp

section \<open>The top-level configuration\<close>

definition copy_authmap :: "json_copy \<Rightarrow> ref copies" where
  "copy_authmap J = copy_new as_authmap CAuthMap (copy_map (copy_deref CAuthConfig (AuthConfig_DeepCopyInto J)))"

definition copy_seeders :: "json_copy \<Rightarrow> ref copies" where
  "copy_seeders J = copy_new as_seeders CSeeders (copy_map (copy_deref CAction (Action_DeepCopyInto J)))"

text \<open>\<^verbatim>\<open>DeepCopyInto\<close> makes a map even where the receiver is nil; \<^verbatim>\<open>DeepCopy\<close> does not call it then.\<close>

definition AuthMap_DeepCopyInto :: "json_copy \<Rightarrow> ref copies" where
  "AuthMap_DeepCopyInto J h in' =
     (case in' of None \<Rightarrow> Some (h @ [CAuthMap []], Some (length h)) | Some a \<Rightarrow> copy_authmap J h (Some a))"

definition AuthMap_DeepCopy :: "json_copy \<Rightarrow> ref copies" where
  "AuthMap_DeepCopy J h in' = (if in' = None then Some (h, None) else AuthMap_DeepCopyInto J h in')"

definition Seeders_DeepCopyInto :: "json_copy \<Rightarrow> ref copies" where
  "Seeders_DeepCopyInto J h in' =
     (case in' of None \<Rightarrow> Some (h @ [CSeeders []], Some (length h)) | Some a \<Rightarrow> copy_seeders J h (Some a))"

definition Seeders_DeepCopy :: "json_copy \<Rightarrow> ref copies" where
  "Seeders_DeepCopy J h in' = (if in' = None then Some (h, None) else Seeders_DeepCopyInto J h in')"

definition StrategyConfig_DeepCopyInto :: "json_copy \<Rightarrow> mStrategyConfig copies" where
  "StrategyConfig_DeepCopyInto J h in' = do {
     (h, auths) \<leftarrow> copy_authmap J h (m_AuthConfigs in');
     (h, seeders) \<leftarrow> copy_seeders J h (m_Seeders in');
     Some (h, in'\<lparr>m_AuthConfigs := auths, m_Seeders := seeders\<rparr>)
   }"

definition StrategyConfig_DeepCopy :: "json_copy \<Rightarrow> ref copies" where
  "StrategyConfig_DeepCopy J = copy_new as_strategyconfig CStrategyConfig (StrategyConfig_DeepCopyInto J)"

abbreviation "val_authmap \<equiv> val_new as_authmap (val_map val_Auth)"
abbreviation "val_seeders \<equiv> val_new as_seeders (val_map val_Action)"
abbreviation "reach_authmap \<equiv> reach_new as_authmap (reach_map reach_Auth)"
abbreviation "reach_seeders \<equiv> reach_new as_seeders (reach_map reach_Action)"
abbreviation "ok_authmap J \<equiv> ok_new as_authmap (ok_map (ok_Auth J))"
abbreviation "ok_seeders J \<equiv> ok_new as_seeders (ok_map (ok_Action J))"

interpretation authmap_copy: deep_copy "copy_authmap J" val_authmap reach_authmap "ok_authmap J" for J
  unfolding copy_authmap_def by (rule deep_new [OF deep_map [OF deep_deref [OF Auth_copy.deep_copy_axioms]]]) simp

interpretation seeders_copy: deep_copy "copy_seeders J" val_seeders reach_seeders "ok_seeders J" for J
  unfolding copy_seeders_def by (rule deep_new [OF deep_map [OF deep_deref [OF Action_copy.deep_copy_axioms]]]) simp

lemma map_copies_eq: "AuthMap_DeepCopy = copy_authmap" "Seeders_DeepCopy = copy_seeders"
  by (auto simp: fun_eq_iff AuthMap_DeepCopy_def AuthMap_DeepCopyInto_def Seeders_DeepCopy_def
      Seeders_DeepCopyInto_def copy_authmap_def copy_seeders_def copy_new_def split: option.split)

definition parts_Config where
  "parts_Config c = (m_AuthConfigs c, m_Seeders c)"

definition empty_if_nil :: "'v gomap option \<Rightarrow> 'v gomap" where
  "empty_if_nil m = (case m of None \<Rightarrow> [] | Some es \<Rightarrow> es)"

definition val_Config :: "memory \<Rightarrow> mStrategyConfig \<Rightarrow> StrategyConfig" where
  "val_Config = val_parts parts_Config
     (\<lambda>c m. \<lparr>AuthConfigs = empty_if_nil (fst m), Seeders = empty_if_nil (snd m), cfgOptions = m_Options c\<rparr>)
     (val_pair val_authmap val_seeders)"

definition reach_Config :: "memory \<Rightarrow> mStrategyConfig \<Rightarrow> nat set" where
  "reach_Config = reach_parts parts_Config (reach_pair reach_authmap reach_seeders)"

definition ok_Config :: "json_copy \<Rightarrow> memory \<Rightarrow> mStrategyConfig \<Rightarrow> bool" where
  "ok_Config J = ok_parts parts_Config (ok_pair (ok_authmap J) (ok_seeders J))"

lemma StrategyConfig_DeepCopyInto_eq:
  "StrategyConfig_DeepCopyInto J = copy_parts parts_Config
     (\<lambda>c m. c\<lparr>m_AuthConfigs := fst m, m_Seeders := snd m\<rparr>) (copy_pair (copy_authmap J) (copy_seeders J))"
  by (intro ext) (simp add: StrategyConfig_DeepCopyInto_def copy_parts_def parts_Config_def copy_pair_def
      map_conv_bind_option case_prod_unfold o_def)

interpretation Config_copy: deep_copy "StrategyConfig_DeepCopyInto J" val_Config reach_Config "ok_Config J" for J
  unfolding StrategyConfig_DeepCopyInto_eq val_Config_def reach_Config_def ok_Config_def
  by (rule deep_parts [OF deep_pair [OF authmap_copy.deep_copy_axioms seeders_copy.deep_copy_axioms]])
    (auto simp: parts_Config_def)

interpretation Config_new_copy: deep_copy "StrategyConfig_DeepCopy J" "val_new as_strategyconfig val_Config"
  "reach_new as_strategyconfig reach_Config" "ok_new as_strategyconfig (ok_Config J)" for J
  unfolding StrategyConfig_DeepCopy_def by (rule deep_new [OF Config_copy.deep_copy_axioms]) simp

text \<open>
  A deep copy of an action means what the action means, and shares nothing with it:
  neither a write to any cell the copy can reach changes the original, nor a write to any
  cell that was there before changes the copy.
\<close>

theorem Action_DeepCopy_separate:
  assumes "ok_Action J h a"
  shows "\<exists>h' b. Action_DeepCopyInto J h a = Some (h', b) \<and> val_Action h' b = val_Action h a \<and>
    (\<forall>x \<in> reach_Action h' b. \<forall>c. val_Action (h'[x := c]) a = val_Action h a) \<and>
    (\<forall>x < length h. \<forall>c. val_Action (h'[x := c]) b = val_Action h a)"
proof -
  from Action_copy.copies [OF assms] obtain h' b where
    b: "Action_DeepCopyInto J h a = Some (h', b)" "val_Action h' b = val_Action h a" by blast
  with Action_copy.write_copy [OF assms b(1)] Action_copy.write_original [OF assms b(1)]
  show ?thesis by blast
qed

end
