(* ===== verification/Resource_Copy.thy ===== *)
theory Resource_Copy
  imports Seeder_Copy
begin

text \<open>
  The deep copies of the custom resources: \<^verbatim>\<open>apis/reststrategy/v1alpha1/zz_generated.deepcopy.go\<close>
  and \<^verbatim>\<open>kubebuilder-controller/api/v1alpha1/zz_generated.deepcopy.go\<close>.  Of the metadata the
  fields the program reads are kept, which hold no references.  \<^verbatim>\<open>DeepCopyObject\<close> is
  \<^verbatim>\<open>DeepCopy\<close> seen as an interface value, nil for nil.
\<close>

section \<open>The resource of the controller\<close>

definition ApiAuthConfig_DeepCopyInto :: "json_copy \<Rightarrow> mApiAuthConfig copies" where
  "ApiAuthConfig_DeepCopyInto J h in' = do {
     (h, a) \<leftarrow> AuthConfig_DeepCopyInto J h (m_aaAuth in');
     Some (h, in'\<lparr>m_aaAuth := a\<rparr>)
   }"

definition SeederConfig_DeepCopyInto :: "json_copy \<Rightarrow> mSeederConfig copies" where
  "SeederConfig_DeepCopyInto J h in' = do {
     (h, a) \<leftarrow> Action_DeepCopyInto J h (m_scAction in');
     Some (h, in'\<lparr>m_scAction := a\<rparr>)
   }"

definition ApiAuthConfig_DeepCopy :: "json_copy \<Rightarrow> ref copies" where
  "ApiAuthConfig_DeepCopy J = copy_new as_apiauth CApiAuth (ApiAuthConfig_DeepCopyInto J)"

definition SeederConfig_DeepCopy :: "json_copy \<Rightarrow> ref copies" where
  "SeederConfig_DeepCopy J = copy_new as_seederconfig CSeederConfig (SeederConfig_DeepCopyInto J)"

text \<open>The slices of a spec, and the spec.\<close>

definition copy_apiauths :: "json_copy \<Rightarrow> ref copies" where
  "copy_apiauths J = copy_new as_apiauths CApiAuths (copy_list (ApiAuthConfig_DeepCopyInto J))"

definition copy_seederconfigs :: "json_copy \<Rightarrow> ref copies" where
  "copy_seederconfigs J = copy_new as_seederconfigs CSeederConfigs (copy_list (SeederConfig_DeepCopyInto J))"

definition StrategySpec_DeepCopyInto :: "json_copy \<Rightarrow> mStrategySpec copies" where
  "StrategySpec_DeepCopyInto J h in' = do {
     (h, auths) \<leftarrow> copy_apiauths J h (m_specAuth in');
     (h, seeders) \<leftarrow> copy_seederconfigs J h (m_specSeeders in');
     Some (h, in'\<lparr>m_specAuth := auths, m_specSeeders := seeders\<rparr>)
   }"

definition StrategySpec_DeepCopy :: "json_copy \<Rightarrow> ref copies" where
  "StrategySpec_DeepCopy J = copy_new as_spec CSpec (StrategySpec_DeepCopyInto J)"

definition StrategyStatus_DeepCopyInto :: "StrategyStatus copies" where
  "StrategyStatus_DeepCopyInto h in' = Some (h, in')"

definition StrategyStatus_DeepCopy :: "ref copies" where
  "StrategyStatus_DeepCopy = copy_new as_status CStatus StrategyStatus_DeepCopyInto"

definition RestStrategy_DeepCopyInto :: "json_copy \<Rightarrow> mRestStrategy copies" where
  "RestStrategy_DeepCopyInto J h in' = do {
     (h, spec) \<leftarrow> StrategySpec_DeepCopyInto J h (m_rsSpec in');
     Some (h, in'\<lparr>m_rsSpec := spec, m_rsStatus := m_rsStatus in'\<rparr>)
   }"

definition RestStrategy_DeepCopy :: "json_copy \<Rightarrow> ref copies" where
  "RestStrategy_DeepCopy J = copy_new as_rest CRest (RestStrategy_DeepCopyInto J)"

definition RestStrategy_DeepCopyObject :: "json_copy \<Rightarrow> ref copies" where
  "RestStrategy_DeepCopyObject J h in' = do {
     (h, c) \<leftarrow> RestStrategy_DeepCopy J h in';
     Some (h, if c \<noteq> None then c else None)
   }"

text \<open>A list holds its items; its own metadata has no references the program reads.\<close>

definition RestStrategyList_DeepCopyInto :: "json_copy \<Rightarrow> ref copies" where
  "RestStrategyList_DeepCopyInto J = copy_new as_rests CRests (copy_list (RestStrategy_DeepCopyInto J))"

definition RestStrategyList_DeepCopy :: "json_copy \<Rightarrow> ref copies" where
  "RestStrategyList_DeepCopy J = copy_new as_restlist CRestList (RestStrategyList_DeepCopyInto J)"

definition RestStrategyList_DeepCopyObject :: "json_copy \<Rightarrow> ref copies" where
  "RestStrategyList_DeepCopyObject J h in' = do {
     (h, c) \<leftarrow> RestStrategyList_DeepCopy J h in';
     Some (h, if c \<noteq> None then c else None)
   }"

section \<open>The resource of the kubebuilder controller\<close>

definition copy_auths :: "json_copy \<Rightarrow> ref copies" where
  "copy_auths J = copy_new as_auths CAuths (copy_list (AuthConfig_DeepCopyInto J))"

definition copy_actions :: "json_copy \<Rightarrow> ref copies" where
  "copy_actions J = copy_new as_actions CActions (copy_list (Action_DeepCopyInto J))"

definition KbStrategySpec_DeepCopyInto :: "json_copy \<Rightarrow> mStrategySpec copies" where
  "KbStrategySpec_DeepCopyInto J h in' = do {
     (h, auths) \<leftarrow> copy_auths J h (m_specAuth in');
     (h, seeders) \<leftarrow> copy_actions J h (m_specSeeders in');
     Some (h, in'\<lparr>m_specAuth := auths, m_specSeeders := seeders\<rparr>)
   }"

definition KbStrategySpec_DeepCopy :: "json_copy \<Rightarrow> ref copies" where
  "KbStrategySpec_DeepCopy J = copy_new as_spec CSpec (KbStrategySpec_DeepCopyInto J)"

definition KbRestStrategy_DeepCopyInto :: "json_copy \<Rightarrow> mKbRestStrategy copies" where
  "KbRestStrategy_DeepCopyInto J h in' = do {
     (h, spec) \<leftarrow> KbStrategySpec_DeepCopyInto J h (m_kbSpec in');
     Some (h, in'\<lparr>m_kbSpec := spec, m_kbMessage := m_kbMessage in'\<rparr>)
   }"

definition KbRestStrategy_DeepCopy :: "json_copy \<Rightarrow> ref copies" where
  "KbRestStrategy_DeepCopy J = copy_new as_kbrest CKbRest (KbRestStrategy_DeepCopyInto J)"

definition KbRestStrategyList_DeepCopyInto :: "json_copy \<Rightarrow> ref copies" where
  "KbRestStrategyList_DeepCopyInto J = copy_new as_kbrests CKbRests (copy_list (KbRestStrategy_DeepCopyInto J))"

definition KbRestStrategyList_DeepCopy :: "json_copy \<Rightarrow> ref copies" where
  "KbRestStrategyList_DeepCopy J = copy_new as_restlist CRestList (KbRestStrategyList_DeepCopyInto J)"

definition KbStrategyStatus_DeepCopyInto :: "StrategyStatus copies" where
  "KbStrategyStatus_DeepCopyInto h in' = Some (h, in')"

definition KbStrategyStatus_DeepCopy :: "ref copies" where
  "KbStrategyStatus_DeepCopy = copy_new as_status CStatus KbStrategyStatus_DeepCopyInto"

definition KbRestStrategy_DeepCopyObject :: "json_copy \<Rightarrow> ref copies" where
  "KbRestStrategy_DeepCopyObject J h in' = do {
     (h, c) \<leftarrow> KbRestStrategy_DeepCopy J h in';
     Some (h, if c \<noteq> None then c else None)
   }"

definition KbRestStrategyList_DeepCopyObject :: "json_copy \<Rightarrow> ref copies" where
  "KbRestStrategyList_DeepCopyObject J h in' = do {
     (h, c) \<leftarrow> KbRestStrategyList_DeepCopy J h in';
     Some (h, if c \<noteq> None then c else None)
   }"

section \<open>What they mean\<close>

definition val_ApiAuth :: "memory \<Rightarrow> mApiAuthConfig \<Rightarrow> ApiAuthConfig" where
  "val_ApiAuth = val_parts m_aaAuth (\<lambda>s a. \<lparr>aaName = m_aaName s, aaAuth = a\<rparr>) val_Auth"

definition val_SeederConfig :: "memory \<Rightarrow> mSeederConfig \<Rightarrow> SeederConfig" where
  "val_SeederConfig = val_parts m_scAction (\<lambda>s a. \<lparr>scName = m_scName s, scAction = a\<rparr>) val_Action"

definition empty_if_nil_slice :: "'v list option \<Rightarrow> 'v list" where
  "empty_if_nil_slice m = (case m of None \<Rightarrow> [] | Some vs \<Rightarrow> vs)"

definition parts_Spec where
  "parts_Spec s = (m_specAuth s, m_specSeeders s)"

definition upd_Spec where
  "upd_Spec s m = s\<lparr>m_specAuth := fst m, m_specSeeders := snd m\<rparr>"

abbreviation "val_apiauths \<equiv> val_new as_apiauths (val_list val_ApiAuth)"
abbreviation "val_seederconfigs \<equiv> val_new as_seederconfigs (val_list val_SeederConfig)"
abbreviation "reach_apiauths \<equiv> reach_new as_apiauths (reach_list (reach_parts m_aaAuth reach_Auth))"
abbreviation "reach_seederconfigs \<equiv>
  reach_new as_seederconfigs (reach_list (reach_parts m_scAction reach_Action))"
abbreviation "ok_apiauths J \<equiv> ok_new as_apiauths (ok_list (ok_parts m_aaAuth (ok_Auth J)))"
abbreviation "ok_seederconfigs J \<equiv>
  ok_new as_seederconfigs (ok_list (ok_parts m_scAction (ok_Action J)))"

definition val_Spec :: "memory \<Rightarrow> mStrategySpec \<Rightarrow> StrategySpec" where
  "val_Spec = val_parts parts_Spec
     (\<lambda>s m. \<lparr>specAuth = empty_if_nil_slice (fst m), specSeeders = empty_if_nil_slice (snd m)\<rparr>)
     (val_pair val_apiauths val_seederconfigs)"

definition reach_Spec :: "memory \<Rightarrow> mStrategySpec \<Rightarrow> nat set" where
  "reach_Spec = reach_parts parts_Spec (reach_pair reach_apiauths reach_seederconfigs)"

definition ok_Spec :: "json_copy \<Rightarrow> memory \<Rightarrow> mStrategySpec \<Rightarrow> bool" where
  "ok_Spec J = ok_parts parts_Spec (ok_pair (ok_apiauths J) (ok_seederconfigs J))"

definition val_Rest :: "memory \<Rightarrow> mRestStrategy \<Rightarrow> RestStrategy" where
  "val_Rest = val_parts m_rsSpec
     (\<lambda>s sp. \<lparr>rsNamespace = m_rsNamespace s, rsName = m_rsName s, rsResourceVersion = m_rsResourceVersion s,
        rsGeneration = m_rsGeneration s, rsSpec = sp, rsStatusBlock = m_rsStatus s\<rparr>) val_Spec"

definition reach_Rest :: "memory \<Rightarrow> mRestStrategy \<Rightarrow> nat set" where
  "reach_Rest = reach_parts m_rsSpec reach_Spec"

definition ok_Rest :: "json_copy \<Rightarrow> memory \<Rightarrow> mRestStrategy \<Rightarrow> bool" where
  "ok_Rest J = ok_parts m_rsSpec (ok_Spec J)"

lemmas struct_copy = copy_parts_def map_conv_bind_option case_prod_unfold o_def

interpretation ApiAuth_copy: deep_copy "ApiAuthConfig_DeepCopyInto J" val_ApiAuth
  "reach_parts m_aaAuth reach_Auth" "ok_parts m_aaAuth (ok_Auth J)" for J
proof -
  have "ApiAuthConfig_DeepCopyInto J =
      copy_parts m_aaAuth (\<lambda>s a. s\<lparr>m_aaAuth := a\<rparr>) (AuthConfig_DeepCopyInto J)"
    by (intro ext) (simp add: ApiAuthConfig_DeepCopyInto_def struct_copy)
  then show "deep_copy (ApiAuthConfig_DeepCopyInto J) val_ApiAuth
      (reach_parts m_aaAuth reach_Auth) (ok_parts m_aaAuth (ok_Auth J))"
    unfolding val_ApiAuth_def by (simp add: deep_parts [OF Auth_copy.deep_copy_axioms])
qed

interpretation SeederConfig_copy: deep_copy "SeederConfig_DeepCopyInto J" val_SeederConfig
  "reach_parts m_scAction reach_Action" "ok_parts m_scAction (ok_Action J)" for J
proof -
  have "SeederConfig_DeepCopyInto J =
      copy_parts m_scAction (\<lambda>s a. s\<lparr>m_scAction := a\<rparr>) (Action_DeepCopyInto J)"
    by (intro ext) (simp add: SeederConfig_DeepCopyInto_def struct_copy)
  then show "deep_copy (SeederConfig_DeepCopyInto J) val_SeederConfig
      (reach_parts m_scAction reach_Action) (ok_parts m_scAction (ok_Action J))"
    unfolding val_SeederConfig_def by (simp add: deep_parts [OF Action_copy.deep_copy_axioms])
qed

interpretation apiauths_copy: deep_copy "copy_apiauths J" val_apiauths reach_apiauths "ok_apiauths J" for J
  unfolding copy_apiauths_def by (rule deep_new [OF deep_list [OF ApiAuth_copy.deep_copy_axioms]]) simp

interpretation seederconfigs_copy: deep_copy "copy_seederconfigs J" val_seederconfigs reach_seederconfigs
  "ok_seederconfigs J" for J
  unfolding copy_seederconfigs_def by (rule deep_new [OF deep_list [OF SeederConfig_copy.deep_copy_axioms]]) simp

lemma parts_upd_Spec [simp]: "parts_Spec (upd_Spec s m) = m"
  by (simp add: parts_Spec_def upd_Spec_def)

interpretation Spec_copy: deep_copy "StrategySpec_DeepCopyInto J" val_Spec reach_Spec "ok_Spec J" for J
proof -
  have "StrategySpec_DeepCopyInto J =
      copy_parts parts_Spec upd_Spec (copy_pair (copy_apiauths J) (copy_seederconfigs J))"
    by (intro ext) (simp add: StrategySpec_DeepCopyInto_def parts_Spec_def upd_Spec_def copy_pair_def struct_copy)
  then show "deep_copy (StrategySpec_DeepCopyInto J) val_Spec reach_Spec (ok_Spec J)"
    unfolding val_Spec_def reach_Spec_def ok_Spec_def
    by (simp add: deep_parts [OF deep_pair [OF apiauths_copy.deep_copy_axioms seederconfigs_copy.deep_copy_axioms]])
qed

interpretation Rest_copy: deep_copy "RestStrategy_DeepCopyInto J" val_Rest reach_Rest "ok_Rest J" for J
proof -
  have "RestStrategy_DeepCopyInto J =
      copy_parts m_rsSpec (\<lambda>s sp. s\<lparr>m_rsSpec := sp\<rparr>) (StrategySpec_DeepCopyInto J)"
    by (intro ext) (simp add: RestStrategy_DeepCopyInto_def struct_copy)
  then show "deep_copy (RestStrategy_DeepCopyInto J) val_Rest reach_Rest (ok_Rest J)"
    unfolding val_Rest_def reach_Rest_def ok_Rest_def
    by (simp add: deep_parts [OF Spec_copy.deep_copy_axioms])
qed

abbreviation "val_RestRef \<equiv> val_new as_rest val_Rest"
abbreviation "reach_RestRef \<equiv> reach_new as_rest reach_Rest"
abbreviation "ok_RestRef J \<equiv> ok_new as_rest (ok_Rest J)"

interpretation Rest_new_copy: deep_copy "RestStrategy_DeepCopy J" val_RestRef reach_RestRef "ok_RestRef J" for J
  unfolding RestStrategy_DeepCopy_def by (rule deep_new [OF Rest_copy.deep_copy_axioms]) simp

abbreviation "val_Rests \<equiv> val_new as_rests (val_list val_Rest)"
abbreviation "reach_Rests \<equiv> reach_new as_rests (reach_list reach_Rest)"
abbreviation "ok_Rests J \<equiv> ok_new as_rests (ok_list (ok_Rest J))"

interpretation Rests_copy: deep_copy "RestStrategyList_DeepCopyInto J" val_Rests reach_Rests "ok_Rests J" for J
  unfolding RestStrategyList_DeepCopyInto_def by (rule deep_new [OF deep_list [OF Rest_copy.deep_copy_axioms]]) simp

interpretation Rests_new_copy: deep_copy "RestStrategyList_DeepCopy J" "val_new as_restlist val_Rests"
  "reach_new as_restlist reach_Rests" "ok_new as_restlist (ok_Rests J)" for J
  unfolding RestStrategyList_DeepCopy_def by (rule deep_new [OF Rests_copy.deep_copy_axioms]) simp

lemma DeepCopyObject_eq:
  "RestStrategy_DeepCopyObject = RestStrategy_DeepCopy"
  "RestStrategyList_DeepCopyObject = RestStrategyList_DeepCopy"
  "KbRestStrategy_DeepCopyObject = KbRestStrategy_DeepCopy"
  "KbRestStrategyList_DeepCopyObject = KbRestStrategyList_DeepCopy"
  by (intro ext, simp add: RestStrategy_DeepCopyObject_def RestStrategyList_DeepCopyObject_def
      KbRestStrategy_DeepCopyObject_def KbRestStrategyList_DeepCopyObject_def case_prod_unfold
      split: bind_splits)+

text \<open>The four copies that are handed out as an object are deep copies.\<close>

lemmas object_copies =
  Rest_new_copy.copies [folded DeepCopyObject_eq] Rests_new_copy.copies [folded DeepCopyObject_eq]

definition parts_kb where
  "parts_kb m = \<lparr>kbAuth = empty_if_nil_slice (fst m), kbSeeders = empty_if_nil_slice (snd m)\<rparr>"

abbreviation "val_auths \<equiv> val_new as_auths (val_list val_Auth)"
abbreviation "val_actions \<equiv> val_new as_actions (val_list val_Action)"
abbreviation "reach_auths \<equiv> reach_new as_auths (reach_list reach_Auth)"
abbreviation "reach_actions \<equiv> reach_new as_actions (reach_list reach_Action)"
abbreviation "ok_auths J \<equiv> ok_new as_auths (ok_list (ok_Auth J))"
abbreviation "ok_actions J \<equiv> ok_new as_actions (ok_list (ok_Action J))"

definition val_KbSpec :: "memory \<Rightarrow> mStrategySpec \<Rightarrow> KbStrategySpec" where
  "val_KbSpec = val_parts parts_Spec (\<lambda>s. parts_kb) (val_pair val_auths val_actions)"

definition reach_KbSpec :: "memory \<Rightarrow> mStrategySpec \<Rightarrow> nat set" where
  "reach_KbSpec = reach_parts parts_Spec (reach_pair reach_auths reach_actions)"

definition ok_KbSpec :: "json_copy \<Rightarrow> memory \<Rightarrow> mStrategySpec \<Rightarrow> bool" where
  "ok_KbSpec J = ok_parts parts_Spec (ok_pair (ok_auths J) (ok_actions J))"

definition val_Kb :: "memory \<Rightarrow> mKbRestStrategy \<Rightarrow> KbRestStrategy" where
  "val_Kb = val_parts m_kbSpec
     (\<lambda>s sp. \<lparr>kbNamespace = m_kbNamespace s, kbName = m_kbName s, kbSpec = sp, kbMessage = m_kbMessage s\<rparr>)
     val_KbSpec"

definition reach_Kb :: "memory \<Rightarrow> mKbRestStrategy \<Rightarrow> nat set" where
  "reach_Kb = reach_parts m_kbSpec reach_KbSpec"

definition ok_Kb :: "json_copy \<Rightarrow> memory \<Rightarrow> mKbRestStrategy \<Rightarrow> bool" where
  "ok_Kb J = ok_parts m_kbSpec (ok_KbSpec J)"

interpretation auths_copy: deep_copy "copy_auths J" val_auths reach_auths "ok_auths J" for J
  unfolding copy_auths_def by (rule deep_new [OF deep_list [OF Auth_copy.deep_copy_axioms]]) simp

interpretation actions_copy: deep_copy "copy_actions J" val_actions reach_actions "ok_actions J" for J
  unfolding copy_actions_def by (rule deep_new [OF deep_list [OF Action_copy.deep_copy_axioms]]) simp

interpretation KbSpec_copy: deep_copy "KbStrategySpec_DeepCopyInto J" val_KbSpec reach_KbSpec "ok_KbSpec J" for J
proof -
  have "KbStrategySpec_DeepCopyInto J =
      copy_parts parts_Spec upd_Spec (copy_pair (copy_auths J) (copy_actions J))"
    by (intro ext) (simp add: KbStrategySpec_DeepCopyInto_def parts_Spec_def upd_Spec_def copy_pair_def struct_copy)
  then show "deep_copy (KbStrategySpec_DeepCopyInto J) val_KbSpec reach_KbSpec (ok_KbSpec J)"
    unfolding val_KbSpec_def reach_KbSpec_def ok_KbSpec_def
    by (simp add: deep_parts [OF deep_pair [OF auths_copy.deep_copy_axioms actions_copy.deep_copy_axioms]])
qed

interpretation Kb_copy: deep_copy "KbRestStrategy_DeepCopyInto J" val_Kb reach_Kb "ok_Kb J" for J
proof -
  have "KbRestStrategy_DeepCopyInto J =
      copy_parts m_kbSpec (\<lambda>s sp. s\<lparr>m_kbSpec := sp\<rparr>) (KbStrategySpec_DeepCopyInto J)"
    by (intro ext) (simp add: KbRestStrategy_DeepCopyInto_def struct_copy)
  then show "deep_copy (KbRestStrategy_DeepCopyInto J) val_Kb reach_Kb (ok_Kb J)"
    unfolding val_Kb_def reach_Kb_def ok_Kb_def
    by (simp add: deep_parts [OF KbSpec_copy.deep_copy_axioms])
qed

interpretation Kb_new_copy: deep_copy "KbRestStrategy_DeepCopy J" "val_new as_kbrest val_Kb"
  "reach_new as_kbrest reach_Kb" "ok_new as_kbrest (ok_Kb J)" for J
  unfolding KbRestStrategy_DeepCopy_def by (rule deep_new [OF Kb_copy.deep_copy_axioms]) simp

interpretation Kbs_copy: deep_copy "KbRestStrategyList_DeepCopyInto J" "val_new as_kbrests (val_list val_Kb)"
  "reach_new as_kbrests (reach_list reach_Kb)" "ok_new as_kbrests (ok_list (ok_Kb J))" for J
  unfolding KbRestStrategyList_DeepCopyInto_def by (rule deep_new [OF deep_list [OF Kb_copy.deep_copy_axioms]]) simp

interpretation Kbs_new_copy: deep_copy "KbRestStrategyList_DeepCopy J"
  "val_new as_restlist (val_new as_kbrests (val_list val_Kb))"
  "reach_new as_restlist (reach_new as_kbrests (reach_list reach_Kb))"
  "ok_new as_restlist (ok_new as_kbrests (ok_list (ok_Kb J)))" for J
  unfolding KbRestStrategyList_DeepCopy_def by (rule deep_new [OF Kbs_copy.deep_copy_axioms]) simp

section \<open>What the copies are for\<close>

text \<open>
  C38: A deep copy of a resource succeeds where its maps are what a JSON decoder produces,
  means the same resource and shares nothing with it; the resource in the informer's cache
  survives every write to what the copy can reach.
\<close>

theorem RestStrategy_DeepCopy_separate:
  assumes "ok_RestRef J h r"
  shows "\<exists>h' r'. RestStrategy_DeepCopy J h r = Some (h', r') \<and> val_RestRef h' r' = val_RestRef h r \<and>
    (\<forall>x \<in> reach_RestRef h' r'. \<forall>c. val_RestRef (h'[x := c]) r = val_RestRef h r) \<and>
    (\<forall>x < length h. \<forall>c. val_RestRef (h'[x := c]) r' = val_RestRef h r)"
proof -
  from Rest_new_copy.copies [OF assms] obtain h' r' where
    r: "RestStrategy_DeepCopy J h r = Some (h', r')" "val_RestRef h' r' = val_RestRef h r" by blast
  with Rest_new_copy.write_copy [OF assms r(1)] Rest_new_copy.write_original [OF assms r(1)]
  show ?thesis by blast
qed

text \<open>\<^verbatim>\<open>updateStatus\<close> in memory, up to the call of the API: copy, then set the message.\<close>

definition status_copy :: "json_copy \<Rightarrow> memory \<Rightarrow> nat \<Rightarrow> string \<Rightarrow> (memory \<times> ref) option" where
  "status_copy J h a message = do {
     (h', r) \<leftarrow> RestStrategy_DeepCopy J h (Some a);
     Some (case r of
       None \<Rightarrow> (h', None)
     | Some b \<Rightarrow> (h'[b := CRest ((as_rest (h' ! b))\<lparr>m_rsStatus := \<lparr>stMessage = message\<rparr>\<rparr>)], Some b))
   }"

text \<open>
  C39: The status update of the controller, done on cells, is the one its model does on
  values: the object sent is the cached one with the message changed, and the cached one
  stays as it was.
\<close>

theorem status_update_refines:
  assumes "ok_RestRef J h (Some a)" "val_RestRef h (Some a) = Some rs"
  shows "\<exists>h' r. status_copy J h a message = Some (h', r) \<and>
    val_RestRef h' r = Some (rs\<lparr>rsStatusBlock := \<lparr>stMessage = message\<rparr>\<rparr>) \<and>
    val_RestRef h' (Some a) = Some rs"
proof -
  from Rest_new_copy.copies [OF assms(1)] obtain h1 r where
    r: "RestStrategy_DeepCopy J h (Some a) = Some (h1, r)" "val_RestRef h1 r = Some rs"
    by (auto simp: assms(2))
  then obtain g m where m: "RestStrategy_DeepCopyInto J h (as_rest (h ! a)) = Some (g, m)"
    "h1 = g @ [CRest m]" "r = Some (length g)"
    by (auto simp: RestStrategy_DeepCopy_def copy_new_def split: bind_splits)
  have ok: "ok_Rest J h (as_rest (h ! a))" using assms(1) by (simp add: ok_new_def)
  note c = Rest_copy.copied [OF ok m(1)]
  let ?m = "m\<lparr>m_rsStatus := \<lparr>stMessage = message\<rparr>\<rparr>" and ?h = "g @ [CRest (m\<lparr>m_rsStatus := \<lparr>stMessage = message\<rparr>\<rparr>)]"
  have st: "status_copy J h a message = Some (?h, r)"
    using r(1) m(2,3) by (simp add: status_copy_def)
  have "val_Rest ?h m = val_Rest g m" by (rule Rest_copy.later(1) [OF c(4)]) simp
  moreover have "val_Rest ?h ?m = (val_Rest ?h m)\<lparr>rsStatusBlock := \<lparr>stMessage = message\<rparr>\<rparr>"
    by (simp add: val_Rest_def parts_defs)
  moreover have "val_Rest g m = rs" using c(2) assms(2) by (simp add: val_new_def)
  ultimately have new: "val_RestRef ?h r = Some (rs\<lparr>rsStatusBlock := \<lparr>stMessage = message\<rparr>\<rparr>)"
    by (simp add: m(3) val_new_def)
  have "prefix h ?h" using c(1) by (rule prefix_prefix)
  from Rest_new_copy.later(1) [OF assms(1) this] assms(2) have "val_RestRef ?h (Some a) = Some rs" by simp
  with st new show ?thesis by blast
qed

section \<open>A copy at work\<close>

definition sample_action_cell :: mAction where
  "sample_action_cell = \<lparr>m_name = [], m_templatedPayload = [], m_foundId = [], m_header = Some 1, m_Name = ''a'',
     m_Strategy = ''POST'', m_Order = Some 3, m_Endpoint = ''/v'', m_GetEndpointSuffix = None,
     m_PostEndpointSuffix = None, m_PatchEndpointSuffix = None, m_PutEndpointSuffix = None,
     m_DeleteEndpointSuffix = None, m_FindByJsonPathExpr = [], m_PostIsPut = False, m_PayloadTemplate = [],
     m_PatchPayloadTemplate = [], m_RuntimeVars = None, m_AuthMapRef = ''b'', m_HttpHeaders = None,
     m_Variables = Some 4\<rparr>"

definition sample_memory :: memory where
  "sample_memory = [CStrs [''json''], CHeader (Some 2), CSliceMap [(''Accept'', Some 0), (''X'', None)], CInt 7,
     CJson [(''k'', AStr ''v'')], CSeederConfigs [\<lparr>m_scName = ''a'', m_scAction = sample_action_cell\<rparr>],
     CRest \<lparr>m_rsNamespace = ''ns'', m_rsName = ''n'', m_rsResourceVersion = ''1'', m_rsGeneration = 1,
       m_rsSpec = \<lparr>m_specAuth = None, m_specSeeders = Some 5\<rparr>, m_rsStatus = \<lparr>stMessage = []\<rparr>\<rparr>]"

lemmas ok_defs = ok_Rest_def ok_Spec_def ok_Action_def parts_defs pair_defs new_defs list_defs map_defs
  ok_plain_def ok_tree_def parts_Spec_def parts_Action_def

lemma sample_ok: "ok_Action Some sample_memory sample_action_cell" "ok_RestRef Some sample_memory (Some 6)"
  by (simp_all add: ok_defs sample_memory_def sample_action_cell_def)

theorem Action_DeepCopy_separate_witness:
  "\<exists>h' b. Action_DeepCopyInto Some sample_memory sample_action_cell = Some (h', b) \<and>
     Order (val_Action (h'[3 := CInt 9]) b) = Some 7"
proof -
  from Action_DeepCopy_separate [OF sample_ok(1)] obtain h' b where
    b: "Action_DeepCopyInto Some sample_memory sample_action_cell = Some (h', b)"
    "\<forall>x < length sample_memory. \<forall>c. val_Action (h'[x := c]) b = val_Action sample_memory sample_action_cell"
    by blast
  have "3 < length sample_memory" by (simp add: sample_memory_def)
  with b(2) have "val_Action (h'[3 := CInt 9]) b = val_Action sample_memory sample_action_cell" by blast
  moreover have "Order (val_Action sample_memory sample_action_cell) = Some 7"
    by (simp add: val_Action_def parts_defs pair_defs parts_Action_def new_defs val_plain_def
        sample_memory_def sample_action_cell_def)
  ultimately show ?thesis using b(1) by auto
qed

theorem RestStrategy_DeepCopy_separate_witness:
  "\<exists>h' r'. RestStrategy_DeepCopy Some sample_memory (Some 6) = Some (h', r') \<and>
     val_RestRef h' r' = val_RestRef sample_memory (Some 6)"
  using RestStrategy_DeepCopy_separate [OF sample_ok(2)] by blast

theorem status_update_refines_witness:
  "\<exists>h' r rs. status_copy Some sample_memory 6 ''done'' = Some (h', r) \<and>
     val_RestRef h' r = Some (rs\<lparr>rsStatusBlock := \<lparr>stMessage = ''done''\<rparr>\<rparr>)"
proof -
  have "val_RestRef sample_memory (Some 6) = Some (val_Rest sample_memory (as_rest (sample_memory ! 6)))"
    by (simp add: val_new_def)
  from status_update_refines [OF sample_ok(2) this] show ?thesis by blast
qed

end
