(* ===== verification/Pointers.thy ===== *)
theory Pointers
  imports Resource_Copy
begin

text \<open>
  \<^verbatim>\<open>seeder/to_ptr.go\<close>, which hands out pointers to values, and the comparison of
  \<^verbatim>\<open>Execute\<close> on memory: it fills in a missing order on the copies it is given, through such a
  pointer.
\<close>

section \<open>Pointers to values\<close>

definition to_Bool :: "bool \<Rightarrow> memory \<Rightarrow> memory \<times> ref" where
  "to_Bool v h = (h @ [CBool v], Some (length h))"

definition to_Byte :: "8 word \<Rightarrow> memory \<Rightarrow> memory \<times> ref" where
  "to_Byte v h = (h @ [CByte v], Some (length h))"

definition to_String :: "string \<Rightarrow> memory \<Rightarrow> memory \<times> ref" where
  "to_String v h = (h @ [CStr v], Some (length h))"

definition to_Int :: "int \<Rightarrow> memory \<Rightarrow> memory \<times> ref" where
  "to_Int v h = (h @ [CInt v], Some (length h))"

lemmas to_ptr_defs = to_Bool_def to_Byte_def to_String_def to_Int_def

text \<open>Each call makes a pointer of its own: a later one does not touch what it points to.\<close>

lemma to_Int_fresh:
  assumes "to_Int v h = (h1, r)" "to_Int w h1 = (h2, q)"
  shows "r \<noteq> q" "val_int h2 r = Some v" "val_int h2 q = Some w" "prefix h h2"
proof -
  have e: "h1 = h @ [CInt v]" "r = Some (length h)" "h2 = (h @ [CInt v]) @ [CInt w]" "q = Some (length h + 1)"
    using assms by (auto simp: to_Int_def)
  show "r \<noteq> q" "val_int h2 r = Some v" "val_int h2 q = Some w" "prefix h h2"
    unfolding e by (simp_all add: val_new_def val_plain_def nth_append)
qed

section \<open>Comparing two actions\<close>

definition with_order :: "memory \<Rightarrow> mAction \<Rightarrow> memory \<times> mAction" where
  "with_order h a =
     (case m_Order a of
        None \<Rightarrow> (case to_Int 999 h of (h', r) \<Rightarrow> (h', a\<lparr>m_Order := r\<rparr>))
      | Some x \<Rightarrow> (h, a))"

definition order_cell :: "memory \<Rightarrow> mAction \<Rightarrow> int" where
  "order_cell h a = as_int (h ! the (m_Order a))"

definition compare_cells :: "memory \<Rightarrow> mAction \<Rightarrow> mAction \<Rightarrow> memory \<times> int" where
  "compare_cells h a b =
     (case with_order h a of (h1, a') \<Rightarrow>
      case with_order h1 b of (h2, b') \<Rightarrow> (h2, go_compare (order_cell h2 a') (order_cell h2 b')))"

lemma val_Action_Order: "Order (val_Action h a) = map_option (\<lambda>x. as_int (h ! x)) (m_Order a)"
  by (simp add: val_Action_def parts_defs pair_defs parts_Action_def new_defs val_plain_def
      split: option.split)

text \<open>
  The comparison on cells is the one on values, with 999 for a missing order, and
  whatever the two actions meant they mean afterwards: the order it fills in is seen by no
  one else.
\<close>

lemma with_order_spec:
  assumes "with_order h a = (h', a')" "ok_Action J h a"
  shows "prefix h h' \<and> m_Order a' \<noteq> None \<and> order_cell h' a' = order_of (val_Action h a) \<and>
    the (m_Order a') < length h'"
proof (cases "m_Order a")
  case None
  then have "h' = h @ [CInt 999]" "a' = a\<lparr>m_Order := Some (length h)\<rparr>"
    using assms(1) by (simp_all add: with_order_def to_Int_def)
  then show ?thesis using None by (simp add: order_cell_def order_of_def val_Action_Order)
next
  case (Some x)
  then have e: "h' = h" "a' = a" using assms(1) by (simp_all add: with_order_def)
  have "ok_int h (m_Order a)" using assms(2) by (simp add: ok_Action_def parts_defs pair_defs parts_Action_def)
  then have "x < length h" using Some by (simp add: new_defs)
  then show ?thesis using Some by (simp add: e order_cell_def order_of_def val_Action_Order)
qed

theorem compare_cells_refines:
  assumes "ok_Action J h a" "ok_Action J h b" "compare_cells h a b = (h', n)"
  shows "n = compare_order (val_Action h a) (val_Action h b) \<and>
    val_Action h' a = val_Action h a \<and> val_Action h' b = val_Action h b"
proof -
  obtain h1 a' where a: "with_order h a = (h1, a')" by (cases "with_order h a")
  obtain h2 b' where b: "with_order h1 b = (h2, b')" by (cases "with_order h1 b")
  have e: "h' = h2" "n = go_compare (order_cell h2 a') (order_cell h2 b')"
    using assms(3) a b by (auto simp: compare_cells_def)
  note sa = with_order_spec [OF a assms(1)]
  have later: "ok_Action J h1 b" "val_Action h1 b = val_Action h b"
    using Action_copy.later [OF assms(2), of h1] sa by blast+
  note sb = with_order_spec [OF b later(1)]
  have "order_cell h2 a' = order_cell h1 a'"
    using sa sb by (auto simp: order_cell_def nth_append elim!: prefixE)
  then have "n = compare_order (val_Action h a) (val_Action h b)"
    using e sa sb later(2) by (simp add: compare_order_def)
  moreover have "prefix h h2" using sa sb by (auto intro: prefix_order.trans)
  ultimately show ?thesis
    using Action_copy.later(1) [OF assms(1)] Action_copy.later(1) [OF assms(2)] e(1) by blast
qed

end
